(* ===== verification/Prelude.thy ===== *)
theory Prelude
  imports Main "HOL-Library.Word"
begin

text \<open>
  Shared vocabulary of the development: the machine integer types of the C sources, the
  theorem collections the component theories fill, and the generic facts on lists, options
  and words that several components use.

  The sources are C11 for LP64 Linux (\<^verbatim>\<open>int\<close> is 32 bits, \<^verbatim>\<open>long\<close> 64 bits).  Values of type
  \<^verbatim>\<open>uint32_t\<close> are \<open>32 word\<close> read by \<open>unat\<close>, values of type \<^verbatim>\<open>int32_t\<close> and the \<^verbatim>\<open>int\<close> payload
  fields of a message are \<open>32 word\<close> read by \<open>sint\<close>.  Bytes are the eight-bit \<open>char\<close> of HOL.
\<close>

type_synonym u32 = "32 word"
type_synonym i32 = "32 word"
type_synonym bytes = "char list"

text \<open>
  Collections: \<open>clean_intros\<close> proves that a string is free of separators, \<open>frame_simps\<close> says
  which fields of the state an operation leaves alone.
\<close>

named_theorems clean_intros \<open>strings without separator characters\<close>
named_theorems frame_simps \<open>fields that an operation does not change\<close>

section \<open>Lists\<close>

lemma takeWhile_all [simp]: "(\<And>x. x \<in> set xs \<Longrightarrow> P x) \<Longrightarrow> takeWhile P xs = xs"
  by (induction xs) auto

lemma dropWhile_none [simp]: "xs \<noteq> [] \<Longrightarrow> \<not> P (hd xs) \<Longrightarrow> dropWhile P xs = xs"
  by (cases xs) auto

lemma takeWhile_stop: "(\<And>x. x \<in> set xs \<Longrightarrow> P x) \<Longrightarrow> \<not> P y \<Longrightarrow> takeWhile P (xs @ y # ys) = xs"
  by (induction xs) auto

lemma dropWhile_stop:
  "(\<And>x. x \<in> set xs \<Longrightarrow> P x) \<Longrightarrow> \<not> P y \<Longrightarrow> dropWhile P (xs @ y # ys) = y # ys"
  by (induction xs) auto

lemma length_takeWhile_less: "x \<in> set xs \<Longrightarrow> \<not> P x \<Longrightarrow> length (takeWhile P xs) < length xs"
  by (induction xs) auto

lemma takeWhile_nth_stop:
  "length (takeWhile P xs) < length xs \<Longrightarrow> \<not> P (xs ! length (takeWhile P xs))"
  by (rule nth_length_takeWhile)

lemma not_in_set_takeWhile_neq: "x \<notin> set (takeWhile (\<lambda>y. y \<noteq> x) xs)"
  by (auto dest: set_takeWhileD)

lemma takeWhile_neq_id: "x \<notin> set xs \<Longrightarrow> takeWhile (\<lambda>y. y \<noteq> x) xs = xs"
  by (induction xs) auto

text \<open>The first occurrence of an element splits a list in one way only.\<close>

lemma first_split_unique:
  assumes "xs @ y # us = zs @ y # vs" and "y \<notin> set xs" and "y \<notin> set zs"
  shows "xs = zs \<and> us = vs"
  using assms
proof (induction xs arbitrary: zs)
  case Nil
  then show ?case by (cases zs) auto
next
  case (Cons x xs)
  then show ?case by (cases zs) auto
qed

lemma count_list_nth_le: "xs ! i = y \<Longrightarrow> i < length xs \<Longrightarrow> 0 < count_list xs y"
proof (induction xs arbitrary: i)
  case Nil
  then show ?case by simp
next
  case (Cons x xs)
  then show ?case by (cases i) auto
qed

section \<open>Options\<close>

lemma bind_Some_iff: "Option.bind m f = Some y \<longleftrightarrow> (\<exists>x. m = Some x \<and> f x = Some y)"
  by (cases m) auto

section \<open>Words\<close>

lemma of_nat_unat_u32 [simp]: "of_nat (unat (w :: u32)) = w"
  by simp

lemma of_int_sint_i32 [simp]: "of_int (sint (w :: i32)) = w"
  by simp

lemma unat_u32_less: "unat (w :: u32) < 2 ^ 64"
proof -
  have "unat w < 2 ^ 32" using unsigned_less [of w] by simp
  then show ?thesis by simp
qed

lemma sint_i32_bounds: "- (2 ^ 31) \<le> sint (w :: i32) \<and> sint (w :: i32) < 2 ^ 31"
  using sint_ge [of w] sint_lt [of w] by simp

end
