(* ===== verification/CLib.thy ===== *)
theory CLib
  imports Prelude "HOL-Library.Char_ord"
begin

text \<open>
  The parts of the C standard library that the sources call on strings, as functions on
  \<open>char list\<close>: a C string is the prefix of its buffer before the first NUL byte.
  \<^verbatim>\<open>strncpy\<close> into a field followed by the terminating store, \<^verbatim>\<open>strtok_r\<close> with the delimiters
  space and tab, \<^verbatim>\<open>strchr\<close> at the sign \<^verbatim>\<open>=\<close>, \<^verbatim>\<open>strtol\<close>/\<^verbatim>\<open>strtoul\<close> in base ten with their
  saturation at the ends of a 64-bit \<^verbatim>\<open>long\<close>, and the decimal conversions of \<^verbatim>\<open>snprintf\<close>.
\<close>

section \<open>C strings\<close>

abbreviation NUL :: char where "NUL \<equiv> CHR 0x00"
abbreviation LF :: char where "LF \<equiv> CHR 0x0A"
abbreviation CR :: char where "CR \<equiv> CHR 0x0D"
abbreviation TAB :: char where "TAB \<equiv> CHR 0x09"
abbreviation SP :: char where "SP \<equiv> CHR 0x20"

definition cstr :: "bytes \<Rightarrow> string" where
  "cstr s = takeWhile (\<lambda>c. c \<noteq> NUL) s"

text \<open>\<^verbatim>\<open>strnlen (s, n)\<close>.\<close>

definition strnlen :: "bytes \<Rightarrow> nat \<Rightarrow> nat" where
  "strnlen s n = min n (length (cstr s))"

text \<open>
  \<^verbatim>\<open>strncpy (dst, src, sizeof dst - 1)\<close> into a field of \<open>n\<close> bytes whose last byte is NUL
  (stored afterwards, or zero from the preceding \<^verbatim>\<open>memset\<close>): the string the field then holds.
  \<^verbatim>\<open>snprintf (dst, sizeof dst, "%s", src)\<close> leaves the same string.
\<close>

definition strncpy_field :: "nat \<Rightarrow> bytes \<Rightarrow> string" where
  "strncpy_field n s = take (n - 1) (cstr s)"

lemma cstr_id [simp]: "NUL \<notin> set s \<Longrightarrow> cstr s = s"
  unfolding cstr_def by (rule takeWhile_neq_id)

lemma cstr_no_NUL [simp]: "NUL \<notin> set (cstr s)"
  unfolding cstr_def by (rule not_in_set_takeWhile_neq)

lemma set_cstr: "set (cstr s) \<subseteq> set s"
  unfolding cstr_def using set_takeWhileD by fastforce

lemma length_cstr: "length (cstr s) \<le> length s"
  unfolding cstr_def by (rule length_takeWhile_le)

lemma take_length_cstr: "take (length (cstr s)) s = cstr s"
  unfolding cstr_def by (metis takeWhile_eq_take)

lemma strncpy_field_length: "length (strncpy_field n s) \<le> n - 1"
  by (simp add: strncpy_field_def)

lemma strncpy_field_less: "0 < n \<Longrightarrow> length (strncpy_field n s) < n"
  using strncpy_field_length [of n s] by linarith

lemma set_strncpy_field: "set (strncpy_field n s) \<subseteq> set s"
  unfolding strncpy_field_def using set_take_subset set_cstr by fastforce

lemma strncpy_field_no_NUL: "NUL \<notin> set (strncpy_field n s)"
  unfolding strncpy_field_def using set_take_subset cstr_no_NUL by fastforce

lemma strncpy_field_id: "NUL \<notin> set s \<Longrightarrow> length s < n \<Longrightarrow> strncpy_field n s = s"
  by (simp add: strncpy_field_def)

section \<open>Tokens\<close>

text \<open>
  One call of \<^verbatim>\<open>strtok_r (\<dots>, " \t", &save)\<close> on the rest \<open>s\<close> of the buffer: the token and the
  rest after the delimiter that ended it, or \<open>None\<close> for the null pointer.
\<close>

definition is_delim :: "char \<Rightarrow> bool" where
  "is_delim c \<longleftrightarrow> c = SP \<or> c = TAB"

definition strtok_r :: "string \<Rightarrow> (string \<times> string) option" where
  "strtok_r s =
     (let t = dropWhile is_delim s
      in if t = [] then None
         else Some (takeWhile (\<lambda>c. \<not> is_delim c) t, tl (dropWhile (\<lambda>c. \<not> is_delim c) t)))"

lemma strtok_r_shorter: "strtok_r s = Some (tok, rest) \<Longrightarrow> length rest < length s"
proof -
  assume a: "strtok_r s = Some (tok, rest)"
  let ?t = "dropWhile is_delim s"
  have t: "?t \<noteq> []" and rest: "rest = tl (dropWhile (\<lambda>c. \<not> is_delim c) ?t)"
    using a by (auto simp: strtok_r_def Let_def split: if_splits)
  have "length (dropWhile (\<lambda>c. \<not> is_delim c) ?t) \<le> length ?t" by (rule length_dropWhile_le)
  moreover have "length ?t \<le> length s" by (rule length_dropWhile_le)
  moreover have "0 < length ?t" using t by simp
  ultimately show ?thesis using rest by (simp add: less_eq_Suc_le)
qed

text \<open>\<^verbatim>\<open>strchr (tok, '=')\<close> and the split it is used for: key and value of a token.\<close>

definition split_eq :: "string \<Rightarrow> (string \<times> string) option" where
  "split_eq tok =
     (if CHR ''='' \<in> set tok
      then Some (takeWhile (\<lambda>c. c \<noteq> CHR ''='') tok, tl (dropWhile (\<lambda>c. c \<noteq> CHR ''='') tok))
      else None)"

lemma split_eq_kv: "CHR ''='' \<notin> set k \<Longrightarrow> split_eq (k @ CHR ''='' # v) = Some (k, v)"
  unfolding split_eq_def
  by (subst takeWhile_stop dropWhile_stop; auto)+

text \<open>The reference: all the tokens of a buffer, and how they come back out of a joined line.\<close>

function tokens :: "string \<Rightarrow> string list" where
  "tokens s = (case strtok_r s of None \<Rightarrow> [] | Some (tok, rest) \<Rightarrow> tok # tokens rest)"
  by pat_completeness auto
termination
  by (relation "measure length") (auto dest: strtok_r_shorter)

declare tokens.simps [simp del]

definition is_token :: "string \<Rightarrow> bool" where
  "is_token t \<longleftrightarrow> t \<noteq> [] \<and> (\<forall>c \<in> set t. \<not> is_delim c)"

lemma is_tokenD: "is_token t \<Longrightarrow> c \<in> set t \<Longrightarrow> \<not> is_delim c" "is_token t \<Longrightarrow> t \<noteq> []"
  by (auto simp: is_token_def)

lemma is_delim_simps [simp]: "is_delim SP" "is_delim TAB" "\<not> is_delim CHR ''=''"
  by (simp_all add: is_delim_def)

lemma strtok_r_token:
  assumes t: "is_token t" and r: "r = [] \<or> is_delim (hd r)"
  shows "strtok_r (t @ r) = Some (t, tl r)"
proof -
  have hd_t: "\<not> is_delim (hd (t @ r))" and ne: "t @ r \<noteq> []"
    using t by (auto simp: is_token_def hd_append)
  then have d: "dropWhile is_delim (t @ r) = t @ r" by simp
  have tw: "takeWhile (\<lambda>c. \<not> is_delim c) r = []" and dw: "dropWhile (\<lambda>c. \<not> is_delim c) r = r"
    using r by (cases r; auto)+
  show ?thesis
    using t ne unfolding strtok_r_def d Let_def
    by (auto simp: is_token_def takeWhile_append2 dropWhile_append2 tw dw)
qed

lemma strtok_r_skip: "strtok_r (SP # s) = strtok_r s"
  by (simp add: strtok_r_def)

lemma tokens_Nil [simp]: "tokens [] = []"
  by (simp add: tokens.simps strtok_r_def)

lemma tokens_skip: "tokens (SP # s) = tokens s"
  by (subst (1 2) tokens.simps) (simp only: strtok_r_skip)

lemma tokens_join:
  assumes "\<forall>t \<in> set ts. is_token t"
  shows "tokens (concat (map (\<lambda>t. SP # t) ts)) = ts"
  using assms
proof (induction ts)
  case Nil
  then show ?case by simp
next
  case (Cons t ts)
  let ?r = "concat (map (\<lambda>t. SP # t) ts)"
  have r: "?r = [] \<or> is_delim (hd ?r)" by (cases ts) auto
  have "tokens (SP # t @ ?r) = tokens (t @ ?r)" by (rule tokens_skip)
  also have "\<dots> = t # tokens (tl ?r)"
    using strtok_r_token [OF _ r, of t] Cons.prems by (subst tokens.simps) simp
  also have "tokens (tl ?r) = tokens ?r"
    by (cases ts) (auto simp: tokens_skip)
  also have "\<dots> = ts" using Cons by simp
  finally show ?case by simp
qed

section \<open>Decimal numbers\<close>

definition is_space :: "char \<Rightarrow> bool" where
  "is_space c \<longleftrightarrow> c \<in> {SP, TAB, LF, CHR 0x0B, CHR 0x0C, CR}"

definition is_digit :: "char \<Rightarrow> bool" where
  "is_digit c \<longleftrightarrow> 48 \<le> (of_char c :: nat) \<and> (of_char c :: nat) \<le> 57"

definition digit_val :: "char \<Rightarrow> nat" where
  "digit_val c = of_char c - 48"

definition digit_char :: "nat \<Rightarrow> char" where
  "digit_char d = char_of (48 + d)"

fun digits_val :: "nat \<Rightarrow> string \<Rightarrow> nat" where
  "digits_val acc [] = acc"
| "digits_val acc (c # cs) = digits_val (10 * acc + digit_val c) cs"

text \<open>\<^verbatim>\<open>%u\<close> and \<^verbatim>\<open>%d\<close>.\<close>

fun show_nat :: "nat \<Rightarrow> string" where
  "show_nat n = (if n < 10 then [digit_char n] else show_nat (n div 10) @ [digit_char (n mod 10)])"

declare show_nat.simps [simp del]

definition show_int :: "int \<Rightarrow> string" where
  "show_int i = (if i < 0 then CHR ''-'' # show_nat (nat (- i)) else show_nat (nat i))"

text \<open>The common front end of \<^verbatim>\<open>strtol\<close> and \<^verbatim>\<open>strtoul\<close>: blanks, a sign, digits.\<close>

definition scan_sign :: "string \<Rightarrow> bool \<times> string" where
  "scan_sign s =
     (case s of [] \<Rightarrow> (False, [])
      | c # cs \<Rightarrow> if c = CHR ''-'' then (True, cs) else if c = CHR ''+'' then (False, cs) else (False, s))"

definition scan_int :: "string \<Rightarrow> bool \<times> nat" where
  "scan_int s =
     (case scan_sign (dropWhile is_space s) of
        (neg, u) \<Rightarrow> (neg, digits_val 0 (takeWhile is_digit u)))"

definition strtoul :: "string \<Rightarrow> nat" where
  "strtoul s =
     (case scan_int s of (neg, m) \<Rightarrow>
        if 2 ^ 64 \<le> m then 2 ^ 64 - 1 else if neg then (2 ^ 64 - m) mod 2 ^ 64 else m)"

definition strtol :: "string \<Rightarrow> int" where
  "strtol s =
     (case scan_int s of (neg, m) \<Rightarrow>
        if neg then max (- (2 ^ 63)) (- int m) else min (2 ^ 63 - 1) (int m))"

lemma is_digit_digit_char [simp]: "d < 10 \<Longrightarrow> is_digit (digit_char d)"
  by (simp add: is_digit_def digit_char_def)

lemma digit_val_digit_char [simp]: "d < 10 \<Longrightarrow> digit_val (digit_char d) = d"
  by (simp add: digit_val_def digit_char_def)

lemma digit_char_literals [simp]:
  "digit_char 0 = CHR ''0''" "digit_char (Suc 0) = CHR ''1''" "digit_char 1 = CHR ''1''"
  "digit_char 2 = CHR ''2''" "digit_char 3 = CHR ''3''" "digit_char 4 = CHR ''4''"
  "digit_char 5 = CHR ''5''" "digit_char 6 = CHR ''6''" "digit_char 7 = CHR ''7''"
  "digit_char 8 = CHR ''8''" "digit_char 9 = CHR ''9''"
  by (simp_all only: digit_char_def, code_simp+)

lemma digits_val_append: "digits_val acc (xs @ ys) = digits_val (digits_val acc xs) ys"
  by (induction xs arbitrary: acc) auto

lemma show_nat_digits: "c \<in> set (show_nat n) \<Longrightarrow> is_digit c"
proof (induction n rule: show_nat.induct)
  case (1 n)
  then show ?case by (auto simp: show_nat.simps [of n] split: if_splits)
qed

lemma show_nat_nonempty [simp]: "show_nat n \<noteq> []"
  by (subst show_nat.simps) simp

lemma digits_val_show_nat: "digits_val 0 (show_nat n) = n"
proof (induction n rule: show_nat.induct)
  case (1 n)
  then show ?case by (auto simp: show_nat.simps [of n] digits_val_append)
qed

lemma length_show_nat: "n < 10 ^ k \<Longrightarrow> 1 \<le> k \<Longrightarrow> length (show_nat n) \<le> k"
proof (induction n arbitrary: k rule: show_nat.induct)
  case (1 n)
  show ?case
  proof (cases "n < 10")
    case True
    then show ?thesis using "1.prems" by (simp add: show_nat.simps [of n])
  next
    case False
    then obtain j where k: "k = Suc j" "1 \<le> j" using "1.prems" by (cases k; cases "k - 1") auto
    then have "n div 10 < 10 ^ j" using "1.prems"(1) by simp
    from "1.IH" [OF False this k(2)] False k show ?thesis by (simp add: show_nat.simps [of n])
  qed
qed

lemma length_show_u32: "length (show_nat (unat (w :: u32))) \<le> 10"
proof (rule length_show_nat)
  have "unat w < 2 ^ 32" using unsigned_less [of w] by simp
  then show "unat w < 10 ^ 10" by simp
qed simp

lemma length_show_i32: "length (show_int (sint (w :: i32))) \<le> 11"
proof -
  have "\<bar>sint w\<bar> \<le> 2 ^ 31" using sint_i32_bounds [of w] by linarith
  then have "nat \<bar>sint w\<bar> \<le> 2 ^ 31" by (simp add: nat_le_iff)
  then have "length (show_nat (nat \<bar>sint w\<bar>)) \<le> 10" by (intro length_show_nat) simp_all
  then show ?thesis by (auto simp: show_int_def abs_if split: if_splits)
qed

lemma is_digit_not: "is_digit c \<Longrightarrow> \<not> is_space c \<and> c \<noteq> CHR ''-'' \<and> c \<noteq> CHR ''+'' \<and> c \<noteq> NUL
    \<and> c \<noteq> SP \<and> c \<noteq> TAB \<and> c \<noteq> LF \<and> c \<noteq> CR \<and> c \<noteq> CHR ''=''"
  by (auto simp: is_digit_def is_space_def)

lemma scan_int_show_nat: "scan_int (show_nat n) = (False, n)"
proof -
  obtain c cs where s: "show_nat n = c # cs" by (cases "show_nat n") auto
  then have c: "is_digit c" using show_nat_digits [of c n] by simp
  have "takeWhile is_digit (show_nat n) = show_nat n" by (simp add: show_nat_digits)
  then have "digits_val 0 (takeWhile is_digit (show_nat n)) = n"
    by (simp add: digits_val_show_nat)
  with s is_digit_not [OF c] show ?thesis
    by (simp add: scan_int_def scan_sign_def)
qed

lemma scan_int_minus_show_nat: "scan_int (CHR ''-'' # show_nat n) = (True, n)"
proof -
  have "takeWhile is_digit (show_nat n) = show_nat n" by (simp add: show_nat_digits)
  moreover have "\<not> is_space CHR ''-''" by (simp add: is_space_def)
  ultimately show ?thesis
    by (simp add: scan_int_def scan_sign_def digits_val_show_nat)
qed

lemma strtoul_show_nat: "n < 2 ^ 64 \<Longrightarrow> strtoul (show_nat n) = n"
  by (simp add: strtoul_def scan_int_show_nat)

lemma strtol_show_int: "- (2 ^ 63) \<le> i \<Longrightarrow> i < 2 ^ 63 \<Longrightarrow> strtol (show_int i) = i"
  by (simp add: strtol_def show_int_def scan_int_show_nat scan_int_minus_show_nat)

section \<open>Strings that survive a line\<close>

text \<open>
  A string is \<^emph>\<open>clean\<close> when none of its characters ends a token, a line or a C string.
\<close>

definition clean :: "string \<Rightarrow> bool" where
  "clean s \<longleftrightarrow> (\<forall>c \<in> set s. c \<notin> {NUL, SP, TAB, LF, CR})"

lemma clean_Nil [clean_intros]: "clean []"
  by (simp add: clean_def)

lemma clean_append [simp]: "clean (s @ t) \<longleftrightarrow> clean s \<and> clean t"
  by (auto simp: clean_def)

lemma clean_Cons [simp]: "clean (c # s) \<longleftrightarrow> c \<notin> {NUL, SP, TAB, LF, CR} \<and> clean s"
  by (auto simp: clean_def)

lemma clean_take [clean_intros]: "clean s \<Longrightarrow> clean (take n s)"
  by (auto simp: clean_def dest: in_set_takeD)

lemma clean_show_nat [clean_intros, simp]: "clean (show_nat n)"
  by (auto simp: clean_def dest!: show_nat_digits is_digit_not)

lemma clean_show_int [clean_intros, simp]: "clean (show_int i)"
  by (simp add: show_int_def)

lemma clean_chars: "clean s \<Longrightarrow> c \<in> set s \<Longrightarrow> c \<noteq> LF \<and> c \<noteq> CR \<and> c \<noteq> NUL"
  by (auto simp: clean_def)

lemma clean_is_token: "clean t \<Longrightarrow> t \<noteq> [] \<Longrightarrow> is_token t"
  by (auto simp: clean_def is_token_def is_delim_def)

end
