(* ===== verification/CDouble.thy ===== *)
theory CDouble
  imports CLib Complex_Main "HOL-Library.Log_Nat"
begin

text \<open>
  IEEE 754 numbers as the sources use them: a finite value is a sign and a rational magnitude,
  and every operation computes the exact rational result and rounds it once, to nearest, ties
  to even.  \<^verbatim>\<open>double\<close> has 53 bits of precision and least exponent -1074.  The theory also holds
  the two conversions between numbers and text that the codec calls: \<^verbatim>\<open>strtod\<close> in the C locale
  (decimal and hexadecimal forms, infinity and NaN) and the \<^verbatim>\<open>%.2f\<close> conversion of \<^verbatim>\<open>snprintf\<close>.
\<close>

datatype cdouble = DFin bool rat | DInf bool | DNaN bool

section \<open>Rounding\<close>

text \<open>Round half to even, for a non-negative rational.\<close>

definition round_even :: "rat \<Rightarrow> int" where
  "round_even q =
     (let f = \<lfloor>q\<rfloor>; r = q - of_int f
      in if r < 1/2 then f else if 1/2 < r then f + 1 else if even f then f else f + 1)"

text \<open>The exponent of the leading bit of a positive rational.\<close>

definition pow2 :: "int \<Rightarrow> rat" where
  "pow2 e = (if 0 \<le> e then 2 ^ nat e else 1 / 2 ^ nat (- e))"

definition ilog2 :: "rat \<Rightarrow> int" where
  "ilog2 q =
     (case quotient_of q of (n, d) \<Rightarrow>
        let k = bitlen n - bitlen d in if pow2 k \<le> q then k else k - 1)"

text \<open>Rounding to \<open>p\<close> bits with least exponent \<open>emin\<close>.\<close>

definition fround :: "int \<Rightarrow> int \<Rightarrow> rat \<Rightarrow> rat" where
  "fround p emin q =
     (if q \<le> 0 then 0
      else let e = max emin (ilog2 q - p + 1) in of_int (round_even (q / pow2 e)) * pow2 e)"

definition dround :: "bool \<Rightarrow> rat \<Rightarrow> cdouble" where
  "dround neg q =
     (let r = fround 53 (- 1074) q in if 2 ^ 1024 \<le> r then DInf neg else DFin neg r)"

section \<open>Reading: strtod\<close>

definition is_xdigit :: "char \<Rightarrow> bool" where
  "is_xdigit c \<longleftrightarrow> is_digit c \<or> 65 \<le> (of_char c :: nat) \<and> (of_char c :: nat) \<le> 70
      \<or> 97 \<le> (of_char c :: nat) \<and> (of_char c :: nat) \<le> 102"

definition xdigit_val :: "char \<Rightarrow> nat" where
  "xdigit_val c =
     (if is_digit c then digit_val c
      else if (of_char c :: nat) \<le> 70 then of_char c - 55 else of_char c - 87)"

definition lower :: "char \<Rightarrow> char" where
  "lower c =
     (if 65 \<le> (of_char c :: nat) \<and> (of_char c :: nat) \<le> 90 then char_of ((of_char c :: nat) + 32) else c)"

fun base_val :: "nat \<Rightarrow> (char \<Rightarrow> nat) \<Rightarrow> nat \<Rightarrow> string \<Rightarrow> nat" where
  "base_val b v acc [] = acc"
| "base_val b v acc (c # cs) = base_val b v (b * acc + v c) cs"

text \<open>
  Digits with an optional radix point: the integer part, the fraction and the rest.  The
  mantissa is present when there is at least one digit.
\<close>

definition scan_mantissa :: "(char \<Rightarrow> bool) \<Rightarrow> string \<Rightarrow> string \<times> string \<times> string" where
  "scan_mantissa dig s =
     (let i = takeWhile dig s; r = dropWhile dig s
      in case r of
           c # cs \<Rightarrow> if c = CHR ''.'' then (i, takeWhile dig cs, dropWhile dig cs) else (i, [], r)
         | [] \<Rightarrow> (i, [], []))"

text \<open>An exponent part introduced by the letter \<open>l\<close>: zero when there is none.\<close>

definition scan_exponent :: "char \<Rightarrow> string \<Rightarrow> int" where
  "scan_exponent l s =
     (case s of
        [] \<Rightarrow> 0
      | c # cs \<Rightarrow>
          if lower c = l
          then (case scan_sign cs of (neg, u) \<Rightarrow>
                  let n = int (digits_val 0 (takeWhile is_digit u)) in if neg then - n else n)
          else 0)"

definition scale10 :: "rat \<Rightarrow> int \<Rightarrow> rat" where
  "scale10 q e = (if 0 \<le> e then q * 10 ^ nat e else q / 10 ^ nat (- e))"

definition strtod_dec :: "bool \<Rightarrow> string \<Rightarrow> cdouble" where
  "strtod_dec neg u =
     (case scan_mantissa is_digit u of (i, f, rest) \<Rightarrow>
        if i = [] \<and> f = [] then DFin False 0
        else dround neg (scale10 (of_nat (digits_val 0 (i @ f)) / 10 ^ length f) (scan_exponent CHR ''e'' rest)))"

definition strtod_hex :: "bool \<Rightarrow> string \<Rightarrow> cdouble" where
  "strtod_hex neg u =
     (case scan_mantissa is_xdigit u of (i, f, rest) \<Rightarrow>
        if i = [] \<and> f = [] then DFin neg 0
        else dround neg (of_nat (base_val 16 xdigit_val 0 (i @ f)) / 16 ^ length f * pow2 (scan_exponent CHR ''p'' rest)))"

definition strtod :: "string \<Rightarrow> cdouble" where
  "strtod s =
     (case scan_sign (dropWhile is_space s) of (neg, u) \<Rightarrow>
        if map lower (take 3 u) = ''inf'' then DInf neg
        else if map lower (take 3 u) = ''nan'' then DNaN neg
        else if map lower (take 2 u) = ''0x'' then strtod_hex neg (drop 2 u)
        else strtod_dec neg u)"

section \<open>Writing: the conversion with two decimals\<close>

definition fmt2_mag :: "rat \<Rightarrow> string" where
  "fmt2_mag q =
     (let n = nat (round_even (q * 100))
      in show_nat (n div 100) @ CHR ''.'' # [digit_char (n div 10 mod 10), digit_char (n mod 10)])"

definition minus_if :: "bool \<Rightarrow> string" where
  "minus_if neg = (if neg then ''-'' else '''')"

fun fmt2 :: "cdouble \<Rightarrow> string" where
  "fmt2 (DFin neg q) = minus_if neg @ fmt2_mag q"
| "fmt2 (DInf neg) = minus_if neg @ ''inf''"
| "fmt2 (DNaN neg) = minus_if neg @ ''nan''"

lemma clean_digit_char [simp]: "d < 10 \<Longrightarrow> digit_char d \<notin> {NUL, SP, TAB, LF, CR}"
  using is_digit_not [of "digit_char d"] by auto

lemma clean_fmt2 [clean_intros, simp]: "clean (fmt2 x)"
  using clean_digit_char by (cases x) (auto simp: minus_if_def fmt2_mag_def Let_def clean_def
      dest!: show_nat_digits is_digit_not)

lemma fmt2_nonempty [simp]: "fmt2 x \<noteq> []"
  by (cases x) (auto simp: fmt2_mag_def Let_def)

section \<open>Rounding is monotone and exact on representable numbers\<close>

lemma pow2_pos [simp]: "0 < pow2 e"
  by (simp add: pow2_def)

lemma pow2_neq_0 [simp]: "pow2 e \<noteq> 0"
  by (metis less_irrefl pow2_pos)

lemma pow2_add: "pow2 (a + b) = pow2 a * pow2 b"
proof -
  have "pow2 e = 2 powi e" for e
    unfolding pow2_def power_int_def inverse_eq_divide power_one_over by (rule refl)
  then show ?thesis by (simp add: power_int_add)
qed

lemma pow2_mono: "a \<le> b \<Longrightarrow> pow2 a \<le> pow2 b"
proof -
  assume "a \<le> b"
  then have "pow2 b = pow2 a * pow2 (b - a)" by (simp flip: pow2_add)
  moreover have "1 \<le> pow2 (b - a)" using \<open>a \<le> b\<close> by (simp add: pow2_def)
  ultimately show ?thesis by (metis less_imp_le mult.right_neutral mult_left_mono pow2_pos)
qed

lemma round_even_bounds: "of_int (round_even q) \<le> q + 1/2" "q - 1/2 \<le> of_int (round_even q)"
  by (auto simp: round_even_def Let_def) linarith+

lemma round_even_mono: "x \<le> y \<Longrightarrow> round_even x \<le> round_even y"
proof -
  assume xy: "x \<le> y"
  show ?thesis
  proof (cases "\<lfloor>x\<rfloor> = \<lfloor>y\<rfloor>")
    case True
    with xy show ?thesis by (auto simp: round_even_def Let_def)
  next
    case False
    with xy have "\<lfloor>x\<rfloor> + 1 \<le> \<lfloor>y\<rfloor>" by (metis floor_mono order_le_less zless_imp_add1_zle)
    moreover have "round_even x \<le> \<lfloor>x\<rfloor> + 1" "\<lfloor>y\<rfloor> \<le> round_even y"
      by (simp_all add: round_even_def Let_def)
    ultimately show ?thesis by linarith
  qed
qed

lemma round_even_of_int [simp]: "round_even (of_int i) = i"
  by (simp add: round_even_def)

lemma round_even_nonneg: "0 \<le> x \<Longrightarrow> 0 \<le> round_even x"
  using round_even_mono [of 0 x] round_even_of_int [of 0] by simp

lemma ilog2_bounds:
  assumes "0 < q"
  shows "pow2 (ilog2 q) \<le> q \<and> q < pow2 (ilog2 q + 1)"
proof -
  obtain n d where nd: "quotient_of q = (n, d)" by fastforce
  have d: "0 < d" using quotient_of_denom_pos [OF nd] .
  have q: "q = of_int n / of_int d" using quotient_of_div [OF nd] .
  have n: "0 < n" using assms q d by (simp add: zero_less_divide_iff)
  let ?k = "bitlen n - bitlen d"
  have up: "of_int x < pow2 (bitlen x)" and lo: "pow2 (bitlen x - 1) \<le> of_int x" if "0 < x" for x
  proof -
    from bitlen_bounds [OF that] have "2 ^ nat (bitlen x - 1) \<le> x" "x < 2 ^ nat (bitlen x)" by auto
    moreover have "1 \<le> bitlen x" using that bitlen_eq_zero_iff [of x] bitlen_nonneg [of x] by linarith
    ultimately show "of_int x < pow2 (bitlen x)" "pow2 (bitlen x - 1) \<le> of_int x"
      by (simp_all add: pow2_def)
  qed
  have "q * of_int d = of_int n" using d by (simp add: q)
  moreover have "of_int n < pow2 (?k + 1) * pow2 (bitlen d - 1)"
    using up [OF n] by (simp flip: pow2_add)
  moreover have "pow2 (?k - 1) * pow2 (bitlen d) \<le> of_int n"
    using lo [OF n] by (simp flip: pow2_add)
  moreover have "pow2 (?k + 1) * pow2 (bitlen d - 1) \<le> pow2 (?k + 1) * of_int d"
    using lo [OF d] by (simp add: mult_left_mono less_imp_le)
  moreover have "pow2 (?k - 1) * of_int d < pow2 (?k - 1) * pow2 (bitlen d)"
    using up [OF d] by (simp add: mult_strict_left_mono)
  ultimately have "q * of_int d < pow2 (?k + 1) * of_int d" "pow2 (?k - 1) * of_int d < q * of_int d"
    by linarith+
  then have "q < pow2 (?k + 1)" "pow2 (?k - 1) < q"
    using d by (simp_all add: mult_less_cancel_right)
  then show ?thesis by (simp add: ilog2_def nd Let_def not_le less_imp_le)
qed

lemma pow2_less_cancel: "pow2 a < pow2 b \<Longrightarrow> a < b"
  using pow2_mono [of b a] by linarith

lemma ilog2_mono: "0 < x \<Longrightarrow> x \<le> y \<Longrightarrow> ilog2 x \<le> ilog2 y"
proof -
  assume "0 < x" "x \<le> y"
  then have "pow2 (ilog2 x) < pow2 (ilog2 y + 1)"
    using ilog2_bounds [of x] ilog2_bounds [of y] by linarith
  then show ?thesis using pow2_less_cancel by fastforce
qed

lemma round_even_pow2: "0 \<le> e \<Longrightarrow> of_int (round_even (pow2 e)) = pow2 e"
proof -
  assume "0 \<le> e"
  then have "pow2 e = of_int (2 ^ nat e)" by (simp add: pow2_def)
  then show ?thesis by (simp only: round_even_of_int)
qed

lemma fround_nonneg: "0 \<le> fround p emin y"
proof (cases "y \<le> 0")
  case True
  then show ?thesis by (simp add: fround_def)
next
  case False
  then have "0 \<le> round_even (y / pow2 (max emin (ilog2 y - p + 1)))"
    by (intro round_even_nonneg divide_nonneg_nonneg) (simp_all add: less_imp_le)
  with False show ?thesis by (simp add: fround_def Let_def less_imp_le)
qed

lemma fround_mono:
  assumes p: "1 \<le> p" and xy: "x \<le> y"
  shows "fround p emin x \<le> fround p emin y"
proof (cases "0 < x")
  case False
  then show ?thesis using fround_nonneg [of p emin y] by (simp add: fround_def)
next
  case x: True
  then have y: "0 < y" using xy by linarith
  define e where "e z = max emin (ilog2 z - p + 1)" for z
  have f: "fround p emin z = of_int (round_even (z / pow2 (e z))) * pow2 (e z)" if "0 < z" for z
    using that by (simp add: fround_def e_def Let_def)
  have e12: "e x \<le> e y" using ilog2_mono [OF x xy] by (auto simp: e_def)
  show ?thesis
  proof (cases "e x = e y")
    case True
    have "round_even (x / pow2 (e y)) \<le> round_even (y / pow2 (e y))"
      using xy by (intro round_even_mono divide_right_mono) (simp_all add: less_imp_le)
    then show ?thesis by (simp add: f x y True mult_right_mono less_imp_le)
  next
    case False
    with e12 have ey: "e y = ilog2 y - p + 1" and lt: "e x < e y" by (auto simp: e_def)
    have ex: "ilog2 x + 1 \<le> e x + p" by (simp add: e_def)
    have "x < pow2 (e x + p)" using ilog2_bounds [OF x] pow2_mono [OF ex] by linarith
    then have "x / pow2 (e x) \<le> pow2 p" by (simp add: pow2_add divide_le_eq mult.commute)
    then have "of_int (round_even (x / pow2 (e x))) \<le> pow2 p"
      using round_even_mono [of "x / pow2 (e x)" "pow2 p"] round_even_pow2 [of p] p
      by (metis of_int_le_iff order_trans zero_le_one)
    then have "fround p emin x \<le> pow2 p * pow2 (e x)" by (simp add: f x mult_right_mono less_imp_le)
    also have "\<dots> = pow2 (p + e x)" by (simp add: pow2_add)
    also have "\<dots> \<le> pow2 (ilog2 y)" using lt ey by (intro pow2_mono) simp
    also have "\<dots> = pow2 (p - 1) * pow2 (e y)" by (simp add: ey flip: pow2_add)
    also have "pow2 (p - 1) \<le> of_int (round_even (y / pow2 (e y)))"
    proof -
      have "pow2 (p - 1) * pow2 (e y) \<le> y" using ilog2_bounds [OF y] by (simp add: ey flip: pow2_add)
      then have "pow2 (p - 1) \<le> y / pow2 (e y)" by (simp add: le_divide_eq)
      then show ?thesis
        using round_even_mono [of "pow2 (p - 1)"] round_even_pow2 [of "p - 1"] p
        by (metis diff_ge_0_iff_ge of_int_le_iff)
    qed
    finally show ?thesis by (simp add: f y mult_right_mono less_imp_le)
  qed
qed

section \<open>Arithmetic of doubles\<close>

text \<open>The rational value of a finite double; the operators \<^verbatim>\<open>+\<close>, \<^verbatim>\<open>-\<close> and \<^verbatim>\<open><\<close> of C on \<^verbatim>\<open>double\<close>.\<close>

definition signed_rat :: "bool \<Rightarrow> rat \<Rightarrow> rat" where
  "signed_rat neg q = (if neg then - q else q)"

fun dadd :: "cdouble \<Rightarrow> cdouble \<Rightarrow> cdouble" where
  "dadd (DFin s p) (DFin t q) =
     (let v = signed_rat s p + signed_rat t q
      in if v = 0 then DFin (s \<and> t) 0 else dround (v < 0) \<bar>v\<bar>)"
| "dadd (DNaN s) _ = DNaN s"
| "dadd _ (DNaN t) = DNaN t"
| "dadd (DInf s) (DInf t) = (if s = t then DInf s else DNaN True)"
| "dadd (DInf s) _ = DInf s"
| "dadd _ (DInf t) = DInf t"

fun dneg :: "cdouble \<Rightarrow> cdouble" where
  "dneg (DFin s q) = DFin (\<not> s) q"
| "dneg (DInf s) = DInf (\<not> s)"
| "dneg (DNaN s) = DNaN (\<not> s)"

definition dsub :: "cdouble \<Rightarrow> cdouble \<Rightarrow> cdouble" where
  "dsub x y = dadd x (dneg y)"

fun dless :: "cdouble \<Rightarrow> cdouble \<Rightarrow> bool" where
  "dless (DFin s p) (DFin t q) = (signed_rat s p < signed_rat t q)"
| "dless (DInf s) (DInf t) = (s \<and> \<not> t)"
| "dless (DInf s) (DFin t q) = s"
| "dless (DFin s p) (DInf t) = (\<not> t)"
| "dless _ _ = False"

text \<open>A decimal constant of the source: the double nearest to it.\<close>

definition dlit :: "rat \<Rightarrow> cdouble" where
  "dlit q = dround False q"

end
