(* ===== verification/Message.thy ===== *)
theory Message
  imports CDouble
begin

text \<open>
  The parsed message object of \<^verbatim>\<open>common/include/protocol/message.h\<close>: the two enumerations and
  the struct, one record field per struct field.  The \<^verbatim>\<open>has_\<close> flags are only ever written 0 or
  1 and are booleans here; the two \<^verbatim>\<open>char\<close> arrays are the C strings they hold.
\<close>

datatype msg_role = ROLE_REQ | ROLE_RESP | ROLE_EVT | ROLE_UNKNOWN

datatype msg_type =
    TYPE_PING | TYPE_REGISTER | TYPE_START | TYPE_STOP | TYPE_STATUS | TYPE_RESET | TYPE_FAULT
  | TYPE_ERROR | TYPE_TELEMETRY | TYPE_ALARM | TYPE_UNKNOWN

record message =
  m_role :: msg_role
  m_type :: msg_type
  m_dev :: u32
  m_has_dev :: bool
  m_seq :: u32
  m_has_seq :: bool
  m_ok :: i32
  m_has_ok :: bool
  m_code :: i32
  m_has_code :: bool
  m_state :: string
  m_has_state :: bool
  m_msg :: string
  m_has_msg :: bool
  m_temp :: cdouble
  m_has_temp :: bool
  m_pressure :: cdouble
  m_has_pressure :: bool
  m_flow :: cdouble
  m_has_flow :: bool

abbreviation STATE_CAP :: nat where "STATE_CAP \<equiv> 32"
abbreviation MSG_CAP :: nat where "MSG_CAP \<equiv> 128"

text \<open>The object after \<^verbatim>\<open>memset (m, 0, sizeof *m)\<close>: both enumerations start at 0.\<close>

definition message_zero :: message where
  "message_zero =
     \<lparr>m_role = ROLE_REQ, m_type = TYPE_PING,
      m_dev = 0, m_has_dev = False, m_seq = 0, m_has_seq = False,
      m_ok = 0, m_has_ok = False, m_code = 0, m_has_code = False,
      m_state = [], m_has_state = False, m_msg = [], m_has_msg = False,
      m_temp = DFin False 0, m_has_temp = False, m_pressure = DFin False 0, m_has_pressure = False,
      m_flow = DFin False 0, m_has_flow = False\<rparr>"

text \<open>
  The representation invariant of the struct: what its two arrays can hold.
\<close>

definition message_inv :: "message \<Rightarrow> bool" where
  "message_inv m \<longleftrightarrow>
     length (m_state m) < STATE_CAP \<and> NUL \<notin> set (m_state m)
   \<and> length (m_msg m) < MSG_CAP \<and> NUL \<notin> set (m_msg m)"

lemma message_inv_zero [simp]: "message_inv message_zero"
  by (simp add: message_inv_def message_zero_def)

end
