(* ===== verification/Sim_Fsm.thy ===== *)
theory Sim_Fsm
  imports Message
begin

text \<open>
  \<^verbatim>\<open>nodes/deviced/sim/src/fsm.c\<close>: the state machine of the simulated device, driven by commands and
  by a periodic tick, with the device-level facts about it.
\<close>

datatype sim_state =
    SIM_STATE_BOOTING | SIM_STATE_IDLE | SIM_STATE_READY | SIM_STATE_PROCESSING
  | SIM_STATE_DONE | SIM_STATE_FAULT | SIM_STATE_RECOVERING

datatype sim_cmd = SIM_CMD_NONE | SIM_CMD_START | SIM_CMD_STOP | SIM_CMD_RESET | SIM_CMD_FAULT

record fsm =
  f_state :: sim_state
  f_ticks :: int

definition fsm_init :: "fsm \<Rightarrow> fsm" where
  "fsm_init fsm = fsm\<lparr>f_state := SIM_STATE_BOOTING, f_ticks := 0\<rparr>"

fun fsm_handle_command :: "fsm \<Rightarrow> sim_cmd \<Rightarrow> int \<times> fsm" where
  "fsm_handle_command fsm SIM_CMD_START =
     (if f_state fsm = SIM_STATE_IDLE \<or> f_state fsm = SIM_STATE_READY
      then (0, fsm\<lparr>f_state := SIM_STATE_READY, f_ticks := 0\<rparr>) else (- 2, fsm))"
| "fsm_handle_command fsm SIM_CMD_STOP =
     (if f_state fsm = SIM_STATE_PROCESSING
      then (0, fsm\<lparr>f_state := SIM_STATE_IDLE, f_ticks := 0\<rparr>) else (- 2, fsm))"
| "fsm_handle_command fsm SIM_CMD_RESET =
     (if f_state fsm = SIM_STATE_FAULT
      then (0, fsm\<lparr>f_state := SIM_STATE_RECOVERING, f_ticks := 0\<rparr>) else (- 2, fsm))"
| "fsm_handle_command fsm SIM_CMD_FAULT = (0, fsm\<lparr>f_state := SIM_STATE_FAULT, f_ticks := 0\<rparr>)"
| "fsm_handle_command fsm SIM_CMD_NONE = (- 1, fsm)"

definition fsm_tick :: "fsm \<Rightarrow> fsm" where
  "fsm_tick fsm =
     (case f_state fsm of
        SIM_STATE_BOOTING \<Rightarrow> fsm\<lparr>f_state := SIM_STATE_IDLE\<rparr>
      | SIM_STATE_READY \<Rightarrow> fsm\<lparr>f_state := SIM_STATE_PROCESSING, f_ticks := 0\<rparr>
      | SIM_STATE_PROCESSING \<Rightarrow>
          (let fsm' = fsm\<lparr>f_ticks := f_ticks fsm + 1\<rparr>
           in if 5 \<le> f_ticks fsm' then fsm'\<lparr>f_state := SIM_STATE_DONE, f_ticks := 0\<rparr> else fsm')
      | SIM_STATE_RECOVERING \<Rightarrow> fsm\<lparr>f_state := SIM_STATE_IDLE\<rparr>
      | _ \<Rightarrow> fsm)"

fun fsm_state_to_string :: "sim_state \<Rightarrow> string" where
  "fsm_state_to_string SIM_STATE_BOOTING = ''BOOTING''"
| "fsm_state_to_string SIM_STATE_IDLE = ''IDLE''"
| "fsm_state_to_string SIM_STATE_READY = ''READY''"
| "fsm_state_to_string SIM_STATE_PROCESSING = ''PROCESSING''"
| "fsm_state_to_string SIM_STATE_FAULT = ''FAULT''"
| "fsm_state_to_string SIM_STATE_RECOVERING = ''RECOVERING''"
| "fsm_state_to_string SIM_STATE_DONE = ''DONE''"

lemma fsm_state_to_string_inj [simp]:
  "fsm_state_to_string s = fsm_state_to_string t \<longleftrightarrow> s = t"
  by (cases s; cases t) simp_all

lemma fsm_state_to_string_clean [simp]:
  "clean (fsm_state_to_string s)" "length (fsm_state_to_string s) < STATE_CAP" "fsm_state_to_string s \<noteq> []"
  by (cases s; simp add: clean_Nil)+

section \<open>Runs\<close>

text \<open>An input of the machine: a command of the main loop's message handling, or its tick.\<close>

datatype fsm_input = Cmd sim_cmd | Tick

fun fsm_step :: "fsm \<Rightarrow> fsm_input \<Rightarrow> fsm" where
  "fsm_step fsm (Cmd c) = snd (fsm_handle_command fsm c)"
| "fsm_step fsm Tick = fsm_tick fsm"

text \<open>
  The invariant of the machine: the tick counter runs from 0 to 4 while processing and is 0
  everywhere else, so the increment in \<^verbatim>\<open>fsm_tick\<close> never overflows an \<^verbatim>\<open>int\<close>.
\<close>

definition fsm_inv :: "fsm \<Rightarrow> bool" where
  "fsm_inv fsm \<longleftrightarrow> 0 \<le> f_ticks fsm \<and> f_ticks fsm < 5 \<and> (f_state fsm \<noteq> SIM_STATE_PROCESSING \<longrightarrow> f_ticks fsm = 0)"

lemma fsm_inv_init [simp]: "fsm_inv (fsm_init fsm)"
  by (simp add: fsm_inv_def fsm_init_def)

lemma fsm_inv_command: "fsm_inv fsm \<Longrightarrow> fsm_inv (snd (fsm_handle_command fsm c))"
  by (cases c) (auto simp: fsm_inv_def)

lemma fsm_inv_tick: "fsm_inv fsm \<Longrightarrow> fsm_inv (fsm_tick fsm)"
  by (cases "f_state fsm") (auto simp: fsm_inv_def fsm_tick_def Let_def)

lemma fsm_inv_step: "fsm_inv fsm \<Longrightarrow> fsm_inv (fsm_step fsm i)"
  by (cases i) (simp_all add: fsm_inv_command fsm_inv_tick)

text \<open>
  From boot on, whatever commands and ticks arrive, the processing counter stays between 0
  and 4 and is 0 outside PROCESSING.
\<close>

theorem fsm_run_inv: "fsm_inv (foldl fsm_step (fsm_init fsm) is)"
proof -
  have "fsm_inv f \<Longrightarrow> fsm_inv (foldl fsm_step f is)" for f
    by (induction "is" arbitrary: f) (simp_all add: fsm_inv_step)
  then show ?thesis by simp
qed

text \<open>The edges of the machine as a relation: what one input can do to the state.\<close>

inductive sim_edge :: "sim_state \<Rightarrow> fsm_input \<Rightarrow> sim_state \<Rightarrow> bool" where
  boot: "sim_edge SIM_STATE_BOOTING Tick SIM_STATE_IDLE"
| start: "sim_edge SIM_STATE_IDLE (Cmd SIM_CMD_START) SIM_STATE_READY"
| process: "sim_edge SIM_STATE_READY Tick SIM_STATE_PROCESSING"
| finish: "sim_edge SIM_STATE_PROCESSING Tick SIM_STATE_DONE"
| stop: "sim_edge SIM_STATE_PROCESSING (Cmd SIM_CMD_STOP) SIM_STATE_IDLE"
| fault: "sim_edge s (Cmd SIM_CMD_FAULT) SIM_STATE_FAULT"
| reset: "sim_edge SIM_STATE_FAULT (Cmd SIM_CMD_RESET) SIM_STATE_RECOVERING"
| recover: "sim_edge SIM_STATE_RECOVERING Tick SIM_STATE_IDLE"

inductive_cases sim_edge_from_done: "sim_edge SIM_STATE_DONE i s"

lemma fsm_step_edge:
  "f_state (fsm_step fsm i) = f_state fsm \<or> sim_edge (f_state fsm) i (f_state (fsm_step fsm i))"
proof (cases i)
  case (Cmd c)
  then show ?thesis by (cases c) (auto intro: sim_edge.intros)
next
  case Tick
  then show ?thesis by (cases "f_state fsm") (auto simp: fsm_tick_def Let_def intro: sim_edge.intros)
qed

text \<open>
  C22: A finished device stays finished: from DONE no sequence of ticks, START, STOP, RESET and
  unknown commands leads anywhere; only a FAULT command leaves the state.
\<close>

theorem done_is_left_only_by_fault:
  assumes "f_state fsm = SIM_STATE_DONE" and "Cmd SIM_CMD_FAULT \<notin> set is"
  shows "f_state (foldl fsm_step fsm is) = SIM_STATE_DONE"
  using assms
proof (induction "is" arbitrary: fsm)
  case Nil
  then show ?case by simp
next
  case (Cons i "is")
  have "f_state (fsm_step fsm i) = SIM_STATE_DONE"
    using fsm_step_edge [of fsm i] Cons.prems by (auto elim: sim_edge_from_done)
  then show ?case using Cons by simp
qed

theorem done_is_left_only_by_fault_witness:
  "f_state (foldl fsm_step \<lparr>f_state = SIM_STATE_DONE, f_ticks = 0\<rparr> [Tick, Cmd SIM_CMD_START, Cmd SIM_CMD_RESET])
     = SIM_STATE_DONE"
  by (rule done_is_left_only_by_fault) simp_all

text \<open>
  C21: A started device finishes: a START accepted in IDLE or READY is followed, with no further
  command, by PROCESSING after one tick and by DONE after exactly six.
\<close>

theorem started_device_finishes:
  assumes "fst (fsm_handle_command fsm SIM_CMD_START) = 0"
  defines "g \<equiv> snd (fsm_handle_command fsm SIM_CMD_START)"
  shows "f_state ((fsm_tick ^^ 1) g) = SIM_STATE_PROCESSING \<and> f_state ((fsm_tick ^^ 6) g) = SIM_STATE_DONE
     \<and> (\<forall>n \<in> {1..5}. f_state ((fsm_tick ^^ n) g) = SIM_STATE_PROCESSING)"
proof -
  have g: "g = fsm\<lparr>f_state := SIM_STATE_READY, f_ticks := 0\<rparr>"
    using assms(1) by (auto simp: g_def split: if_splits)
  have t: "fsm_tick g = g\<lparr>f_state := SIM_STATE_PROCESSING, f_ticks := 0\<rparr>" by (simp add: g fsm_tick_def)
  have s: "fsm_tick (g\<lparr>f_state := SIM_STATE_PROCESSING, f_ticks := k\<rparr>)
      = g\<lparr>f_state := SIM_STATE_PROCESSING, f_ticks := k + 1\<rparr>" if "k < 4" for k
    using that by (simp add: g fsm_tick_def)
  have d: "fsm_tick (g\<lparr>f_state := SIM_STATE_PROCESSING, f_ticks := 4\<rparr>)
      = g\<lparr>f_state := SIM_STATE_DONE, f_ticks := 0\<rparr>" by (simp add: g fsm_tick_def)
  have "{1..5::nat} = {1, 2, 3, 4, 5}" by auto
  then show ?thesis by (simp add: eval_nat_numeral t s d)
qed

theorem started_device_finishes_witness:
  "f_state ((fsm_tick ^^ 6) (snd (fsm_handle_command \<lparr>f_state = SIM_STATE_IDLE, f_ticks = 0\<rparr> SIM_CMD_START)))
     = SIM_STATE_DONE"
  using started_device_finishes [of "\<lparr>f_state = SIM_STATE_IDLE, f_ticks = 0\<rparr>"] by simp

end
