(* ===== verification/Sim_Process.thy ===== *)
theory Sim_Process
  imports Sim_Fsm
begin

text \<open>
  \<^verbatim>\<open>nodes/deviced/sim/src/process_model.c\<close>: the simulated plant.  The quantities are doubles and every
  update rounds, so the bounds below are bounds of the floating-point values.
\<close>

definition TEMP_AMBIENT :: cdouble where "TEMP_AMBIENT = dlit 25"
definition PRESSURE_AMBIENT :: cdouble where "PRESSURE_AMBIENT = dlit 1"

record process_model =
  p_temp :: cdouble
  p_pressure :: cdouble
  p_flow :: cdouble
  p_heater_on :: bool
  p_pump_on :: bool

definition process_model_init :: "process_model \<Rightarrow> process_model" where
  "process_model_init m =
     m\<lparr>p_temp := TEMP_AMBIENT, p_pressure := PRESSURE_AMBIENT, p_flow := dlit 0,
       p_heater_on := False, p_pump_on := False\<rparr>"

fun process_model_apply_state :: "process_model \<Rightarrow> sim_state \<Rightarrow> process_model" where
  "process_model_apply_state m SIM_STATE_PROCESSING = m\<lparr>p_heater_on := True, p_pump_on := True\<rparr>"
| "process_model_apply_state m SIM_STATE_IDLE = m\<lparr>p_heater_on := False, p_pump_on := False\<rparr>"
| "process_model_apply_state m SIM_STATE_READY = m\<lparr>p_heater_on := False, p_pump_on := False\<rparr>"
| "process_model_apply_state m SIM_STATE_DONE = m\<lparr>p_heater_on := False, p_pump_on := False\<rparr>"
| "process_model_apply_state m SIM_STATE_FAULT = m\<lparr>p_heater_on := False, p_pump_on := False\<rparr>"
| "process_model_apply_state m _ = m"

definition update_temp :: "process_model \<Rightarrow> process_model" where
  "update_temp m =
     (if p_heater_on m then m\<lparr>p_temp := dadd (p_temp m) (dlit (3/2))\<rparr>
      else let t = dsub (p_temp m) (dlit (1/2))
           in m\<lparr>p_temp := (if dless t TEMP_AMBIENT then TEMP_AMBIENT else t)\<rparr>)"

definition update_pressure :: "process_model \<Rightarrow> process_model" where
  "update_pressure m =
     (if p_pump_on m
      then let p = dsub (p_pressure m) (dlit (1/20))
           in m\<lparr>p_pressure := (if dless p (dlit (1/10)) then dlit (1/10) else p)\<rparr>
      else let p = dadd (p_pressure m) (dlit (1/20))
           in m\<lparr>p_pressure := (if dless PRESSURE_AMBIENT p then PRESSURE_AMBIENT else p)\<rparr>)"

definition update_flow :: "process_model \<Rightarrow> process_model" where
  "update_flow m =
     (if p_heater_on m
      then let f = dadd (p_flow m) (dlit 2)
           in m\<lparr>p_flow := (if dless (dlit 100) f then dlit 100 else f)\<rparr>
      else let f = dsub (p_flow m) (dlit 2)
           in m\<lparr>p_flow := (if dless f (dlit 0) then dlit 0 else f)\<rparr>)"

definition process_model_update :: "process_model \<Rightarrow> process_model" where
  "process_model_update m = update_flow (update_pressure (update_temp m))"

section \<open>Bounds\<close>

text \<open>The value of a finite double lies between two rationals.\<close>

definition dbetween :: "rat \<Rightarrow> cdouble \<Rightarrow> rat \<Rightarrow> bool" where
  "dbetween lo x hi \<longleftrightarrow>
     (case x of DFin s q \<Rightarrow> lo \<le> signed_rat s q \<and> signed_rat s q \<le> hi | _ \<Rightarrow> False)"

abbreviation drnd :: "rat \<Rightarrow> rat" where "drnd \<equiv> fround 53 (- 1074)"

lemma drnd_mono: "x \<le> y \<Longrightarrow> drnd x \<le> drnd y"
  by (rule fround_mono) simp_all

lemma drnd_values [simp]:
  "drnd 0 = 0" "drnd (1/2) = 1/2" "drnd 1 = 1" "drnd (3/2) = 3/2" "drnd 2 = 2" "drnd 25 = 25" "drnd 100 = 100"
  "drnd (1/20) = 3602879701896397 / 72057594037927936"
  "drnd (1/10) = 3602879701896397 / 36028797018963968"
  "drnd 18014398509481984 = 18014398509481984"
  "drnd (36028797018963971 / 2) = 18014398509481984"
  by code_simp+

lemma dlit_values [simp]:
  "dlit 0 = DFin False 0" "dlit (1/2) = DFin False (1/2)" "dlit 1 = DFin False 1"
  "dlit (3/2) = DFin False (3/2)" "dlit 2 = DFin False 2" "dlit 25 = DFin False 25" "dlit 100 = DFin False 100"
  "dlit (1/20) = DFin False (3602879701896397 / 72057594037927936)"
  "dlit (1/10) = DFin False (3602879701896397 / 36028797018963968)"
  by (simp_all add: dlit_def dround_def)

definition srnd :: "rat \<Rightarrow> rat" where
  "srnd v = (if v < 0 then - drnd (- v) else drnd v)"

lemma srnd_mono: "x \<le> y \<Longrightarrow> srnd x \<le> srnd y"
  using drnd_mono [of x y] drnd_mono [of "- y" "- x"] fround_nonneg [of 53 "- 1074" y]
    fround_nonneg [of 53 "- 1074" "- x"]
  by (auto simp: srnd_def)

text \<open>No sum of magnitude up to \<open>2 ^ 54 + 3/2\<close> overflows: it is the rounded sum of the values.\<close>

lemma dadd_value:
  assumes "\<bar>signed_rat s p + signed_rat t q\<bar> \<le> 36028797018963971 / 2"
  shows "\<exists>u r. dadd (DFin s p) (DFin t q) = DFin u r \<and> signed_rat u r = srnd (signed_rat s p + signed_rat t q)"
proof -
  let ?v = "signed_rat s p + signed_rat t q"
  have "drnd \<bar>?v\<bar> \<le> 18014398509481984" using drnd_mono [OF assms] by simp
  then have small: "\<not> 2 ^ 1024 \<le> drnd \<bar>?v\<bar>" by simp
  show ?thesis
  proof (cases "?v = 0")
    case True
    then show ?thesis by (auto simp: Let_def signed_rat_def [of _ 0] srnd_def)
  next
    case False
    then have "dadd (DFin s p) (DFin t q) = DFin (?v < 0) (drnd \<bar>?v\<bar>)"
      unfolding dadd.simps Let_def dround_def if_not_P [OF small] by (rule if_not_P)
    moreover have "signed_rat (?v < 0) (drnd \<bar>?v\<bar>) = srnd ?v"
      by (cases "?v < 0")
        (simp_all only: srnd_def signed_rat_def [of True] signed_rat_def [of False] abs_if if_True if_False)
    ultimately show ?thesis by blast
  qed
qed

lemma dadd_between:
  assumes "dbetween lo x hi" and "y = DFin t q"
    and "- 18014398509481984 \<le> lo + signed_rat t q" and "hi + signed_rat t q \<le> 36028797018963971 / 2"
  shows "dbetween (srnd (lo + signed_rat t q)) (dadd x y) (srnd (hi + signed_rat t q))"
proof -
  obtain s p where x: "x = DFin s p" and b: "lo \<le> signed_rat s p" "signed_rat s p \<le> hi"
    using assms(1) by (auto simp: dbetween_def split: cdouble.splits)
  have "\<bar>signed_rat s p + signed_rat t q\<bar> \<le> 36028797018963971 / 2"
    using b assms(3,4) by linarith
  from dadd_value [OF this] srnd_mono [of "lo + signed_rat t q" "signed_rat s p + signed_rat t q"]
    srnd_mono [of "signed_rat s p + signed_rat t q" "hi + signed_rat t q"] b
  show ?thesis by (auto simp: dbetween_def x assms(2))
qed

lemma dbetween_weaken: "dbetween lo x hi \<Longrightarrow> lo' \<le> lo \<Longrightarrow> hi \<le> hi' \<Longrightarrow> dbetween lo' x hi'"
  by (auto simp: dbetween_def split: cdouble.splits)

lemma dbetween_lit: "dbetween lo (DFin False q) hi \<longleftrightarrow> lo \<le> q \<and> q \<le> hi"
  by (simp add: dbetween_def signed_rat_def)

text \<open>The two clamps of the model.\<close>

lemma clamp_low: "dbetween lo x hi \<Longrightarrow> c \<le> hi \<Longrightarrow> dbetween c (if dless x (DFin False c) then DFin False c else x) hi"
  by (auto simp: dbetween_def signed_rat_def split: cdouble.splits)

lemma clamp_high: "dbetween lo x hi \<Longrightarrow> lo \<le> c \<Longrightarrow> dbetween lo (if dless (DFin False c) x then DFin False c else x) c"
  by (auto simp: dbetween_def signed_rat_def split: cdouble.splits)

abbreviation PRESSURE_MIN :: rat where "PRESSURE_MIN \<equiv> 3602879701896397 / 36028797018963968"

definition plant_ok :: "process_model \<Rightarrow> bool" where
  "plant_ok m \<longleftrightarrow> dbetween 25 (p_temp m) 18014398509481984
     \<and> dbetween PRESSURE_MIN (p_pressure m) 1 \<and> dbetween 0 (p_flow m) 100"

lemmas plant_defs = TEMP_AMBIENT_def PRESSURE_AMBIENT_def

lemma plant_ok_init [simp]: "plant_ok (process_model_init m)"
  by (simp add: plant_ok_def process_model_init_def plant_defs dbetween_lit)

lemma plant_ok_apply [simp]: "plant_ok (process_model_apply_state m s) = plant_ok m"
  by (cases s) (simp_all add: plant_ok_def)

lemma srnd_values [simp]: "srnd 0 = 0" "srnd 1 = 1" "srnd 25 = 25" "srnd 100 = 100"
    "srnd 18014398509481984 = 18014398509481984" "srnd (36028797018963971 / 2) = 18014398509481984"
    "srnd (- 2) = - 2"
  unfolding srnd_def by simp_all

lemma update_temp_ok: "dbetween 25 (p_temp m) 18014398509481984 \<Longrightarrow> dbetween 25 (p_temp (update_temp m)) 18014398509481984"
proof (cases "p_heater_on m")
  case True
  assume b: "dbetween 25 (p_temp m) 18014398509481984"
  from dadd_between [OF b refl, of False "3/2"] srnd_mono [of 25 "25 + 3/2"] True
  show ?thesis by (auto simp: update_temp_def signed_rat_def intro: dbetween_weaken)
next
  case False
  assume b: "dbetween 25 (p_temp m) 18014398509481984"
  from dadd_between [OF b refl, of True "1/2"] srnd_mono [of "18014398509481984 - 1/2" 18014398509481984]
  have "dbetween (srnd (25 - 1/2)) (dsub (p_temp m) (DFin False (1/2))) 18014398509481984"
    by (auto simp: dsub_def signed_rat_def intro: dbetween_weaken)
  from clamp_low [OF this, of 25] False show ?thesis
    by (simp add: update_temp_def plant_defs Let_def split: if_splits)
qed

lemma update_pressure_ok: "dbetween PRESSURE_MIN (p_pressure m) 1 \<Longrightarrow> dbetween PRESSURE_MIN (p_pressure (update_pressure m)) 1"
proof (cases "p_pump_on m")
  case True
  let ?c = "3602879701896397 / 72057594037927936"
  assume b: "dbetween PRESSURE_MIN (p_pressure m) 1"
  from dadd_between [OF b refl, of True ?c] srnd_mono [of "1 - ?c" 1]
  have "dbetween (srnd (PRESSURE_MIN - ?c)) (dsub (p_pressure m) (DFin False ?c)) 1"
    by (auto simp: dsub_def signed_rat_def intro: dbetween_weaken)
  from clamp_low [OF this, of PRESSURE_MIN] True show ?thesis
    by (simp add: update_pressure_def Let_def split: if_splits)
next
  case False
  let ?c = "3602879701896397 / 72057594037927936"
  assume b: "dbetween PRESSURE_MIN (p_pressure m) 1"
  have "srnd PRESSURE_MIN = PRESSURE_MIN" by code_simp
  with dadd_between [OF b refl, of False ?c] srnd_mono [of PRESSURE_MIN "PRESSURE_MIN + ?c"]
  have "dbetween PRESSURE_MIN (dadd (p_pressure m) (DFin False ?c)) (srnd (1 + ?c))"
    by (auto simp: signed_rat_def intro: dbetween_weaken)
  from clamp_high [OF this, of 1] False show ?thesis
    by (simp add: update_pressure_def plant_defs Let_def split: if_splits)
qed

lemma update_flow_ok: "dbetween 0 (p_flow m) 100 \<Longrightarrow> dbetween 0 (p_flow (update_flow m)) 100"
proof (cases "p_heater_on m")
  case True
  assume b: "dbetween 0 (p_flow m) 100"
  from dadd_between [OF b refl, of False 2] srnd_mono [of 0 2]
  have "dbetween 0 (dadd (p_flow m) (DFin False 2)) (srnd (100 + 2))"
    by (auto simp: signed_rat_def intro: dbetween_weaken)
  from clamp_high [OF this, of 100] True show ?thesis by (simp add: update_flow_def Let_def split: if_splits)
next
  case False
  assume b: "dbetween 0 (p_flow m) 100"
  from dadd_between [OF b refl, of True 2] srnd_mono [of "100 - 2" 100]
  have "dbetween (srnd (0 - 2)) (dsub (p_flow m) (DFin False 2)) 100"
    by (auto simp: dsub_def signed_rat_def intro: dbetween_weaken)
  from clamp_low [OF this, of 0] False show ?thesis by (simp add: update_flow_def Let_def split: if_splits)
qed

lemma update_frames [frame_simps]:
  "p_pressure (update_temp m) = p_pressure m" "p_flow (update_temp m) = p_flow m"
  "p_temp (update_pressure m) = p_temp m" "p_flow (update_pressure m) = p_flow m"
  "p_temp (update_flow m) = p_temp m" "p_pressure (update_flow m) = p_pressure m"
  by (simp_all add: update_temp_def update_pressure_def update_flow_def Let_def)

lemma plant_ok_update: "plant_ok m \<Longrightarrow> plant_ok (process_model_update m)"
  using update_temp_ok update_pressure_ok update_flow_ok
  by (simp add: plant_ok_def process_model_update_def frame_simps)

fun plant_run :: "process_model \<Rightarrow> sim_state list \<Rightarrow> process_model" where
  "plant_run m [] = m"
| "plant_run m (s # ss) = plant_run (process_model_update (process_model_apply_state m s)) ss"

text \<open>
  C26: Through any sequence of machine states the simulated quantities stay finite doubles in
  their physical range: temperature at least ambient (25), pressure between the double 0.1 and
  1, flow between 0 and 100.
\<close>

theorem plant_stays_in_range: "plant_ok (plant_run (process_model_init m) ss)"
proof -
  have "plant_ok p \<Longrightarrow> plant_ok (plant_run p ss)" for p
    by (induction ss arbitrary: p) (simp_all add: plant_ok_update)
  then show ?thesis by simp
qed

end
