(* ===== verification/Line_Codec.thy ===== *)
theory Line_Codec
  imports Message "HOL-Library.Monad_Syntax"
begin

text \<open>
  \<^verbatim>\<open>common/src/protocol/line_codec.c\<close>: the text form of a message.  \<open>line_parse\<close> is \<open>None\<close> where the C
  function returns -1 (its callers do not look at the output then); \<open>line_format\<close> is \<open>None\<close> where it
  returns -1 and otherwise the bytes written, whose number is the return value.
\<close>

section \<open>Parsing\<close>

definition msg_init :: message where
  "msg_init = message_zero\<lparr>m_role := ROLE_UNKNOWN, m_type := TYPE_UNKNOWN, m_ok := - 1\<rparr>"

definition role_from :: "string \<Rightarrow> msg_role" where
  "role_from s =
     (if s = ''REQ'' then ROLE_REQ
      else if s = ''RESP'' then ROLE_RESP
      else if s = ''EVT'' then ROLE_EVT
      else ROLE_UNKNOWN)"

definition type_from :: "string \<Rightarrow> msg_type" where
  "type_from s =
     (if s = ''PING'' then TYPE_PING
      else if s = ''REGISTER'' then TYPE_REGISTER
      else if s = ''START'' then TYPE_START
      else if s = ''STOP'' then TYPE_STOP
      else if s = ''STATUS'' then TYPE_STATUS
      else if s = ''RESET'' then TYPE_RESET
      else if s = ''FAULT'' then TYPE_FAULT
      else if s = ''TELEMETRY'' then TYPE_TELEMETRY
      else if s = ''ALARM'' then TYPE_ALARM
      else if s = ''ERROR'' then TYPE_ERROR
      else TYPE_UNKNOWN)"

fun role_to :: "msg_role \<Rightarrow> string" where
  "role_to ROLE_REQ = ''REQ''"
| "role_to ROLE_RESP = ''RESP''"
| "role_to ROLE_EVT = ''EVT''"
| "role_to ROLE_UNKNOWN = ''UNK''"

fun type_to :: "msg_type \<Rightarrow> string" where
  "type_to TYPE_PING = ''PING''"
| "type_to TYPE_REGISTER = ''REGISTER''"
| "type_to TYPE_START = ''START''"
| "type_to TYPE_STOP = ''STOP''"
| "type_to TYPE_STATUS = ''STATUS''"
| "type_to TYPE_RESET = ''RESET''"
| "type_to TYPE_FAULT = ''FAULT''"
| "type_to TYPE_TELEMETRY = ''TELEMETRY''"
| "type_to TYPE_ALARM = ''ALARM''"
| "type_to TYPE_ERROR = ''ERROR''"
| "type_to TYPE_UNKNOWN = ''UNKNOWN''"

definition rstrip_crlf :: "string \<Rightarrow> string" where
  "rstrip_crlf s = rev (dropWhile (\<lambda>c. c = LF \<or> c = CR) (rev s))"

text \<open>The body of the key loop for one token.\<close>

definition parse_kv :: "string \<Rightarrow> message \<Rightarrow> message" where
  "parse_kv tok out =
     (case split_eq tok of
        None \<Rightarrow> out
      | Some (key, val) \<Rightarrow>
          if key = ''dev'' then out\<lparr>m_dev := of_nat (strtoul val), m_has_dev := True\<rparr>
          else if key = ''seq'' then out\<lparr>m_seq := of_nat (strtoul val), m_has_seq := True\<rparr>
          else if key = ''ok'' then out\<lparr>m_ok := of_int (strtol val), m_has_ok := True\<rparr>
          else if key = ''code'' then out\<lparr>m_code := of_int (strtol val), m_has_code := True\<rparr>
          else if key = ''state'' then out\<lparr>m_state := strncpy_field STATE_CAP val, m_has_state := True\<rparr>
          else if key = ''msg'' then out\<lparr>m_msg := strncpy_field MSG_CAP val, m_has_msg := True\<rparr>
          else if key = ''temp'' then out\<lparr>m_temp := strtod val, m_has_temp := True\<rparr>
          else if key = ''pressure'' then out\<lparr>m_pressure := strtod val, m_has_pressure := True\<rparr>
          else if key = ''flow'' then out\<lparr>m_flow := strtod val, m_has_flow := True\<rparr>
          else out)"

function parse_kvs :: "string \<Rightarrow> message \<Rightarrow> message" where
  "parse_kvs save out =
     (case strtok_r save of None \<Rightarrow> out | Some (tok, save') \<Rightarrow> parse_kvs save' (parse_kv tok out))"
  by pat_completeness auto
termination
  by (relation "measure (\<lambda>(save, out). length save)") (auto dest: strtok_r_shorter)

declare parse_kvs.simps [simp del]

abbreviation PARSE_BUF :: nat where "PARSE_BUF \<equiv> 512"

definition line_parse :: "bytes \<Rightarrow> message option" where
  "line_parse line =
     (let n = strnlen line (PARSE_BUF - 1) in
      if n = 0 \<or> PARSE_BUF - 1 \<le> n then None
      else case strtok_r (rstrip_crlf (take n line)) of
             None \<Rightarrow> None
           | Some (tok_role, save) \<Rightarrow>
               (case strtok_r save of
                  None \<Rightarrow> None
                | Some (tok_type, save') \<Rightarrow>
                    if role_from tok_role = ROLE_UNKNOWN \<or> type_from tok_type = TYPE_UNKNOWN then None
                    else Some (parse_kvs save'
                           (msg_init\<lparr>m_role := role_from tok_role, m_type := type_from tok_type\<rparr>))))"

section \<open>Formatting\<close>

text \<open>
  One \<^verbatim>\<open>snprintf\<close> at offset \<open>length w\<close> of the output and the check that follows it: \<open>None\<close> when the
  text does not fit.  \<open>emit_if\<close> is the same under a \<^verbatim>\<open>has_\<close> flag.
\<close>

definition emit :: "nat \<Rightarrow> string \<Rightarrow> string \<Rightarrow> string option" where
  "emit cap w s = (if cap \<le> length w + length s then None else Some (w @ s))"

definition emit_if :: "bool \<Rightarrow> nat \<Rightarrow> string \<Rightarrow> string \<Rightarrow> string option" where
  "emit_if has cap s w = (if has then emit cap w s else Some w)"

definition line_format :: "message \<Rightarrow> nat \<Rightarrow> bytes option" where
  "line_format m cap =
     (if cap < 8 then None
      else do {
        w \<leftarrow> emit cap [] (role_to (m_role m) @ '' '' @ type_to (m_type m));
        w \<leftarrow> emit_if (m_has_dev m) cap ('' dev='' @ show_nat (unat (m_dev m))) w;
        w \<leftarrow> emit_if (m_has_seq m) cap ('' seq='' @ show_nat (unat (m_seq m))) w;
        w \<leftarrow> emit_if (m_has_ok m) cap ('' ok='' @ show_int (sint (m_ok m))) w;
        w \<leftarrow> emit_if (m_has_state m) cap ('' state='' @ m_state m) w;
        w \<leftarrow> emit_if (m_has_code m) cap ('' code='' @ show_int (sint (m_code m))) w;
        w \<leftarrow> emit_if (m_has_msg m) cap ('' msg='' @ m_msg m) w;
        w \<leftarrow> emit_if (m_has_temp m) cap ('' temp='' @ fmt2 (m_temp m)) w;
        w \<leftarrow> emit_if (m_has_pressure m) cap ('' pressure='' @ fmt2 (m_pressure m)) w;
        w \<leftarrow> emit_if (m_has_flow m) cap ('' flow='' @ fmt2 (m_flow m)) w;
        (if cap < length w + 2 then None else Some (w @ [LF]))
      })"

section \<open>The reference: a message as a list of tokens\<close>

definition kv_tokens :: "message \<Rightarrow> string list" where
  "kv_tokens m =
       (if m_has_dev m then [''dev='' @ show_nat (unat (m_dev m))] else [])
     @ (if m_has_seq m then [''seq='' @ show_nat (unat (m_seq m))] else [])
     @ (if m_has_ok m then [''ok='' @ show_int (sint (m_ok m))] else [])
     @ (if m_has_state m then [''state='' @ m_state m] else [])
     @ (if m_has_code m then [''code='' @ show_int (sint (m_code m))] else [])
     @ (if m_has_msg m then [''msg='' @ m_msg m] else [])
     @ (if m_has_temp m then [''temp='' @ fmt2 (m_temp m)] else [])
     @ (if m_has_pressure m then [''pressure='' @ fmt2 (m_pressure m)] else [])
     @ (if m_has_flow m then [''flow='' @ fmt2 (m_flow m)] else [])"

definition join :: "string list \<Rightarrow> string" where
  "join ts = concat (map (\<lambda>t. SP # t) ts)"

definition line_body :: "message \<Rightarrow> string" where
  "line_body m = role_to (m_role m) @ join (type_to (m_type m) # kv_tokens m)"

text \<open>The bytes of a message on the wire.\<close>

definition wire :: "message \<Rightarrow> bytes" where
  "wire m = line_body m @ [LF]"

lemma join_simps [simp]: "join [] = []" "join (t # ts) = SP # t @ join ts" "join (xs @ ys) = join xs @ join ys"
  by (simp_all add: join_def)

lemma if_join: "join (if b then [t] else []) = (if b then SP # t else [])"
  by simp

text \<open>
  The chain of bounded writes is one bounded write: it fails exactly when the whole line, its
  newline and the terminating NUL do not fit.
\<close>

lemma emit_bind:
  "Option.bind (emit_if b cap s w) f = (if b then if cap \<le> length w + length s then None else f (w @ s) else f w)"
  by (simp add: emit_if_def emit_def)

lemma emit_start:
  "Option.bind (emit cap [] s) f = (if cap \<le> length s then None else f s)"
  by (simp add: emit_def)

text \<open>\<open>fits\<close> is the shape of every suffix of the chain: what is written so far either overflows later or not.\<close>

definition fits :: "nat \<Rightarrow> string \<Rightarrow> bytes option" where
  "fits cap w = (if cap < length w + 2 then None else Some (w @ [LF]))"

lemma line_format_eq:
  "line_format m cap = (if cap < 8 then None else fits cap (line_body m))"
proof -
  have step: "Option.bind (emit_if b cap s w) (\<lambda>w. fits cap (w @ r)) = fits cap (w @ (if b then s else []) @ r)"
    for b s w r
    by (auto simp: emit_bind fits_def)
  have last: "Option.bind (emit_if b cap s w) (fits cap) = fits cap (w @ (if b then s else []))" for b s w
    using step [of b s w "[]"] by simp
  have start: "Option.bind (emit cap [] s) (\<lambda>w. fits cap (w @ r)) = fits cap (s @ r)" for s r
    by (auto simp: emit_start fits_def)
  show ?thesis
    unfolding line_format_def fits_def [symmetric] last step start
    unfolding line_body_def kv_tokens_def
    by (simp only: if_join join_simps append.simps append_assoc append_Nil2)
qed

lemma parse_kvs_tokens: "parse_kvs save out = fold parse_kv (tokens save) out"
proof (induction save out rule: parse_kvs.induct)
  case (1 save out)
  then show ?case
    by (subst parse_kvs.simps, subst tokens.simps) (auto split: option.splits)
qed

section \<open>Round trip\<close>

text \<open>
  What the receiver of a formatted message gets: fields without their flag fall back to the
  defaults of \<^verbatim>\<open>msg_init\<close>, the three measurements come back as the doubles nearest to their
  two-decimal text.
\<close>

definition transferred :: "message \<Rightarrow> message" where
  "transferred m = m\<lparr>
     m_dev := (if m_has_dev m then m_dev m else 0),
     m_seq := (if m_has_seq m then m_seq m else 0),
     m_ok := (if m_has_ok m then m_ok m else - 1),
     m_code := (if m_has_code m then m_code m else 0),
     m_state := (if m_has_state m then m_state m else []),
     m_msg := (if m_has_msg m then m_msg m else []),
     m_temp := (if m_has_temp m then strtod (fmt2 (m_temp m)) else DFin False 0),
     m_pressure := (if m_has_pressure m then strtod (fmt2 (m_pressure m)) else DFin False 0),
     m_flow := (if m_has_flow m then strtod (fmt2 (m_flow m)) else DFin False 0)\<rparr>"

text \<open>The messages the line format can carry: known role and type, strings without separators.\<close>

definition carriable :: "message \<Rightarrow> bool" where
  "carriable m \<longleftrightarrow> m_role m \<noteq> ROLE_UNKNOWN \<and> m_type m \<noteq> TYPE_UNKNOWN \<and> message_inv m
     \<and> (m_has_state m \<longrightarrow> clean (m_state m)) \<and> (m_has_msg m \<longrightarrow> clean (m_msg m))"

lemma role_from_to: "role_from (role_to r) = r"
  by (cases r) (simp_all add: role_from_def)

lemma type_from_to: "type_from (type_to t) = t"
  by (cases t) (simp_all add: type_from_def)

lemma clean_role_to [clean_intros, simp]: "clean (role_to r)" "role_to r \<noteq> []"
  by (cases r; simp add: clean_Nil)+

lemma clean_type_to [clean_intros, simp]: "clean (type_to t)" "type_to t \<noteq> []"
  by (cases t; simp add: clean_Nil)+

lemma strtol_show_sint: "strtol (show_int (sint (w :: i32))) = sint w"
  using sint_i32_bounds [of w] by (intro strtol_show_int) auto

lemma strtoul_show_unat: "strtoul (show_nat (unat (w :: u32))) = unat w"
  by (rule strtoul_show_nat) (rule unat_u32_less)

lemma segment_dev:
  "fold parse_kv (if b then [''dev='' @ show_nat (unat x)] else []) out
     = out\<lparr>m_dev := (if b then x else m_dev out), m_has_dev := (b \<or> m_has_dev out)\<rparr>"
  using split_eq_kv [of "''dev''" "show_nat (unat x)"] by (simp add: parse_kv_def strtoul_show_unat)

lemma segment_seq:
  "fold parse_kv (if b then [''seq='' @ show_nat (unat x)] else []) out
     = out\<lparr>m_seq := (if b then x else m_seq out), m_has_seq := (b \<or> m_has_seq out)\<rparr>"
  using split_eq_kv [of "''seq''" "show_nat (unat x)"] by (simp add: parse_kv_def strtoul_show_unat)

lemma segment_ok:
  "fold parse_kv (if b then [''ok='' @ show_int (sint x)] else []) out
     = out\<lparr>m_ok := (if b then x else m_ok out), m_has_ok := (b \<or> m_has_ok out)\<rparr>"
  using split_eq_kv [of "''ok''" "show_int (sint x)"] by (simp add: parse_kv_def strtol_show_sint)

lemma segment_code:
  "fold parse_kv (if b then [''code='' @ show_int (sint x)] else []) out
     = out\<lparr>m_code := (if b then x else m_code out), m_has_code := (b \<or> m_has_code out)\<rparr>"
  using split_eq_kv [of "''code''" "show_int (sint x)"] by (simp add: parse_kv_def strtol_show_sint)

lemma segment_state:
  "fold parse_kv (if b then [''state='' @ x] else []) out
     = out\<lparr>m_state := (if b then strncpy_field STATE_CAP x else m_state out), m_has_state := (b \<or> m_has_state out)\<rparr>"
  using split_eq_kv [of "''state''" "x"] by (simp add: parse_kv_def)

lemma segment_msg:
  "fold parse_kv (if b then [''msg='' @ x] else []) out
     = out\<lparr>m_msg := (if b then strncpy_field MSG_CAP x else m_msg out), m_has_msg := (b \<or> m_has_msg out)\<rparr>"
  using split_eq_kv [of "''msg''" "x"] by (simp add: parse_kv_def)

lemma segment_temp:
  "fold parse_kv (if b then [''temp='' @ fmt2 x] else []) out
     = out\<lparr>m_temp := (if b then strtod (fmt2 x) else m_temp out), m_has_temp := (b \<or> m_has_temp out)\<rparr>"
  using split_eq_kv [of "''temp''" "fmt2 x"] by (simp add: parse_kv_def)

lemma segment_pressure:
  "fold parse_kv (if b then [''pressure='' @ fmt2 x] else []) out
     = out\<lparr>m_pressure := (if b then strtod (fmt2 x) else m_pressure out), m_has_pressure := (b \<or> m_has_pressure out)\<rparr>"
  using split_eq_kv [of "''pressure''" "fmt2 x"] by (simp add: parse_kv_def)

lemma segment_flow:
  "fold parse_kv (if b then [''flow='' @ fmt2 x] else []) out
     = out\<lparr>m_flow := (if b then strtod (fmt2 x) else m_flow out), m_has_flow := (b \<or> m_has_flow out)\<rparr>"
  using split_eq_kv [of "''flow''" "fmt2 x"] by (simp add: parse_kv_def)

lemmas segments = segment_dev segment_seq segment_ok segment_code segment_state segment_msg
  segment_temp segment_pressure segment_flow

lemma fold_kv_tokens:
  assumes "message_inv m"
  shows "fold parse_kv (kv_tokens m) (msg_init\<lparr>m_role := m_role m, m_type := m_type m\<rparr>) = transferred m"
  using assms
  by (simp add: kv_tokens_def segments msg_init_def message_zero_def transferred_def message_inv_def
      strncpy_field_id)

lemma kv_tokens_clean:
  "carriable m \<Longrightarrow> t \<in> set (kv_tokens m) \<Longrightarrow> clean t \<and> t \<noteq> []"
  by (auto simp: kv_tokens_def carriable_def split: if_splits)

lemma join_not_CRLF:
  "\<forall>t \<in> set ts. clean t \<Longrightarrow> c \<in> set (join ts) \<Longrightarrow> c \<noteq> LF \<and> c \<noteq> CR \<and> c \<noteq> NUL"
  by (induction ts) (auto simp: clean_def)

lemma tokens_tl_join: "\<forall>t \<in> set ts. is_token t \<Longrightarrow> tokens (tl (join ts)) = ts"
  using tokens_join [of ts] by (cases ts) (simp_all add: join_def tokens_skip)

lemma strtok_r_join:
  assumes "is_token t"
  shows "strtok_r (t @ join ts) = Some (t, tl (join ts))"
  using assms by (intro strtok_r_token) (cases ts; auto)+

lemma rstrip_crlf_line:
  "(\<And>c. c \<in> set b \<Longrightarrow> c \<noteq> LF \<and> c \<noteq> CR) \<Longrightarrow> rstrip_crlf (b @ [LF]) = b"
  by (cases b rule: rev_cases) (auto simp: rstrip_crlf_def)

lemma line_body_clean:
  assumes "carriable m" and "c \<in> set (line_body m)"
  shows "c \<noteq> LF \<and> c \<noteq> CR \<and> c \<noteq> NUL"
proof -
  have "\<forall>t \<in> set (type_to (m_type m) # kv_tokens m). clean t"
    using kv_tokens_clean [OF assms(1)] by simp
  from join_not_CRLF [OF this] assms(2) clean_chars [OF clean_role_to(1) [of "m_role m"]]
  show ?thesis unfolding line_body_def set_append by blast
qed

lemma line_parse_body:
  assumes "carriable m" and "length (line_body m) + 1 < PARSE_BUF - 1"
  shows "line_parse (line_body m @ [LF]) = Some (transferred m)"
proof -
  let ?b = "line_body m" and ?l = "line_body m @ [LF]"
  have tok: "\<forall>t \<in> set (kv_tokens m). is_token t"
    using kv_tokens_clean [OF assms(1)] clean_is_token by blast
  have "NUL \<notin> set ?l" using line_body_clean [OF assms(1)] by auto
  then have n: "strnlen ?l 511 = length ?l"
    using assms(2) by (simp add: strnlen_def)
  have b: "rstrip_crlf ?l = ?b"
    using line_body_clean [OF assms(1)] by (intro rstrip_crlf_line) blast
  have t1: "strtok_r ?b = Some (role_to (m_role m), type_to (m_type m) @ join (kv_tokens m))"
    unfolding line_body_def
    using strtok_r_join [of "role_to (m_role m)" "type_to (m_type m) # kv_tokens m"] clean_is_token by simp
  have t2: "strtok_r (type_to (m_type m) @ join (kv_tokens m))
      = Some (type_to (m_type m), tl (join (kv_tokens m)))"
    by (intro strtok_r_join) (simp add: clean_is_token)
  have "parse_kvs (tl (join (kv_tokens m))) (msg_init\<lparr>m_role := m_role m, m_type := m_type m\<rparr>) = transferred m"
    using fold_kv_tokens assms(1) by (simp add: parse_kvs_tokens tokens_tl_join [OF tok] carriable_def)
  moreover have "length ?l \<noteq> 0" "\<not> PARSE_BUF - 1 \<le> length ?l" using assms(2) by simp_all
  ultimately show ?thesis
    using assms(1)
    by (simp add: line_parse_def n b t1 t2 role_from_to type_from_to carriable_def Let_def
        del: length_append take_append)
qed

text \<open>
  C5: A message that the line format can carry, formatted into a line of fewer than 511 bytes,
  is parsed back field by field: role, type, every flag, the numbers and the strings as they
  were, the measurements as the doubles nearest to their two-decimal text.
\<close>

theorem line_format_parse_roundtrip:
  assumes "carriable m" and "line_format m cap = Some l" and "length l < 511"
  shows "line_parse l = Some (transferred m)"
proof -
  have l: "l = line_body m @ [LF]"
    using assms(2) by (auto simp: line_format_eq fits_def split: if_splits)
  show ?thesis using line_parse_body [OF assms(1)] assms(3) by (simp add: l)
qed

definition sample_status :: message where
  "sample_status = message_zero\<lparr>m_role := ROLE_RESP, m_type := TYPE_STATUS, m_dev := 1, m_has_dev := True,
     m_seq := 20, m_has_seq := True, m_ok := 1, m_has_ok := True, m_state := ''IDLE'', m_has_state := True\<rparr>"

lemma line_format_sample:
  "line_format sample_status 512 = Some (''RESP STATUS dev=1 seq=20 ok=1 state=IDLE'' @ [LF])"
  by (simp add: line_format_eq fits_def line_body_def kv_tokens_def sample_status_def message_zero_def
      show_int_def show_nat.simps)

theorem line_format_parse_roundtrip_witness:
  "line_parse (''RESP STATUS dev=1 seq=20 ok=1 state=IDLE'' @ [LF]) = Some (transferred sample_status)"
proof (rule line_format_parse_roundtrip [OF _ line_format_sample])
  show "carriable sample_status"
    by (simp add: carriable_def sample_status_def message_inv_def message_zero_def clean_Nil)
  show "length (''RESP STATUS dev=1 seq=20 ok=1 state=IDLE'' @ [LF]) < 511" by simp
qed

section \<open>Bounds of the formatter\<close>

text \<open>
  \<^verbatim>\<open>line_format\<close> writes the whole line, its newline and a NUL inside \<^verbatim>\<open>cap\<close> bytes or fails, and it
  fails only when they do not fit (or \<^verbatim>\<open>cap\<close> is below 8): the nine guarded appends are one bounded
  write of the reference line.
\<close>

theorem line_format_exact:
  "line_format m cap =
     (if cap < 8 \<or> cap < length (line_body m) + 2 then None else Some (wire m))"
  by (simp add: line_format_eq fits_def wire_def)

text \<open>A message without measurements is at most 247 bytes long, newline included.\<close>

definition no_measurements :: "message \<Rightarrow> bool" where
  "no_measurements m \<longleftrightarrow> \<not> m_has_temp m \<and> \<not> m_has_pressure m \<and> \<not> m_has_flow m"

lemma length_role_to: "length (role_to r) \<le> 4"
  by (cases r) simp_all

lemma length_type_to: "length (type_to t) \<le> 9"
  by (cases t) simp_all

lemma length_if_le: "(b \<Longrightarrow> length xs \<le> n) \<Longrightarrow> length (if b then xs else []) \<le> n"
  by simp

lemma length_line_body:
  assumes "message_inv m" and "no_measurements m"
  shows "length (line_body m) \<le> 246"
proof -
  have "length (join (if m_has_dev m then [''dev='' @ show_nat (unat (m_dev m))] else [])) \<le> 15"
    "length (join (if m_has_seq m then [''seq='' @ show_nat (unat (m_seq m))] else [])) \<le> 15"
    "length (join (if m_has_ok m then [''ok='' @ show_int (sint (m_ok m))] else [])) \<le> 15"
    "length (join (if m_has_code m then [''code='' @ show_int (sint (m_code m))] else [])) \<le> 17"
    using length_show_u32 [of "m_dev m"] length_show_u32 [of "m_seq m"] length_show_i32 [of "m_ok m"]
      length_show_i32 [of "m_code m"] by auto
  moreover have "length (join (if m_has_state m then [''state='' @ m_state m] else [])) \<le> 38"
    "length (join (if m_has_msg m then [''msg='' @ m_msg m] else [])) \<le> 132"
    using assms(1) by (auto simp: message_inv_def)
  ultimately show ?thesis
    using length_role_to [of "m_role m"] length_type_to [of "m_type m"] assms(2)
    unfolding line_body_def kv_tokens_def join_simps length_append no_measurements_def
    by (simp only: if_False list.size length_append join_simps)
qed

lemma line_format_control:
  "message_inv m \<Longrightarrow> no_measurements m \<Longrightarrow> 256 \<le> cap \<Longrightarrow> line_format m cap = Some (wire m)"
  using length_line_body [of m] by (simp add: line_format_eq fits_def wire_def)

text \<open>
  Every message without measurements fits a 256-byte output buffer, the smallest one any node
  uses: requests, responses and status events are never dropped for their length.
\<close>

theorem control_messages_fit:
  assumes "message_inv m" and "no_measurements m" and "256 \<le> cap"
  shows "line_format m cap = Some (wire m)"
  using assms by (rule line_format_control)

theorem control_messages_fit_witness:
  "line_format sample_status 256 = Some (wire sample_status)"
  by (rule control_messages_fit) (simp_all add: sample_status_def message_inv_def no_measurements_def message_zero_def)

section \<open>What the parser guarantees\<close>

definition parsed_ok :: "message \<Rightarrow> bool" where
  "parsed_ok m \<longleftrightarrow> message_inv m
     \<and> (\<not> m_has_dev m \<longrightarrow> m_dev m = 0) \<and> (\<not> m_has_seq m \<longrightarrow> m_seq m = 0)
     \<and> (\<not> m_has_ok m \<longrightarrow> m_ok m = - 1) \<and> (\<not> m_has_code m \<longrightarrow> m_code m = 0)
     \<and> (\<not> m_has_state m \<longrightarrow> m_state m = []) \<and> (\<not> m_has_msg m \<longrightarrow> m_msg m = [])
     \<and> (\<not> m_has_temp m \<longrightarrow> m_temp m = DFin False 0) \<and> (\<not> m_has_pressure m \<longrightarrow> m_pressure m = DFin False 0)
     \<and> (\<not> m_has_flow m \<longrightarrow> m_flow m = DFin False 0)"

lemma parsed_ok_init: "parsed_ok (msg_init\<lparr>m_role := r, m_type := t\<rparr>)"
  by (simp add: parsed_ok_def msg_init_def message_zero_def message_inv_def)

lemma parsed_ok_updates:
  assumes "parsed_ok m"
  shows "parsed_ok (m\<lparr>m_dev := d, m_has_dev := True\<rparr>)" "parsed_ok (m\<lparr>m_seq := d, m_has_seq := True\<rparr>)"
    "parsed_ok (m\<lparr>m_ok := d, m_has_ok := True\<rparr>)" "parsed_ok (m\<lparr>m_code := d, m_has_code := True\<rparr>)"
    "parsed_ok (m\<lparr>m_temp := x, m_has_temp := True\<rparr>)" "parsed_ok (m\<lparr>m_pressure := x, m_has_pressure := True\<rparr>)"
    "parsed_ok (m\<lparr>m_flow := x, m_has_flow := True\<rparr>)"
    "parsed_ok (m\<lparr>m_state := strncpy_field STATE_CAP v, m_has_state := True\<rparr>)"
    "parsed_ok (m\<lparr>m_msg := strncpy_field MSG_CAP v, m_has_msg := True\<rparr>)"
  using assms strncpy_field_length [of STATE_CAP v] strncpy_field_length [of MSG_CAP v]
  by (simp_all add: parsed_ok_def message_inv_def strncpy_field_no_NUL)

lemma if_introP: "(c \<Longrightarrow> P a) \<Longrightarrow> (\<not> c \<Longrightarrow> P b) \<Longrightarrow> P (if c then a else b)"
  by simp

lemma parsed_ok_kv: "parsed_ok m \<Longrightarrow> parsed_ok (parse_kv tok m)"
  unfolding parse_kv_def case_prod_beta option.case_eq_if
  by (intro if_introP [where P = parsed_ok] parsed_ok_updates) assumption+

lemma parsed_ok_fold: "parsed_ok m \<Longrightarrow> parsed_ok (fold parse_kv ts m)"
  by (induction ts arbitrary: m) (simp_all add: parsed_ok_kv)

lemma parse_kv_role_type [simp]: "m_role (parse_kv tok m) = m_role m" "m_type (parse_kv tok m) = m_type m"
  by (simp_all add: parse_kv_def split: option.split)

lemma fold_kv_role_type [simp]:
  "m_role (fold parse_kv ts m) = m_role m" "m_type (fold parse_kv ts m) = m_type m"
  by (induction ts arbitrary: m) simp_all

lemma line_parse_cases:
  assumes "line_parse l = Some m"
  obtains r t ts where "m = fold parse_kv ts (msg_init\<lparr>m_role := r, m_type := t\<rparr>)"
    and "r \<noteq> ROLE_UNKNOWN" and "t \<noteq> TYPE_UNKNOWN"
  using assms that
  by (auto simp: line_parse_def Let_def parse_kvs_tokens split: if_splits option.splits)

lemma line_parse_inv:
  assumes "line_parse l = Some m"
  shows "m_role m \<noteq> ROLE_UNKNOWN \<and> m_type m \<noteq> TYPE_UNKNOWN \<and> parsed_ok m"
  using assms by (elim line_parse_cases) (simp add: parsed_ok_fold parsed_ok_init msg_init_def [symmetric])

lemma line_parse_message_inv: "line_parse l = Some m \<Longrightarrow> message_inv m"
  using line_parse_inv by (simp add: parsed_ok_def)

text \<open>
  C36: Whatever bytes arrive, a message that \<^verbatim>\<open>line_parse\<close> accepts has a known role and type, its
  two strings fit their arrays, and every field whose key was absent has its default (\<^verbatim>\<open>ok\<close> is -1,
  all others zero): no field is left over from an earlier message.
\<close>

theorem line_parse_well_formed:
  assumes "line_parse l = Some m"
  shows "m_role m \<noteq> ROLE_UNKNOWN \<and> m_type m \<noteq> TYPE_UNKNOWN \<and> parsed_ok m"
  by (rule line_parse_inv [OF assms])

section \<open>Unknown keys\<close>

definition known_keys :: "string list" where
  "known_keys = [''dev'', ''seq'', ''ok'', ''code'', ''state'', ''msg'', ''temp'', ''pressure'', ''flow'']"

definition unknown_token :: "string \<Rightarrow> bool" where
  "unknown_token t \<longleftrightarrow> (case split_eq t of None \<Rightarrow> True | Some (k, v) \<Rightarrow> k \<notin> set known_keys)"

lemma parse_kv_unknown: "unknown_token t \<Longrightarrow> parse_kv t m = m"
  by (cases "split_eq t") (simp_all only: unknown_token_def known_keys_def parse_kv_def option.case
      case_prod_beta list.set insert_iff empty_iff if_False de_Morgan_disj simp_thms)

lemma fold_kv_filter:
  "fold parse_kv (filter (\<lambda>t. \<not> unknown_token t) ts) m = fold parse_kv ts m"
  by (induction ts arbitrary: m) (simp_all add: parse_kv_unknown)

text \<open>A line given by its tokens parses to the fold of its key tokens.\<close>

lemma line_parse_tokens:
  assumes r: "clean r" "r \<noteq> []" and t: "clean t" "t \<noteq> []" and ts: "\<forall>u \<in> set ts. clean u \<and> u \<noteq> []"
    and len: "length (r @ join (t # ts)) < 510"
  shows "line_parse (r @ join (t # ts) @ [LF]) =
     (if role_from r = ROLE_UNKNOWN \<or> type_from t = TYPE_UNKNOWN then None
      else Some (fold parse_kv ts (msg_init\<lparr>m_role := role_from r, m_type := type_from t\<rparr>)))"
proof -
  let ?b = "r @ join (t # ts)"
  have chars: "c \<noteq> LF \<and> c \<noteq> CR \<and> c \<noteq> NUL" if "c \<in> set ?b" for c
  proof -
    have "\<forall>u \<in> set (t # ts). clean u" using t ts by simp
    from join_not_CRLF [OF this] clean_chars [OF r(1)] that show ?thesis
      unfolding set_append by blast
  qed
  have n: "strnlen (?b @ [LF]) 511 = length (?b @ [LF])"
  proof -
    have "NUL \<notin> set ?b" using chars by blast
    then have "NUL \<notin> set (?b @ [LF])" unfolding set_append [of ?b] by simp
    then have "cstr (?b @ [LF]) = ?b @ [LF]" by (rule cstr_id)
    moreover have "length (?b @ [LF]) < 511" using len by simp
    ultimately show ?thesis by (simp only: strnlen_def min.absorb2 less_imp_le)
  qed
  have b: "rstrip_crlf (?b @ [LF]) = ?b" using chars by (intro rstrip_crlf_line) blast
  have t1: "strtok_r ?b = Some (r, t @ join ts)"
    using strtok_r_join [of r "t # ts"] r clean_is_token by simp
  have t2: "strtok_r (t @ join ts) = Some (t, tl (join ts))"
    using strtok_r_join [of t ts] t clean_is_token by simp
  have "\<forall>u \<in> set ts. is_token u" using ts clean_is_token by blast
  then have "parse_kvs (tl (join ts)) m = fold parse_kv ts m" for m
    by (simp add: parse_kvs_tokens tokens_tl_join)
  moreover have "\<not> 511 \<le> length (?b @ [LF])" "length (?b @ [LF]) \<noteq> 0" using len by simp_all
  ultimately have "line_parse (?b @ [LF]) =
     (if role_from r = ROLE_UNKNOWN \<or> type_from t = TYPE_UNKNOWN then None
      else Some (fold parse_kv ts (msg_init\<lparr>m_role := role_from r, m_type := type_from t\<rparr>)))"
    by (simp add: line_parse_def n b t1 t2 Let_def del: length_append take_append append_assoc join_simps)
  then show ?thesis by simp
qed

text \<open>
  C37: Forward compatibility.  Tokens with an unknown key, or without an equals sign, do not change
  the meaning of a line: it parses as the line without them.
\<close>

theorem unknown_keys_ignored:
  assumes "clean r" "r \<noteq> []" "clean t" "t \<noteq> []" and "\<forall>u \<in> set ts. clean u \<and> u \<noteq> []"
    and "length (r @ join (t # ts)) < 510"
  shows "line_parse (r @ join (t # ts) @ [LF])
       = line_parse (r @ join (t # filter (\<lambda>u. \<not> unknown_token u) ts) @ [LF])"
proof -
  let ?f = "filter (\<lambda>u. \<not> unknown_token u) ts"
  have shorter: "length (join (filter P us)) \<le> length (join us)" for P us
    by (induction us) auto
  have len: "length (r @ join (t # ?f)) < 510"
    using assms(6) shorter [of "\<lambda>u. \<not> unknown_token u" ts] by simp
  show ?thesis
    using line_parse_tokens [OF assms] line_parse_tokens [OF assms(1-4) _ len] assms(5)
    by (simp add: fold_kv_filter)
qed

theorem unknown_keys_ignored_witness:
  "line_parse (''EVT'' @ join [''PING'', ''x=1'', ''junk'', ''seq=7''] @ [LF])
     = line_parse (''EVT'' @ join [''PING'', ''seq=7''] @ [LF])"
  using unknown_keys_ignored [of "''EVT''" "''PING''" "[''x=1'', ''junk'', ''seq=7'']"]
  by (simp add: unknown_token_def split_eq_def known_keys_def clean_Nil)

section \<open>Relaying\<close>

text \<open>
  A node relays a message by formatting the parsed object again.  Without measurements nothing is
  lost: the receiver's object equals the relay's.
\<close>

lemma transferred_id:
  "parsed_ok m \<Longrightarrow> \<not> m_has_temp m \<Longrightarrow> \<not> m_has_pressure m \<Longrightarrow> \<not> m_has_flow m \<Longrightarrow> transferred m = m"
  by (simp add: transferred_def parsed_ok_def)

text \<open>A message without measurements, written and read back, is itself.\<close>

lemma line_parse_wire:
  assumes "carriable m" and "parsed_ok m" and "no_measurements m"
  shows "line_parse (wire m) = Some m"
proof -
  have "length (line_body m) \<le> 246" using length_line_body assms(1,3) by (simp add: carriable_def)
  then show ?thesis
    using line_parse_body [OF assms(1)] transferred_id [OF assms(2)] assms(3)
    by (simp add: wire_def no_measurements_def)
qed

theorem line_parse_well_formed_witness:
  "parsed_ok (transferred sample_status)"
proof -
  have "carriable sample_status" "length (line_body sample_status) \<le> 246"
    using length_line_body [of sample_status]
    by (simp_all add: carriable_def sample_status_def message_inv_def message_zero_def no_measurements_def clean_Nil)
  then have "line_parse (wire sample_status) = Some (transferred sample_status)"
    using line_parse_body by (simp add: wire_def)
  from line_parse_well_formed [OF this] show ?thesis by blast
qed

end
