(* ===== verification/Session.thy ===== *)
theory Session
  imports CLib
begin

text \<open>
  \<^verbatim>\<open>common/src/protocol/session.c\<close>: the receive buffer of a connection.  \<open>session_t\<close> is the struct
  itself, the array of 4096 bytes and its fill length; the copies (\<^verbatim>\<open>memcpy\<close>, \<^verbatim>\<open>memmove\<close>) are
  list surgery on the whole array, so the bytes past the fill length are modelled too.  The
  abstraction \<open>pending\<close> forgets them, and the locale \<open>line_buffer\<close> states what a client may rely
  on: a byte queue from which newline-terminated lines come out.
\<close>

abbreviation SESSION_CAP :: nat where "SESSION_CAP \<equiv> 4096"

record session_t =
  s_buf :: bytes
  s_len :: nat

definition session_init :: "session_t \<Rightarrow> session_t" where
  "session_init s = s\<lparr>s_len := 0\<rparr>"

text \<open>
  \<open>session_feed s data\<close> appends the bytes the caller read; \<open>None\<close> is the return value -1.
  (The callers pass the \<^verbatim>\<open>n\<close> bytes they have just read, so \<^verbatim>\<open>data\<close> is never null.)
\<close>

definition session_feed :: "session_t \<Rightarrow> bytes \<Rightarrow> session_t option" where
  "session_feed s data =
     (let n = length data in
      if n = 0 then Some s
      else if SESSION_CAP < s_len s + n then None
      else Some (s\<lparr>s_buf := take (s_len s) (s_buf s) @ data @ drop (s_len s + n) (s_buf s),
                   s_len := s_len s + n\<rparr>))"

text \<open>
  \<open>session_pop_line s cap\<close>: \<open>PopLine\<close> is the return value 1 with the line stored in \<^verbatim>\<open>out\<close> (which
  has room for \<open>cap\<close> bytes), \<open>PopNone\<close> is 0 and \<open>PopErr\<close> is -1.  The loop looks for the first
  newline among the first \<^verbatim>\<open>len\<close> bytes.
\<close>

datatype 's pop_result = PopErr | PopNone | PopLine bytes 's

function find_newline :: "session_t \<Rightarrow> nat \<Rightarrow> nat option" where
  "find_newline s i =
     (if i < s_len s then (if s_buf s ! i = LF then Some i else find_newline s (Suc i)) else None)"
  by pat_completeness auto
termination
  by (relation "measure (\<lambda>(s, i). s_len s - i)") auto

declare find_newline.simps [simp del]

definition session_pop_line :: "session_t \<Rightarrow> nat \<Rightarrow> session_t pop_result" where
  "session_pop_line s cap =
     (if cap < 2 then PopErr
      else case find_newline s 0 of
             None \<Rightarrow> PopNone
           | Some i \<Rightarrow>
               let line_len = i + 1 in
               if cap \<le> line_len then PopErr
               else PopLine (take line_len (s_buf s))
                      (s\<lparr>s_buf := take (s_len s - line_len) (drop line_len (s_buf s))
                                  @ drop (s_len s - line_len) (s_buf s),
                         s_len := s_len s - line_len\<rparr>))"

section \<open>The buffer as a byte queue\<close>

definition session_inv :: "session_t \<Rightarrow> bool" where
  "session_inv s \<longleftrightarrow> length (s_buf s) = SESSION_CAP \<and> s_len s \<le> SESSION_CAP"

definition pending :: "session_t \<Rightarrow> bytes" where
  "pending s = take (s_len s) (s_buf s)"

text \<open>A zeroed struct (every creator of a connection clears it before \<^verbatim>\<open>session_init\<close>).\<close>

definition session_zero :: session_t where
  "session_zero = \<lparr>s_buf = replicate SESSION_CAP NUL, s_len = 0\<rparr>"

lemma session_inv_zero [simp]: "session_inv session_zero"
  by (simp add: session_inv_def session_zero_def)

lemma pending_zero [simp]: "pending session_zero = []"
  by (simp add: pending_def session_zero_def)

lemma session_init_zero [simp]: "session_init session_zero = session_zero"
  by (simp add: session_init_def session_zero_def)

lemma length_pending: "session_inv s \<Longrightarrow> length (pending s) = s_len s"
  by (simp add: session_inv_def pending_def)

lemma session_feed_Some:
  assumes "session_inv s" and "session_feed s data = Some s'"
  shows "session_inv s'" and "pending s' = pending s @ data"
  using assms
  by (auto simp: session_feed_def session_inv_def pending_def Let_def split: if_splits)

lemma session_feed_ok_iff:
  "session_inv s \<Longrightarrow> session_feed s data \<noteq> None \<longleftrightarrow> length (pending s) + length data \<le> SESSION_CAP"
  by (auto simp: session_feed_def length_pending Let_def) (simp add: session_inv_def)

text \<open>The search loop finds the first newline of the pending bytes.\<close>

lemma find_newline_Some:
  "find_newline s i = Some j \<Longrightarrow> i \<le> j \<and> j < s_len s \<and> s_buf s ! j = LF \<and> (\<forall>k. i \<le> k \<and> k < j \<longrightarrow> s_buf s ! k \<noteq> LF)"
proof (induction s i rule: find_newline.induct)
  case (1 s i)
  show ?case
  proof (cases "i < s_len s \<and> s_buf s ! i \<noteq> LF")
    case True
    with 1 have "Suc i \<le> j \<and> j < s_len s \<and> s_buf s ! j = LF
        \<and> (\<forall>k. Suc i \<le> k \<and> k < j \<longrightarrow> s_buf s ! k \<noteq> LF)"
      by (simp add: find_newline.simps [of s i])
    with True show ?thesis by (metis Suc_leI le_eq_less_or_eq Suc_leD)
  next
    case False
    with "1.prems" show ?thesis by (auto simp: find_newline.simps [of s i] split: if_splits)
  qed
qed

lemma find_newline_None:
  "find_newline s i = None \<Longrightarrow> i \<le> k \<Longrightarrow> k < s_len s \<Longrightarrow> s_buf s ! k \<noteq> LF"
proof (induction s i rule: find_newline.induct)
  case (1 s i)
  then show ?case
    by (cases "k = i") (auto simp: find_newline.simps [of s i] split: if_splits)
qed

text \<open>What \<^verbatim>\<open>session_pop_line\<close> does to the queue, branch by branch.\<close>

lemma session_pop_line_PopLine:
  assumes inv: "session_inv s" and pop: "session_pop_line s cap = PopLine out s'"
  shows "session_inv s'" and "\<exists>l. out = l @ [LF] \<and> LF \<notin> set l \<and> pending s = l @ LF # pending s'"
    and "length out < cap"
proof -
  from pop obtain j where j: "find_newline s 0 = Some j" and out: "out = take (Suc j) (s_buf s)"
    and cap: "Suc j < cap"
    and s': "s' = s\<lparr>s_buf := take (s_len s - Suc j) (drop (Suc j) (s_buf s))
                                  @ drop (s_len s - Suc j) (s_buf s), s_len := s_len s - Suc j\<rparr>"
    by (auto simp: session_pop_line_def Let_def not_le split: if_splits option.splits)
  from find_newline_Some [OF j] have jl: "j < s_len s" and nl: "s_buf s ! j = LF"
    and before: "\<And>k. k < j \<Longrightarrow> s_buf s ! k \<noteq> LF" by auto
  have len: "length (s_buf s) = SESSION_CAP" "s_len s \<le> SESSION_CAP"
    using inv by (auto simp: session_inv_def)
  let ?l = "take j (s_buf s)"
  have "out = ?l @ [LF]" using out nl jl len by (simp add: take_Suc_conv_app_nth)
  moreover have "LF \<notin> set ?l" using before jl len by (auto simp: in_set_conv_nth)
  moreover have "pending s = ?l @ LF # pending s'"
  proof -
    have "pending s' = take (s_len s - Suc j) (drop (Suc j) (s_buf s))"
      using jl len by (simp add: pending_def s')
    moreover have "pending s = take (Suc j) (s_buf s) @ take (s_len s - Suc j) (drop (Suc j) (s_buf s))"
      using jl by (simp add: pending_def flip: take_add)
    ultimately show ?thesis using nl jl len by (simp add: take_Suc_conv_app_nth)
  qed
  ultimately show "\<exists>l. out = l @ [LF] \<and> LF \<notin> set l \<and> pending s = l @ LF # pending s'" by blast
  show "session_inv s'" using len jl by (simp add: session_inv_def s')
  show "length out < cap" using cap out by simp
qed

lemma session_pop_line_PopNone:
  assumes "session_inv s"
  shows "session_pop_line s cap = PopNone \<longleftrightarrow> 2 \<le> cap \<and> LF \<notin> set (pending s)"
proof -
  have "find_newline s 0 = None \<longleftrightarrow> LF \<notin> set (pending s)"
  proof
    assume "find_newline s 0 = None"
    then show "LF \<notin> set (pending s)"
      using find_newline_None [of s 0] assms
      by (auto simp: pending_def in_set_conv_nth session_inv_def)
  next
    assume "LF \<notin> set (pending s)"
    then show "find_newline s 0 = None"
      using find_newline_Some [of s 0] assms
      by (cases "find_newline s 0")
        (auto simp: pending_def in_set_conv_nth session_inv_def)
  qed
  then show ?thesis
    by (auto simp: session_pop_line_def Let_def split: option.splits)
qed

lemma session_pop_line_PopErr:
  assumes inv: "session_inv s"
  shows "session_pop_line s cap = PopErr \<longleftrightarrow>
    cap < 2 \<or> (\<exists>l r. pending s = l @ LF # r \<and> LF \<notin> set l \<and> cap \<le> length l + 1)"
proof (cases "find_newline s 0")
  case None
  then have "LF \<notin> set (pending s)"
    using find_newline_None [of s 0] inv by (auto simp: pending_def in_set_conv_nth session_inv_def)
  with None show ?thesis by (auto simp: session_pop_line_def)
next
  case (Some j)
  from find_newline_Some [OF Some] have jl: "j < s_len s" and nl: "s_buf s ! j = LF"
    and before: "\<And>k. k < j \<Longrightarrow> s_buf s ! k \<noteq> LF" by auto
  have len: "length (s_buf s) = SESSION_CAP" "s_len s \<le> SESSION_CAP"
    using inv by (auto simp: session_inv_def)
  have split: "pending s = take j (s_buf s) @ LF # drop (Suc j) (pending s)"
    using jl nl len id_take_nth_drop [of j "pending s"] by (simp add: pending_def)
  have nin: "LF \<notin> set (take j (s_buf s))" using before jl len by (auto simp: in_set_conv_nth)
  have lenj: "length (take j (s_buf s)) = j" using jl len by simp
  have "l = take j (s_buf s)" if "pending s = l @ LF # r" "LF \<notin> set l" for l r
    using that split nin first_split_unique [of l LF r "take j (s_buf s)"] by metis
  then have "(\<exists>l r. pending s = l @ LF # r \<and> LF \<notin> set l \<and> cap \<le> length l + 1) \<longleftrightarrow> cap \<le> j + 1"
    using split nin lenj by metis
  with Some show ?thesis by (auto simp: session_pop_line_def Let_def)
qed

text \<open>A pop shortens the queue, so the loops that drain it end.\<close>

lemma session_pop_line_shorter: "session_pop_line s cap = PopLine out s' \<Longrightarrow> s_len s' < s_len s"
  by (auto simp: session_pop_line_def Let_def split: if_splits option.splits dest!: find_newline_Some)

section \<open>Draining and feeding\<close>

text \<open>
  The loop every node runs after a read, \<^verbatim>\<open>while (session_pop_line (\<dots>) == 1)\<close>, seen from the
  buffer only: the lines it yields and the buffer it leaves.  \<open>session_run\<close> feeds a list of
  chunks, draining after each, and is \<open>None\<close> when a feed overflows (the connection is closed).
\<close>

function session_drain :: "session_t \<Rightarrow> nat \<Rightarrow> bytes list \<times> session_t" where
  "session_drain s cap =
     (case session_pop_line s cap of
        PopLine out s1 \<Rightarrow> (case session_drain s1 cap of (ls, s2) \<Rightarrow> (out # ls, s2))
      | _ \<Rightarrow> ([], s))"
  by pat_completeness auto
termination
  by (relation "measure (\<lambda>(s, cap). s_len s)") (auto dest: session_pop_line_shorter)

declare session_drain.simps [simp del]

fun session_run :: "session_t \<Rightarrow> nat \<Rightarrow> bytes list \<Rightarrow> (bytes list \<times> session_t) option" where
  "session_run s cap [] = Some ([], s)"
| "session_run s cap (c # cs) =
     (case session_feed s c of
        None \<Rightarrow> None
      | Some s1 \<Rightarrow>
          (case session_drain s1 cap of (ls, s2) \<Rightarrow>
             map_option (\<lambda>(ls', s3). (ls @ ls', s3)) (session_run s2 cap cs)))"

text \<open>The reference: the complete lines of a byte stream and its unfinished last line.\<close>

fun split_lines :: "bytes \<Rightarrow> bytes list \<times> bytes" where
  "split_lines [] = ([], [])"
| "split_lines (c # cs) =
     (case split_lines cs of (ls, r) \<Rightarrow>
        if c = LF then ([LF] # ls, r)
        else case ls of [] \<Rightarrow> ([], c # r) | l # ls' \<Rightarrow> ((c # l) # ls', r))"

lemma split_lines_no_LF: "LF \<notin> set s \<Longrightarrow> split_lines s = ([], s)"
  by (induction s) auto

lemma split_lines_line:
  "LF \<notin> set l \<Longrightarrow> split_lines (l @ LF # r) = ((l @ [LF]) # fst (split_lines r), snd (split_lines r))"
  by (induction l) (auto split: prod.splits)

lemma split_lines_concat: "concat (fst (split_lines s)) @ snd (split_lines s) = s"
  by (induction s) (auto split: prod.splits list.splits)

lemma split_lines_rest: "LF \<notin> set (snd (split_lines s))"
  by (induction s) (auto split: prod.splits list.splits)

lemma split_lines_mem: "l \<in> set (fst (split_lines s)) \<Longrightarrow> \<exists>k. l = k @ [LF] \<and> LF \<notin> set k"
proof (induction s arbitrary: l)
  case Nil
  then show ?case by simp
next
  case (Cons c cs)
  obtain ls r where lr: "split_lines cs = (ls, r)" by fastforce
  have IH: "\<And>l. l \<in> set ls \<Longrightarrow> \<exists>k. l = k @ [LF] \<and> LF \<notin> set k" using Cons.IH lr by simp
  show ?case
  proof (cases "c = LF")
    case True
    with Cons.prems lr IH show ?thesis by (auto intro: exI [of _ "[]"])
  next
    case False
    show ?thesis
    proof (cases ls)
      case Nil
      with False Cons.prems lr show ?thesis by simp
    next
      case (Cons l1 ls1)
      from IH [of l1] Cons obtain k where k: "l1 = k @ [LF]" "LF \<notin> set k" by auto
      have "l = c # l1 \<or> l \<in> set ls" using Cons.prems False lr Cons by auto
      then show ?thesis using IH k False by (auto intro: exI [of _ "c # k"])
    qed
  qed
qed

text \<open>Splitting a stream in two pieces: the unfinished line of the first is carried over.\<close>

lemma split_lines_append:
  "split_lines (xs @ ys) =
     (fst (split_lines xs) @ fst (split_lines (snd (split_lines xs) @ ys)),
      snd (split_lines (snd (split_lines xs) @ ys)))"
proof (induction "length xs" arbitrary: xs rule: less_induct)
  case less
  show ?case
  proof (cases "LF \<in> set xs")
    case False
    then show ?thesis by (simp add: split_lines_no_LF)
  next
    case True
    then obtain l r where xs: "xs = l @ LF # r" and l: "LF \<notin> set l"
      by (meson split_list_first)
    have "length r < length xs" by (simp add: xs)
    from less [OF this] show ?thesis
      by (simp add: xs split_lines_line [OF l])
  qed
qed

section \<open>What a client may rely on\<close>

text \<open>
  The interface of a line buffer: a queue of bytes \<open>pend\<close> of bounded size \<open>size\<close>; \<open>feed\<close>
  appends or refuses, \<open>pop\<close> takes the first line off when it is shorter than \<open>limit\<close>.
\<close>

locale line_buffer =
  fixes feed :: "'s \<Rightarrow> bytes \<Rightarrow> 's option"
    and pop :: "'s \<Rightarrow> 's pop_result"
    and drain :: "'s \<Rightarrow> bytes list \<times> 's"
    and inv :: "'s \<Rightarrow> bool"
    and pend :: "'s \<Rightarrow> bytes"
    and size limit :: nat
  assumes feed_ok: "inv s \<Longrightarrow> feed s d \<noteq> None \<longleftrightarrow> length (pend s) + length d \<le> size"
    and feed_pend: "inv s \<Longrightarrow> feed s d = Some s' \<Longrightarrow> inv s' \<and> pend s' = pend s @ d"
    and pop_none: "inv s \<Longrightarrow> LF \<notin> set (pend s) \<Longrightarrow> pop s = PopNone"
    and pop_line: "inv s \<Longrightarrow> pend s = l @ LF # r \<Longrightarrow> LF \<notin> set l \<Longrightarrow> length l + 1 < limit
          \<Longrightarrow> \<exists>s'. pop s = PopLine (l @ [LF]) s' \<and> inv s' \<and> pend s' = r"
    and pop_long: "inv s \<Longrightarrow> pend s = l @ LF # r \<Longrightarrow> LF \<notin> set l \<Longrightarrow> limit \<le> length l + 1
          \<Longrightarrow> pop s = PopErr"
    and drain_line: "pop s = PopLine l s' \<Longrightarrow> drain s = (l # fst (drain s'), snd (drain s'))"
    and drain_stop: "pop s = PopNone \<or> pop s = PopErr \<Longrightarrow> drain s = ([], s)"
begin

text \<open>Draining yields exactly the complete lines, when all of them are short enough.\<close>

lemma drain_lines:
  "inv s \<Longrightarrow> \<forall>l \<in> set (fst (split_lines (pend s))). length l < limit \<Longrightarrow>
     fst (drain s) = fst (split_lines (pend s)) \<and> inv (snd (drain s))
     \<and> pend (snd (drain s)) = snd (split_lines (pend s))"
proof (induction "length (pend s)" arbitrary: s rule: less_induct)
  case less
  show ?case
  proof (cases "LF \<in> set (pend s)")
    case False
    then show ?thesis
      using pop_none [OF less.prems(1)] drain_stop [of s] less.prems(1)
      by (simp add: split_lines_no_LF)
  next
    case True
    then obtain l r where ps: "pend s = l @ LF # r" and l: "LF \<notin> set l"
      by (meson split_list_first)
    note sl = split_lines_line [OF l, of r]
    have short: "length l + 1 < limit" using less.prems(2) by (simp add: ps sl)
    from pop_line [OF less.prems(1) ps l short]
    obtain s' where p: "pop s = PopLine (l @ [LF]) s'" and s': "inv s'" "pend s' = r" by blast
    have "length (pend s') < length (pend s)" using s' ps by simp
    from less.hyps [OF this s'(1)] less.prems(2) s'(2)
    have "fst (drain s') = fst (split_lines r) \<and> inv (snd (drain s'))
        \<and> pend (snd (drain s')) = snd (split_lines r)"
      by (simp add: ps sl)
    then show ?thesis using drain_line [OF p] by (simp add: ps sl)
  qed
qed

text \<open>A line that does not fit its destination blocks the buffer for good.\<close>

lemma long_line_stays:
  assumes "inv s" and "pend s = l @ LF # r" and "LF \<notin> set l" and "limit \<le> length l + 1"
    and "feed s d = Some s'"
  shows "pop s' = PopErr \<and> fst (drain s') = []"
proof -
  from feed_pend [OF assms(1,5)] assms(2) have i: "inv s'" and p: "pend s' = l @ LF # (r @ d)"
    by simp_all
  from pop_long [OF i p assms(3,4)] show ?thesis using drain_stop by simp
qed

end

lemma session_drain_line:
  "session_pop_line s cap = PopLine l s' \<Longrightarrow>
     session_drain s cap = (l # fst (session_drain s' cap), snd (session_drain s' cap))"
  by (subst session_drain.simps) (simp split: prod.splits)

lemma session_drain_stop:
  "session_pop_line s cap = PopNone \<or> session_pop_line s cap = PopErr \<Longrightarrow> session_drain s cap = ([], s)"
  by (subst session_drain.simps) auto

lemma session_pop_line_short:
  assumes inv: "session_inv s" and p: "pending s = l @ LF # r" and l: "LF \<notin> set l"
    and short: "length l + 1 < cap"
  shows "\<exists>s'. session_pop_line s cap = PopLine (l @ [LF]) s' \<and> session_inv s' \<and> pending s' = r"
proof -
  have "l' = l" if "pending s = l' @ LF # r'" "LF \<notin> set l'" for l' r'
    using that p l first_split_unique by metis
  with short have "session_pop_line s cap \<noteq> PopErr"
    unfolding session_pop_line_PopErr [OF inv] by fastforce
  moreover have "session_pop_line s cap \<noteq> PopNone"
    unfolding session_pop_line_PopNone [OF inv] using p by simp
  ultimately obtain out s' where pop: "session_pop_line s cap = PopLine out s'"
    by (cases "session_pop_line s cap") auto
  from session_pop_line_PopLine [OF inv pop] obtain l' where
    "out = l' @ [LF]" "LF \<notin> set l'" "pending s = l' @ LF # pending s'" "session_inv s'" by blast
  with first_split_unique [of l' LF "pending s'" l r] p l pop show ?thesis by auto
qed

text \<open>The session of \<^verbatim>\<open>session.c\<close> is a line buffer, for every size of the caller's line array.\<close>

lemma line_buffer_session:
  assumes cap_ge2: "2 \<le> cap"
  shows "line_buffer session_feed (\<lambda>s. session_pop_line s cap) (\<lambda>s. session_drain s cap)
    session_inv pending SESSION_CAP cap"
proof unfold_locales
  fix s d s' l r
  show "session_inv s \<Longrightarrow> (session_feed s d \<noteq> None) = (length (pending s) + length d \<le> SESSION_CAP)"
    by (rule session_feed_ok_iff)
  show "session_inv s \<Longrightarrow> session_feed s d = Some s' \<Longrightarrow> session_inv s' \<and> pending s' = pending s @ d"
    using session_feed_Some by blast
  show "session_inv s \<Longrightarrow> LF \<notin> set (pending s) \<Longrightarrow> session_pop_line s cap = PopNone"
    using session_pop_line_PopNone cap_ge2 by blast
  show "session_inv s \<Longrightarrow> pending s = l @ LF # r \<Longrightarrow> LF \<notin> set l \<Longrightarrow> length l + 1 < cap \<Longrightarrow>
     \<exists>s'. session_pop_line s cap = PopLine (l @ [LF]) s' \<and> session_inv s' \<and> pending s' = r"
    by (rule session_pop_line_short)
  show "session_inv s \<Longrightarrow> pending s = l @ LF # r \<Longrightarrow> LF \<notin> set l \<Longrightarrow> cap \<le> length l + 1 \<Longrightarrow>
     session_pop_line s cap = PopErr"
    using session_pop_line_PopErr by blast
qed (rule session_drain_line session_drain_stop, assumption)+

text \<open>The two sizes the nodes use: 512 bytes in \<^verbatim>\<open>equipmentd\<close>, 1024 in the others.\<close>

interpretation cap512: line_buffer session_feed "\<lambda>s. session_pop_line s 512"
    "\<lambda>s. session_drain s 512" session_inv pending SESSION_CAP 512
  by (rule line_buffer_session) simp

interpretation cap1024: line_buffer session_feed "\<lambda>s. session_pop_line s 1024"
    "\<lambda>s. session_drain s 1024" session_inv pending SESSION_CAP 1024
  by (rule line_buffer_session) simp

section \<open>Framing does not depend on the chunks\<close>

lemma unfinished_short:
  assumes "\<forall>l \<in> set (fst (split_lines (r @ ys))). length l < cap"
    and "length (snd (split_lines (r @ ys))) < cap" and "LF \<notin> set r"
  shows "length r < cap"
proof (cases "LF \<in> set ys")
  case False
  with assms show ?thesis by (simp add: split_lines_no_LF)
next
  case True
  then obtain l q where ys: "ys = l @ LF # q" and l: "LF \<notin> set l" by (meson split_list_first)
  have "split_lines ((r @ l) @ LF # q) = (((r @ l) @ [LF]) # fst (split_lines q), snd (split_lines q))"
    by (rule split_lines_line) (use assms(3) l in simp)
  with assms(1) show ?thesis by (simp add: ys)
qed

lemma session_run_lines:
  assumes cap: "2 \<le> cap" "cap \<le> 1024"
  shows "session_inv s \<Longrightarrow> LF \<notin> set (pending s) \<Longrightarrow> \<forall>c \<in> set cs. length c \<le> 1024 \<Longrightarrow>
     \<forall>l \<in> set (fst (split_lines (pending s @ concat cs))). length l < cap \<Longrightarrow>
     length (snd (split_lines (pending s @ concat cs))) < cap \<Longrightarrow>
     \<exists>s'. session_run s cap cs = Some (fst (split_lines (pending s @ concat cs)), s')
        \<and> session_inv s' \<and> pending s' = snd (split_lines (pending s @ concat cs))"
proof (induction cs arbitrary: s)
  case Nil
  then show ?case by (simp add: split_lines_no_LF)
next
  case (Cons c cs)
  let ?u = "pending s @ c" and ?rest = "snd (split_lines (pending s @ c))"
  note app = split_lines_append [of ?u "concat cs"]
  have "length (pending s) < cap"
    using unfinished_short [OF Cons.prems(4,5,2)] .
  then have "session_feed s c \<noteq> None"
    using session_feed_ok_iff [OF Cons.prems(1)] Cons.prems(3) cap by fastforce
  then obtain s1 where feed: "session_feed s c = Some s1" by auto
  note s1 = session_feed_Some [OF Cons.prems(1) feed]
  have short: "\<forall>l \<in> set (fst (split_lines (pending s1))). length l < cap"
    using Cons.prems(4) app by (auto simp: s1(2))
  from line_buffer.drain_lines [OF line_buffer_session [OF cap(1)] s1(1) short]
  obtain s2 where d: "session_drain s1 cap = (fst (split_lines ?u), s2)"
    and s2: "session_inv s2" "pending s2 = ?rest"
    by (metis prod.collapse s1(2))
  have "\<exists>s'. session_run s2 cap cs = Some (fst (split_lines (pending s2 @ concat cs)), s')
        \<and> session_inv s' \<and> pending s' = snd (split_lines (pending s2 @ concat cs))"
    using Cons.prems(3-5) app s2(2) split_lines_rest [of ?u]
    by (intro Cons.IH s2(1)) (auto simp: s2(2))
  then show ?case using app by (auto simp: feed d s2(2))
qed

text \<open>
  C6: However the bytes of a connection are cut into reads of at most 1024 bytes, a node whose
  line array holds \<open>cap\<close> bytes gets exactly the newline-terminated lines of the byte stream, in
  order, and keeps the unfinished rest, as long as no line (the unfinished one included) is too
  long for that array; in particular the 4096-byte buffer never overflows.
\<close>

theorem framing_chunk_independent:
  assumes "2 \<le> cap" and "cap \<le> 1024" and "\<forall>c \<in> set cs. length c \<le> 1024"
    and "\<forall>l \<in> set (fst (split_lines (concat cs))). length l < cap"
    and "length (snd (split_lines (concat cs))) < cap"
  shows "\<exists>s'. session_run session_zero cap cs = Some (fst (split_lines (concat cs)), s')
     \<and> pending s' = snd (split_lines (concat cs))"
  using session_run_lines [OF assms(1,2), of session_zero cs] assms(3-5) by auto

theorem framing_chunk_independent_witness:
  "\<exists>s'. session_run session_zero 512 [''RE'', ''Q'' @ [LF, CHR ''x''], ''y''] = Some ([''REQ'' @ [LF]], s')
     \<and> pending s' = ''xy''"
  using framing_chunk_independent [of 512 "[''RE'', ''Q'' @ [LF, CHR ''x''], ''y'']"] by simp

text \<open>
  C35: A line that does not fit the caller's array is never removed: from then on the loop yields
  no line at all, whatever else arrives, until a feed overflows the 4096 bytes.
\<close>

theorem long_line_wedges_session:
  assumes "2 \<le> cap" and "session_inv s" and "pending s = l @ LF # r" and "LF \<notin> set l"
    and "cap \<le> length l + 1"
  shows "(\<forall>cs. session_run s cap cs = None \<or> (\<exists>s'. session_run s cap cs = Some ([], s')))
     \<and> session_run s cap [replicate SESSION_CAP (CHR ''x'')] = None"
proof
  have "session_run s cap cs = None \<or> (\<exists>s'. session_run s cap cs = Some ([], s'))" for cs
    using assms(2,3)
  proof (induction cs arbitrary: s r)
    case Nil
    then show ?case by simp
  next
    case (Cons c cs)
    show ?case
    proof (cases "session_feed s c")
      case None
      then show ?thesis by simp
    next
      case (Some s1)
      note s1 = session_feed_Some [OF Cons.prems(1) Some]
      have "session_pop_line s1 cap = PopErr"
        using line_buffer.long_line_stays [OF line_buffer_session [OF assms(1)] Cons.prems assms(4,5) Some] by simp
      then have d: "session_drain s1 cap = ([], s1)" by (simp add: session_drain_stop)
      have "pending s1 = l @ LF # (r @ c)" using s1(2) Cons.prems(2) by simp
      from Cons.IH [OF s1(1) this] show ?thesis by (auto simp: Some d)
    qed
  qed
  then show "\<forall>cs. session_run s cap cs = None \<or> (\<exists>s'. session_run s cap cs = Some ([], s'))" by blast
  have "session_feed s (replicate SESSION_CAP (CHR ''x'')) = None"
    using session_feed_ok_iff [OF assms(2), of "replicate SESSION_CAP (CHR ''x'')"] assms(3) by simp
  then show "session_run s cap [replicate SESSION_CAP (CHR ''x'')] = None" by simp
qed

theorem long_line_wedges_session_witness:
  "session_run \<lparr>s_buf = [CHR ''x'', LF] @ replicate 4094 NUL, s_len = 2\<rparr> 2 [replicate SESSION_CAP (CHR ''x'')] = None"
proof -
  let ?s = "\<lparr>s_buf = [CHR ''x'', LF] @ replicate 4094 NUL, s_len = 2\<rparr>"
  have "session_inv ?s" and "pending ?s = [CHR ''x''] @ LF # []"
    by (simp_all add: session_inv_def pending_def)
  from long_line_wedges_session [OF _ this] show ?thesis by simp
qed

end
