(* ===== verification/Os.thy ===== *)
theory Os
  imports CLib
begin

text \<open>
  The operating system as the sources use it, in the style of state passing.  A \<open>world\<close> holds
  the answers still to come (the successive readings of \<^verbatim>\<open>clock_gettime\<close>, and for each call of
  \<^verbatim>\<open>write\<close> or \<^verbatim>\<open>send\<close> whether it returns a negative number) and the log of what the process has
  done to it.  A theorem about every world is a theorem about every behaviour of the clock and
  of the peers.  The sources ignore the byte count that \<^verbatim>\<open>write\<close> returns; the log records the
  bytes handed to each successful call.

  A failed write is one that returns a negative number.  No program of the repository ignores
  \<^verbatim>\<open>SIGPIPE\<close>, so a write to a stream socket that the peer has reset does not return but ends the
  process, unless the signal is ignored from outside; that end is not modelled, and the failing
  writes of the theorems are those with another cause (a closed descriptor, a full buffer).
\<close>

datatype os_event =
    Wrote int bytes
  | Closed int
  | EpollAdd int
  | EpollDel int

record world =
  w_clock :: "nat \<Rightarrow> int \<times> int"
  w_ticks :: nat
  w_write_ok :: "nat \<Rightarrow> bool"
  w_writes :: nat
  w_log :: "os_event list"

text \<open>
  \<^verbatim>\<open>common/src/time.c\<close> (and its copies in two \<^verbatim>\<open>main.c\<close>): milliseconds of the monotonic clock, from
  \<^verbatim>\<open>tv_sec\<close> and \<^verbatim>\<open>tv_nsec\<close>.  A \<^verbatim>\<open>long long\<close> of milliseconds does not overflow in the lifetime of a
  machine, so readings are integers.
\<close>

definition ms_of_timespec :: "int \<times> int \<Rightarrow> int" where
  "ms_of_timespec ts = fst ts * 1000 + snd ts div 1000000"

definition now_ms :: "world \<Rightarrow> int \<times> world" where
  "now_ms w = (ms_of_timespec (w_clock w (w_ticks w)), w\<lparr>w_ticks := Suc (w_ticks w)\<rparr>)"

text \<open>\<^verbatim>\<open>write (fd, bs, n)\<close> and \<^verbatim>\<open>send (fd, bs, n, 0)\<close>: whether the result is non-negative.\<close>

definition os_write :: "int \<Rightarrow> bytes \<Rightarrow> world \<Rightarrow> bool \<times> world" where
  "os_write fd bs w =
     (let ok = w_write_ok w (w_writes w); w1 = w\<lparr>w_writes := Suc (w_writes w)\<rparr>
      in (ok, if ok then w1\<lparr>w_log := w_log w @ [Wrote fd bs]\<rparr> else w1))"

definition os_log :: "os_event \<Rightarrow> world \<Rightarrow> world" where
  "os_log e w = w\<lparr>w_log := w_log w @ [e]\<rparr>"

text \<open>What one \<^verbatim>\<open>read\<close> or \<^verbatim>\<open>recv\<close> on a non-blocking descriptor can return.\<close>

datatype recv_result = RecvData bytes | RecvClosed | RecvAgain | RecvError

text \<open>The bytes written to one descriptor, call by call.\<close>

fun sent_to :: "int \<Rightarrow> os_event list \<Rightarrow> bytes list" where
  "sent_to fd [] = []"
| "sent_to fd (Wrote fd' bs # es) = (if fd' = fd then bs # sent_to fd es else sent_to fd es)"
| "sent_to fd (_ # es) = sent_to fd es"

lemma sent_to_append [simp]: "sent_to fd (xs @ ys) = sent_to fd xs @ sent_to fd ys"
  by (induction fd xs rule: sent_to.induct) auto

definition all_writes_ok :: "world \<Rightarrow> bool" where
  "all_writes_ok w \<longleftrightarrow> (\<forall>n. w_write_ok w n)"

text \<open>The only parts of the world an operation may change are its counters and its log.\<close>

definition same_env :: "world \<Rightarrow> world \<Rightarrow> bool" where
  "same_env w w' \<longleftrightarrow> w_clock w' = w_clock w \<and> w_write_ok w' = w_write_ok w \<and> w_ticks w \<le> w_ticks w'
     \<and> w_writes w \<le> w_writes w' \<and> (\<exists>es. w_log w' = w_log w @ es)"

lemma same_env_refl [simp]: "same_env w w"
  by (simp add: same_env_def)

lemma same_env_trans: "same_env u v \<Longrightarrow> same_env v w \<Longrightarrow> same_env u w"
  by (auto simp: same_env_def)

lemma same_env_now [simp]: "same_env w (snd (now_ms w))"
  by (simp add: same_env_def now_ms_def)

lemma same_env_write [simp]: "same_env w (snd (os_write fd bs w))"
  by (simp add: same_env_def os_write_def Let_def)

lemma os_write_ok [simp]: "all_writes_ok w \<Longrightarrow>
    os_write fd bs w = (True, w\<lparr>w_writes := Suc (w_writes w), w_log := w_log w @ [Wrote fd bs]\<rparr>)"
  by (simp add: os_write_def all_writes_ok_def Let_def)

lemma all_writes_ok_update [simp]:
  "all_writes_ok (w\<lparr>w_writes := n\<rparr>) = all_writes_ok w" "all_writes_ok (w\<lparr>w_log := l\<rparr>) = all_writes_ok w"
  "all_writes_ok (w\<lparr>w_ticks := n\<rparr>) = all_writes_ok w"
  by (simp_all add: all_writes_ok_def)

text \<open>\<open>logged w es w'\<close>: from \<open>w\<close> to \<open>w'\<close> exactly the events \<open>es\<close> happened.\<close>

definition logged :: "world \<Rightarrow> os_event list \<Rightarrow> world \<Rightarrow> bool" where
  "logged w es w' \<longleftrightarrow> w_log w' = w_log w @ es \<and> w_clock w' = w_clock w \<and> w_write_ok w' = w_write_ok w"

lemma logged_refl [simp]: "logged w [] w"
  by (simp add: logged_def)

lemma logged_trans: "logged u es v \<Longrightarrow> logged v fs w \<Longrightarrow> logged u (es @ fs) w"
  by (simp add: logged_def)

lemma logged_writes_ok: "logged w es w' \<Longrightarrow> all_writes_ok w' = all_writes_ok w"
  by (simp add: logged_def all_writes_ok_def)

text \<open>A world for examples: a clock that always reads \<open>t\<close> seconds, writes that succeed.\<close>

definition quiet_world :: "int \<Rightarrow> world" where
  "quiet_world t = \<lparr>w_clock = (\<lambda>_. (t, 0)), w_ticks = 0, w_write_ok = (\<lambda>_. True), w_writes = 0, w_log = []\<rparr>"

lemma quiet_world_ok [simp]: "all_writes_ok (quiet_world t)"
  by (simp add: quiet_world_def all_writes_ok_def)

end
