(* ===== verification/Sim_Node.thy ===== *)
theory Sim_Node
  imports Sim_Process Line_Codec Session Os
begin

text \<open>
  \<^verbatim>\<open>nodes/deviced/sim/src/telemetry.c\<close> and \<^verbatim>\<open>nodes/deviced/sim/src/main.c\<close>: the simulated device as a
  node.  \<open>sim_boot\<close> is \<^verbatim>\<open>main\<close> from the connection to the loop, \<open>sim_iteration\<close> one round of the
  endless loop, given what \<^verbatim>\<open>recv\<close> returned.
\<close>

section \<open>Events\<close>

definition telemetry_build_status_evt :: "u32 \<Rightarrow> sim_state \<Rightarrow> message" where
  "telemetry_build_status_evt dev_id st =
     message_zero\<lparr>m_role := ROLE_EVT, m_type := TYPE_STATUS, m_dev := dev_id, m_has_dev := True,
       m_state := strncpy_field STATE_CAP (fsm_state_to_string st), m_has_state := True\<rparr>"


section \<open>Requests\<close>

record sim_ctx =
  n_dev_id :: u32
  n_sock :: int
  n_fsm :: fsm
  n_model :: process_model
  n_session :: session_t

definition sim_cmd_from_message :: "message \<Rightarrow> sim_cmd" where
  "sim_cmd_from_message msg =
     (case m_type msg of
        TYPE_START \<Rightarrow> SIM_CMD_START
      | TYPE_STOP \<Rightarrow> SIM_CMD_STOP
      | TYPE_RESET \<Rightarrow> SIM_CMD_RESET
      | TYPE_FAULT \<Rightarrow> SIM_CMD_FAULT
      | _ \<Rightarrow> SIM_CMD_NONE)"

text \<open>The reply built from the return value of the state machine.\<close>

definition sim_reply :: "sim_ctx \<Rightarrow> message \<Rightarrow> int \<Rightarrow> message" where
  "sim_reply ctx m rc =
     (let out = message_zero\<lparr>m_role := ROLE_RESP, m_type := m_type m\<rparr>;
          out = (if m_has_seq m then out\<lparr>m_seq := m_seq m, m_has_seq := True\<rparr> else out);
          out = out\<lparr>m_dev := n_dev_id ctx, m_has_dev := True\<rparr>
      in if rc = 0 then out\<lparr>m_ok := 1, m_has_ok := True\<rparr>
         else out\<lparr>m_ok := 0, m_has_ok := True, m_type := TYPE_ERROR, m_code := 500, m_has_code := True,
                  m_msg := ''SIM_CMD_FAILED'', m_has_msg := True\<rparr>)"

definition sim_handle_message :: "sim_ctx \<Rightarrow> message \<Rightarrow> int \<times> sim_ctx \<times> message option" where
  "sim_handle_message ctx m =
     (if m_role m \<noteq> ROLE_REQ then (0, ctx, None)
      else case fsm_handle_command (n_fsm ctx) (sim_cmd_from_message m) of
             (rc, fsm') \<Rightarrow> (1, ctx\<lparr>n_fsm := fsm'\<rparr>, Some (sim_reply ctx m rc)))"

section \<open>The main loop\<close>

abbreviation SIM_BUF :: nat where "SIM_BUF \<equiv> 1024"

text \<open>Format into a buffer and \<^verbatim>\<open>send\<close>; the result of \<^verbatim>\<open>send\<close> is ignored.\<close>

definition sim_send :: "int \<Rightarrow> message \<Rightarrow> nat \<Rightarrow> world \<Rightarrow> world" where
  "sim_send sock m cap w =
     (case line_format m cap of None \<Rightarrow> w | Some bs \<Rightarrow> snd (os_write sock bs w))"

definition sim_boot :: "u32 \<Rightarrow> int \<Rightarrow> world \<Rightarrow> sim_ctx \<times> sim_state \<times> world" where
  "sim_boot dev_id sock w =
     (let fsm0 = fsm_init \<lparr>f_state = SIM_STATE_BOOTING, f_ticks = 0\<rparr>;
          model0 = process_model_init
            \<lparr>p_temp = dlit 0, p_pressure = dlit 0, p_flow = dlit 0, p_heater_on = False, p_pump_on = False\<rparr>;
          reg = message_zero\<lparr>m_role := ROLE_EVT, m_type := TYPE_REGISTER, m_dev := dev_id, m_has_dev := True\<rparr>;
          w1 = sim_send sock reg 512 w;
          fsm1 = fsm_tick fsm0;
          w2 = sim_send sock (telemetry_build_status_evt dev_id (f_state fsm1)) SIM_BUF w1
      in (\<lparr>n_dev_id = dev_id, n_sock = sock, n_fsm = fsm1, n_model = model0, n_session = session_init session_zero\<rparr>,
          f_state fsm1, w2))"





section \<open>The reply contract\<close>

lemma sim_reply_fields:
  "m_role (sim_reply ctx m rc) = ROLE_RESP"
  "m_has_seq (sim_reply ctx m rc) = m_has_seq m" "m_has_seq m \<Longrightarrow> m_seq (sim_reply ctx m rc) = m_seq m"
  "m_has_dev (sim_reply ctx m rc)" "m_dev (sim_reply ctx m rc) = n_dev_id ctx" "m_has_ok (sim_reply ctx m rc)"
  "m_ok (sim_reply ctx m rc) = (if rc = 0 then 1 else 0)"
  "m_type (sim_reply ctx m rc) = (if rc = 0 then m_type m else TYPE_ERROR)"
  "m_has_code (sim_reply ctx m rc) = (rc \<noteq> 0)" "rc \<noteq> 0 \<Longrightarrow> m_code (sim_reply ctx m rc) = 500"
  by (simp_all add: sim_reply_def Let_def message_zero_def)

lemma fsm_refused_unchanged: "fst (fsm_handle_command f c) \<noteq> 0 \<Longrightarrow> snd (fsm_handle_command f c) = f"
  by (cases c) (auto split: if_splits)

text \<open>
  C28: A device answers exactly the requests.  The reply repeats the request's sequence number,
  carries the device's own id, and says \<^verbatim>\<open>ok=1\<close> with the request's type exactly when the state
  machine performed the command; otherwise it is an \<^verbatim>\<open>ERROR\<close> with \<^verbatim>\<open>ok=0 code=500\<close> and the
  machine did not move.
\<close>

theorem sim_reply_contract:
  "sim_handle_message ctx m = (rc, ctx', out) \<Longrightarrow>
     (m_role m \<noteq> ROLE_REQ \<longrightarrow> rc = 0 \<and> ctx' = ctx \<and> out = None)
   \<and> (m_role m = ROLE_REQ \<longrightarrow> (\<exists>r. rc = 1 \<and> out = Some r \<and> m_role r = ROLE_RESP
        \<and> m_has_seq r = m_has_seq m \<and> (m_has_seq m \<longrightarrow> m_seq r = m_seq m)
        \<and> m_has_dev r \<and> m_dev r = n_dev_id ctx \<and> m_has_ok r
        \<and> (if fst (fsm_handle_command (n_fsm ctx) (sim_cmd_from_message m)) = 0
           then m_ok r = 1 \<and> m_type r = m_type m
             \<and> n_fsm ctx' = snd (fsm_handle_command (n_fsm ctx) (sim_cmd_from_message m))
           else m_ok r = 0 \<and> m_type r = TYPE_ERROR \<and> m_has_code r \<and> m_code r = 500 \<and> n_fsm ctx' = n_fsm ctx)))"
proof (cases "m_role m = ROLE_REQ")
  case False
  assume "sim_handle_message ctx m = (rc, ctx', out)"
  with False show ?thesis by (simp add: sim_handle_message_def)
next
  case True
  assume h: "sim_handle_message ctx m = (rc, ctx', out)"
  obtain frc f where c: "fsm_handle_command (n_fsm ctx) (sim_cmd_from_message m) = (frc, f)" by fastforce
  have r: "rc = 1 \<and> ctx' = ctx\<lparr>n_fsm := f\<rparr> \<and> out = Some (sim_reply ctx m frc)"
    using h True c by (simp add: sim_handle_message_def)
  have "frc \<noteq> 0 \<Longrightarrow> f = n_fsm ctx" using fsm_refused_unchanged [of "n_fsm ctx" "sim_cmd_from_message m"] by (simp add: c)
  then show ?thesis by (cases "frc = 0") (simp_all add: True r c sim_reply_fields)
qed

theorem sim_reply_contract_witness:
  "\<exists>r. sim_handle_message (fst (sim_boot 1 3 (quiet_world 0))) (message_zero\<lparr>m_type := TYPE_STOP\<rparr>)
       = (1, fst (sim_boot 1 3 (quiet_world 0)), Some r) \<and> m_type r = TYPE_ERROR"
proof -
  let ?c = "fst (sim_boot 1 3 (quiet_world 0))" and ?m = "message_zero\<lparr>m_type := TYPE_STOP\<rparr>"
  have st: "f_state (n_fsm ?c) = SIM_STATE_IDLE"
    by (simp add: sim_boot_def Let_def fsm_init_def fsm_tick_def)
  have cmd: "sim_cmd_from_message ?m = SIM_CMD_STOP" and req: "m_role ?m = ROLE_REQ"
    by (simp_all add: sim_cmd_from_message_def message_zero_def)
  have e: "sim_handle_message ?c ?m = (1, ?c, Some (sim_reply ?c ?m (- 2)))"
    by (simp add: sim_handle_message_def cmd req st)
  from sim_reply_contract [OF e] e cmd req st show ?thesis by auto
qed

section \<open>What an iteration announces\<close>





lemma process_update_actuators [frame_simps]:
  "p_heater_on (process_model_update m) = p_heater_on m" "p_pump_on (process_model_update m) = p_pump_on m"
  by (simp_all add: process_model_update_def update_temp_def update_pressure_def update_flow_def Let_def)





end
