(* ===== verification/Tmc.thy ===== *)
theory Tmc
  imports Line_Codec Session Os
begin

text \<open>
  \<^verbatim>\<open>nodes/tmc/src/main.c\<close>: the transfer module controller, one process with one connection to the
  control server.  Operations return the C return code with the new context and world; \<open>tmc_boot\<close>
  is \<^verbatim>\<open>main\<close> from the result of connecting to the loop, \<open>tmc_iteration\<close> one round of the loop with
  \<open>False\<close> for the \<^verbatim>\<open>break\<close> that closes the socket and ends the process.
\<close>

datatype tmc_state = TMC_IDLE | TMC_TRANSFERRING | TMC_DONE | TMC_FAULT

record tmc_ctx =
  t_sock :: int
  t_session :: session_t
  t_state :: tmc_state
  t_started :: int
  t_last_sent :: int

abbreviation TMC_DEV_ID :: u32 where "TMC_DEV_ID \<equiv> 100"
abbreviation REGISTER_SEQ :: u32 where "REGISTER_SEQ \<equiv> 1"
abbreviation TMC_BUF :: nat where "TMC_BUF \<equiv> 1024"

fun tmc_state_to_string :: "tmc_state \<Rightarrow> string" where
  "tmc_state_to_string TMC_IDLE = ''IDLE''"
| "tmc_state_to_string TMC_TRANSFERRING = ''TRANSFERRING''"
| "tmc_state_to_string TMC_DONE = ''DONE''"
| "tmc_state_to_string TMC_FAULT = ''FAULT''"

section \<open>Sending\<close>

definition tmc_send_message :: "int \<Rightarrow> message \<Rightarrow> world \<Rightarrow> int \<times> world" where
  "tmc_send_message sock msg w =
     (if sock < 0 then (- 1, w)
      else case line_format msg TMC_BUF of
             None \<Rightarrow> (- 1, w)
           | Some bs \<Rightarrow> (case os_write sock bs w of (ok, w1) \<Rightarrow> (if ok then 0 else - 1, w1)))"

definition tmc_register_req :: message where
  "tmc_register_req =
     message_zero\<lparr>m_role := ROLE_REQ, m_type := TYPE_REGISTER, m_dev := TMC_DEV_ID, m_has_dev := True,
       m_seq := REGISTER_SEQ, m_has_seq := True\<rparr>"

definition send_register_req :: "tmc_ctx \<Rightarrow> world \<Rightarrow> int \<times> world" where
  "send_register_req ctx w = tmc_send_message (t_sock ctx) tmc_register_req w"

definition tmc_status_evt :: "tmc_state \<Rightarrow> message" where
  "tmc_status_evt st =
     message_zero\<lparr>m_role := ROLE_EVT, m_type := TYPE_STATUS, m_dev := TMC_DEV_ID, m_has_dev := True,
       m_state := strncpy_field STATE_CAP (tmc_state_to_string st), m_has_state := True\<rparr>"

definition send_status_evt :: "tmc_ctx \<Rightarrow> world \<Rightarrow> int \<times> tmc_ctx \<times> world" where
  "send_status_evt ctx w =
     (case tmc_send_message (t_sock ctx) (tmc_status_evt (t_state ctx)) w of
        (rc, w1) \<Rightarrow>
          if rc \<noteq> 0 then (- 1, ctx, w1)
          else (case now_ms w1 of (now, w2) \<Rightarrow> (0, ctx\<lparr>t_last_sent := now\<rparr>, w2)))"

definition copy_dev_seq :: "message \<Rightarrow> message \<Rightarrow> message" where
  "copy_dev_seq req resp =
     (let r = (if m_has_dev req then resp\<lparr>m_dev := m_dev req, m_has_dev := True\<rparr> else resp)
      in if m_has_seq req then r\<lparr>m_seq := m_seq req, m_has_seq := True\<rparr> else r)"

definition tmc_simple_resp :: "message \<Rightarrow> bool \<Rightarrow> i32 \<Rightarrow> string option \<Rightarrow> message" where
  "tmc_simple_resp req ok code text =
     (let r = copy_dev_seq req
                (message_zero\<lparr>m_role := ROLE_RESP, m_type := (if ok then m_type req else TYPE_ERROR)\<rparr>);
          r = r\<lparr>m_ok := (if ok then 1 else 0), m_has_ok := True\<rparr>
      in if ok then r
         else let r = r\<lparr>m_code := code, m_has_code := True\<rparr>
              in case text of None \<Rightarrow> r
                 | Some t \<Rightarrow> r\<lparr>m_msg := strncpy_field MSG_CAP t, m_has_msg := True\<rparr>)"

definition send_simple_resp :: "tmc_ctx \<Rightarrow> message \<Rightarrow> bool \<Rightarrow> i32 \<Rightarrow> string option \<Rightarrow> world \<Rightarrow> int \<times> world" where
  "send_simple_resp ctx req ok code text w = tmc_send_message (t_sock ctx) (tmc_simple_resp req ok code text) w"

definition tmc_status_resp :: "tmc_state \<Rightarrow> message \<Rightarrow> message" where
  "tmc_status_resp st req =
     (copy_dev_seq req (message_zero\<lparr>m_role := ROLE_RESP, m_type := TYPE_STATUS\<rparr>))
       \<lparr>m_ok := 1, m_has_ok := True, m_state := strncpy_field STATE_CAP (tmc_state_to_string st), m_has_state := True\<rparr>"

definition send_status_resp :: "tmc_ctx \<Rightarrow> message \<Rightarrow> world \<Rightarrow> int \<times> world" where
  "send_status_resp ctx req w = tmc_send_message (t_sock ctx) (tmc_status_resp (t_state ctx) req) w"

section \<open>Requests\<close>

text \<open>
  The common tail of the four accepting branches: the positive response, then the status event;
  a failed send of either makes the result -1.
\<close>

definition accept_and_announce :: "tmc_ctx \<Rightarrow> message \<Rightarrow> world \<Rightarrow> int \<times> tmc_ctx \<times> world" where
  "accept_and_announce ctx m w =
     (case send_simple_resp ctx m True 0 None w of
        (rc, w1) \<Rightarrow>
          if rc \<noteq> 0 then (- 1, ctx, w1)
          else (case send_status_evt ctx w1 of
                  (rc2, ctx2, w2) \<Rightarrow> if rc2 \<noteq> 0 then (- 1, ctx2, w2) else (1, ctx2, w2)))"

definition refuse :: "tmc_ctx \<Rightarrow> message \<Rightarrow> i32 \<Rightarrow> string \<Rightarrow> world \<Rightarrow> int \<times> tmc_ctx \<times> world" where
  "refuse ctx m code text w =
     (case send_simple_resp ctx m False code (Some text) w of (rc, w1) \<Rightarrow> (rc, ctx, w1))"

definition handle_req_message :: "tmc_ctx \<Rightarrow> message \<Rightarrow> world \<Rightarrow> int \<times> tmc_ctx \<times> world" where
  "handle_req_message ctx m w =
     (if m_role m \<noteq> ROLE_REQ then (0, ctx, w)
      else if m_type m = TYPE_STATUS
      then (case send_status_resp ctx m w of (rc, w1) \<Rightarrow> (rc, ctx, w1))
      else case m_type m of
        TYPE_START \<Rightarrow>
          (if t_state ctx = TMC_IDLE \<or> t_state ctx = TMC_DONE
           then (case now_ms w of (now, w1) \<Rightarrow>
                   accept_and_announce (ctx\<lparr>t_state := TMC_TRANSFERRING, t_started := now\<rparr>) m w1)
           else refuse ctx m 409 ''INVALID_STATE_TRANSITION'' w)
      | TYPE_STOP \<Rightarrow>
          (if t_state ctx = TMC_TRANSFERRING
           then accept_and_announce (ctx\<lparr>t_state := TMC_IDLE, t_started := 0\<rparr>) m w
           else refuse ctx m 409 ''INVALID_STATE_TRANSITION'' w)
      | TYPE_FAULT \<Rightarrow> accept_and_announce (ctx\<lparr>t_state := TMC_FAULT, t_started := 0\<rparr>) m w
      | TYPE_RESET \<Rightarrow>
          (if t_state ctx = TMC_FAULT
           then accept_and_announce (ctx\<lparr>t_state := TMC_IDLE, t_started := 0\<rparr>) m w
           else refuse ctx m 409 ''INVALID_STATE_TRANSITION'' w)
      | _ \<Rightarrow> refuse ctx m 404 ''UNKNOWN_TYPE'' w)"

section \<open>The loop\<close>

definition tick_state_machine :: "tmc_ctx \<Rightarrow> world \<Rightarrow> tmc_ctx \<times> world" where
  "tick_state_machine ctx w =
     (case now_ms w of (now, w1) \<Rightarrow>
        case (if t_state ctx = TMC_TRANSFERRING \<and> 0 < t_started ctx \<and> 2000 \<le> now - t_started ctx
              then snd (send_status_evt (ctx\<lparr>t_state := TMC_DONE, t_started := 0\<rparr>) w1)
              else (ctx, w1)) of
          (ctx2, w2) \<Rightarrow>
            if 1000 \<le> now - t_last_sent ctx2 then snd (send_status_evt ctx2 w2) else (ctx2, w2))"

definition is_register_ack :: "message \<Rightarrow> bool" where
  "is_register_ack m \<longleftrightarrow> m_role m = ROLE_RESP \<and> m_type m = TYPE_REGISTER \<and> m_has_ok m \<and> m_ok m = 1"

lemma send_status_evt_session [frame_simps]: "send_status_evt ctx w = (rc, ctx', w') \<Longrightarrow>
    t_session ctx' = t_session ctx \<and> t_sock ctx' = t_sock ctx \<and> t_state ctx' = t_state ctx \<and> t_started ctx' = t_started ctx"
  by (auto simp: send_status_evt_def split: prod.splits if_splits)

lemma accept_session [frame_simps]: "accept_and_announce ctx m w = (rc, ctx', w') \<Longrightarrow>
    t_session ctx' = t_session ctx \<and> t_sock ctx' = t_sock ctx \<and> t_state ctx' = t_state ctx \<and> t_started ctx' = t_started ctx"
  by (auto simp: accept_and_announce_def split: prod.splits if_splits dest!: send_status_evt_session)

lemma handle_req_session:
  "handle_req_message ctx m w = (rc, ctx', w') \<Longrightarrow> t_session ctx' = t_session ctx \<and> t_sock ctx' = t_sock ctx"
  by (auto simp: handle_req_message_def refuse_def split: prod.splits if_splits msg_type.splits
      dest!: accept_session)

function tmc_lines :: "tmc_ctx \<Rightarrow> world \<Rightarrow> tmc_ctx \<times> world" where
  "tmc_lines ctx w =
     (case session_pop_line (t_session ctx) TMC_BUF of
        PopLine line s1 \<Rightarrow>
          (let ctx1 = ctx\<lparr>t_session := s1\<rparr> in
           case line_parse line of
             None \<Rightarrow> tmc_lines ctx1 w
           | Some m \<Rightarrow>
               if is_register_ack m then tmc_lines ctx1 w
               else if m_has_dev m \<and> m_dev m \<noteq> TMC_DEV_ID then tmc_lines ctx1 w
               else (case handle_req_message ctx1 m w of
                       (rc, ctx2, w2) \<Rightarrow> if rc < 0 then (ctx2, w2) else tmc_lines ctx2 w2))
      | _ \<Rightarrow> (ctx, w))"
  by pat_completeness auto
termination
  by (relation "measure (\<lambda>(ctx, w). s_len (t_session ctx))")
    (auto dest!: session_pop_line_shorter dest: handle_req_session [OF sym])

declare tmc_lines.simps [simp del]

definition tmc_iteration :: "recv_result \<Rightarrow> tmc_ctx \<Rightarrow> world \<Rightarrow> bool \<times> tmc_ctx \<times> world" where
  "tmc_iteration r ctx w =
     (case r of
        RecvData bs \<Rightarrow>
          (case session_feed (t_session ctx) bs of
             None \<Rightarrow> (False, ctx, os_log (Closed (t_sock ctx)) w)
           | Some s \<Rightarrow>
               (case tmc_lines (ctx\<lparr>t_session := s\<rparr>) w of
                  (ctx1, w1) \<Rightarrow> (True, tick_state_machine ctx1 w1)))
      | RecvClosed \<Rightarrow> (False, ctx, os_log (Closed (t_sock ctx)) w)
      | RecvError \<Rightarrow> (False, ctx, os_log (Closed (t_sock ctx)) w)
      | RecvAgain \<Rightarrow> (True, tick_state_machine ctx w))"

definition tmc_boot :: "int \<Rightarrow> world \<Rightarrow> bool \<times> tmc_ctx \<times> world" where
  "tmc_boot sock w =
     (let ctx = \<lparr>t_sock = sock, t_session = session_init session_zero, t_state = TMC_IDLE,
                 t_started = 0, t_last_sent = 0\<rparr>
      in if sock < 0 then (False, ctx, w)
         else case send_register_req ctx w of
           (rc, w1) \<Rightarrow>
             if rc \<noteq> 0 then (False, ctx, os_log (Closed sock) w1)
             else (case send_status_evt ctx w1 of
                     (rc2, ctx2, w2) \<Rightarrow>
                       if rc2 \<noteq> 0 then (False, ctx2, os_log (Closed sock) w2) else (True, ctx2, w2)))"

section \<open>The transition table\<close>

text \<open>The abstract controller: which requests are accepted in which state, and where they lead.\<close>

fun tmc_next :: "tmc_state \<Rightarrow> msg_type \<Rightarrow> tmc_state option" where
  "tmc_next TMC_IDLE TYPE_START = Some TMC_TRANSFERRING"
| "tmc_next TMC_DONE TYPE_START = Some TMC_TRANSFERRING"
| "tmc_next TMC_TRANSFERRING TYPE_STOP = Some TMC_IDLE"
| "tmc_next TMC_FAULT TYPE_RESET = Some TMC_IDLE"
| "tmc_next _ TYPE_FAULT = Some TMC_FAULT"
| "tmc_next _ _ = None"

definition tmc_refusal :: "message \<Rightarrow> message" where
  "tmc_refusal m =
     (if m_type m \<in> {TYPE_START, TYPE_STOP, TYPE_RESET}
      then tmc_simple_resp m False 409 (Some ''INVALID_STATE_TRANSITION'')
      else tmc_simple_resp m False 404 (Some ''UNKNOWN_TYPE''))"

definition tmc_answers :: "tmc_state \<Rightarrow> message \<Rightarrow> message list" where
  "tmc_answers st m =
     (if m_type m = TYPE_STATUS then [tmc_status_resp st m]
      else case tmc_next st (m_type m) of
             Some s \<Rightarrow> [tmc_simple_resp m True 0 None, tmc_status_evt s]
           | None \<Rightarrow> [tmc_refusal m])"

lemma tmc_state_to_string_clean [simp]:
  "clean (tmc_state_to_string s)" "length (tmc_state_to_string s) < STATE_CAP"
  by (cases s; simp add: clean_Nil)+

lemma strncpy_tmc_state [simp]: "strncpy_field STATE_CAP (tmc_state_to_string s) = tmc_state_to_string s"
  by (cases s) (simp_all add: strncpy_field_id)

lemma tmc_state_no_NUL [simp]: "NUL \<notin> set (tmc_state_to_string s)"
  by (cases s) simp_all

lemma copy_dev_seq_fields [simp]:
  "m_state (copy_dev_seq m r) = m_state r" "m_msg (copy_dev_seq m r) = m_msg r"
  "m_has_temp (copy_dev_seq m r) = m_has_temp r" "m_has_pressure (copy_dev_seq m r) = m_has_pressure r"
  "m_has_flow (copy_dev_seq m r) = m_has_flow r"
  by (simp_all add: copy_dev_seq_def Let_def)

lemma tmc_messages_fit [simp]:
  "line_format (tmc_status_evt s) TMC_BUF = Some (wire (tmc_status_evt s))"
  "line_format (tmc_status_resp s m) TMC_BUF = Some (wire (tmc_status_resp s m))"
  "line_format (tmc_simple_resp m True 0 None) TMC_BUF = Some (wire (tmc_simple_resp m True 0 None))"
  "line_format (tmc_simple_resp m False code (Some ''INVALID_STATE_TRANSITION'')) TMC_BUF
     = Some (wire (tmc_simple_resp m False code (Some ''INVALID_STATE_TRANSITION'')))"
  "line_format (tmc_simple_resp m False code (Some ''UNKNOWN_TYPE'')) TMC_BUF
     = Some (wire (tmc_simple_resp m False code (Some ''UNKNOWN_TYPE'')))"
  by (rule line_format_control;
      simp add: message_inv_def no_measurements_def tmc_status_evt_def tmc_status_resp_def tmc_simple_resp_def
        message_zero_def strncpy_field_id Let_def)+

text \<open>Sending with a healthy socket appends the lines to the log and touches nothing else.\<close>

lemma accept_ok:
  "0 \<le> t_sock ctx \<Longrightarrow> all_writes_ok w \<Longrightarrow> \<exists>now w'.
     accept_and_announce ctx m w = (1, ctx\<lparr>t_last_sent := now\<rparr>, w')
   \<and> logged w [Wrote (t_sock ctx) (wire (tmc_simple_resp m True 0 None)),
                Wrote (t_sock ctx) (wire (tmc_status_evt (t_state ctx)))] w'"
  by (simp add: accept_and_announce_def send_simple_resp_def send_status_evt_def tmc_send_message_def now_ms_def
      logged_def) (rule exI, rule refl)

lemma tmc_refuse_ok:
  "0 \<le> t_sock ctx \<Longrightarrow> all_writes_ok w \<Longrightarrow> text \<in> {''INVALID_STATE_TRANSITION'', ''UNKNOWN_TYPE''} \<Longrightarrow>
     \<exists>w'. refuse ctx m code text w = (0, ctx, w')
       \<and> logged w [Wrote (t_sock ctx) (wire (tmc_simple_resp m False code (Some text)))] w'"
  by (auto simp: refuse_def send_simple_resp_def tmc_send_message_def logged_def)

lemma status_ok:
  "0 \<le> t_sock ctx \<Longrightarrow> all_writes_ok w \<Longrightarrow>
     \<exists>w'. send_status_resp ctx m w = (0, w')
       \<and> logged w [Wrote (t_sock ctx) (wire (tmc_status_resp (t_state ctx) m))] w'"
  by (simp add: send_status_resp_def tmc_send_message_def logged_def)

lemma accept_state: "accept_and_announce ctx m w = (rc, ctx', w') \<Longrightarrow> t_state ctx' = t_state ctx"
  by (simp add: accept_session)

lemma handle_req_state:
  assumes "handle_req_message ctx m w = (rc, ctx', w')"
  shows "t_state ctx' =
    (if m_role m = ROLE_REQ
     then (case tmc_next (t_state ctx) (m_type m) of Some s \<Rightarrow> s | None \<Rightarrow> t_state ctx)
     else t_state ctx)"
proof (cases "m_role m = ROLE_REQ")
  case True
  with assms show ?thesis
    by (cases "m_type m"; cases "t_state ctx")
      (auto simp: handle_req_message_def refuse_def now_ms_def split: prod.splits dest!: accept_state)
next
  case False
  with assms show ?thesis by (simp add: handle_req_message_def)
qed

lemma tmc_request_answers_aux:
  assumes sock: "0 \<le> t_sock ctx" and ok: "all_writes_ok w" and req: "m_role m = ROLE_REQ"
  shows "\<exists>rc ctx' w'. handle_req_message ctx m w = (rc, ctx', w') \<and> 0 \<le> rc
     \<and> logged w (map (\<lambda>a. Wrote (t_sock ctx) (wire a)) (tmc_answers (t_state ctx) m)) w'"
proof -
  have acc: "\<exists>rc ctx' w'. accept_and_announce (ctx\<lparr>t_state := s, t_started := n\<rparr>) m w1 = (rc, ctx', w') \<and> 0 \<le> rc
     \<and> logged w [Wrote (t_sock ctx) (wire (tmc_simple_resp m True 0 None)),
                  Wrote (t_sock ctx) (wire (tmc_status_evt s))] w'"
    if "logged w [] w1" for s n w1
    using accept_ok [of "ctx\<lparr>t_state := s, t_started := n\<rparr>" w1 m] sock ok logged_writes_ok [OF that]
      logged_trans [OF that] by fastforce
  have ref: "\<exists>rc ctx' w'. refuse ctx m code reason w = (rc, ctx', w') \<and> 0 \<le> rc
     \<and> logged w [Wrote (t_sock ctx) (wire (tmc_simple_resp m False code (Some reason)))] w'"
    if "reason \<in> {''INVALID_STATE_TRANSITION'', ''UNKNOWN_TYPE''}" for code reason
    using tmc_refuse_ok [OF sock ok that] by fastforce
  have now: "logged w [] (snd (now_ms w))" by (simp add: logged_def now_ms_def)
  show ?thesis
  proof (cases "m_type m = TYPE_STATUS")
    case True
    with status_ok [OF sock ok, of m] req show ?thesis
      by (auto simp: handle_req_message_def tmc_answers_def)
  next
    case False
    then show ?thesis using req acc [OF now] acc [OF logged_refl] ref
      by (cases "m_type m"; cases "t_state ctx")
        (simp_all add: handle_req_message_def tmc_answers_def tmc_refusal_def case_prod_beta)
  qed
qed

text \<open>
  C29: The transfer controller moves as its transition table says, for every message and whether or
  not its answers can be sent.  While its socket accepts data it answers every request: a STATUS
  request with its state, an accepted command with a positive response followed by the status
  event of the new state, anything else with one error response (409 for a command the state
  does not allow, 404 for an unknown type), and nothing more is sent.
\<close>

theorem tmc_request_answers:
  assumes "handle_req_message ctx m w = (rc, ctx', w')"
  shows "t_state ctx' =
      (if m_role m = ROLE_REQ
       then (case tmc_next (t_state ctx) (m_type m) of Some s \<Rightarrow> s | None \<Rightarrow> t_state ctx)
       else t_state ctx)
    \<and> (0 \<le> t_sock ctx \<and> all_writes_ok w \<and> m_role m = ROLE_REQ \<longrightarrow>
       0 \<le> rc \<and> w_log w' = w_log w @ map (\<lambda>a. Wrote (t_sock ctx) (wire a)) (tmc_answers (t_state ctx) m))"
  using tmc_request_answers_aux [of ctx w m] handle_req_state [OF assms] assms by (auto simp: logged_def)

definition sample_tmc :: "tmc_state \<Rightarrow> int \<Rightarrow> tmc_ctx" where
  "sample_tmc st started =
     \<lparr>t_sock = 3, t_session = session_zero, t_state = st, t_started = started, t_last_sent = 0\<rparr>"

theorem tmc_request_answers_witness:
  "\<exists>rc c w. handle_req_message (sample_tmc TMC_IDLE 0) (message_zero\<lparr>m_type := TYPE_STOP\<rparr>) (quiet_world 5) = (rc, c, w)
     \<and> t_state c = TMC_IDLE \<and> w_log w = [Wrote 3 (wire (tmc_refusal (message_zero\<lparr>m_type := TYPE_STOP\<rparr>)))]"
proof -
  let ?m = "message_zero\<lparr>m_type := TYPE_STOP\<rparr>"
  obtain rc c w where h: "handle_req_message (sample_tmc TMC_IDLE 0) ?m (quiet_world 5) = (rc, c, w)"
    by (metis prod_cases3)
  have "tmc_answers TMC_IDLE ?m = [tmc_refusal ?m]" by (simp add: tmc_answers_def)
  with tmc_request_answers [OF h] quiet_world_ok [of 5] h show ?thesis
    by (simp add: sample_tmc_def message_zero_def quiet_world_def)
qed

section \<open>The timer\<close>

lemma send_status_evt_frame [simp]:
  "t_session (fst (snd (send_status_evt ctx w))) = t_session ctx" "t_sock (fst (snd (send_status_evt ctx w))) = t_sock ctx"
  "t_state (fst (snd (send_status_evt ctx w))) = t_state ctx" "t_started (fst (snd (send_status_evt ctx w))) = t_started ctx"
  by (simp_all add: send_status_evt_def split: prod.split)

lemma tick_state:
  "tick_state_machine ctx w = (ctx', w') \<Longrightarrow>
     t_session ctx' = t_session ctx \<and> t_sock ctx' = t_sock ctx \<and>
     (if t_state ctx = TMC_TRANSFERRING \<and> 0 < t_started ctx \<and> 2000 \<le> fst (now_ms w) - t_started ctx
      then t_state ctx' = TMC_DONE \<and> t_started ctx' = 0
      else t_state ctx' = t_state ctx \<and> t_started ctx' = t_started ctx)"
  by (simp add: tick_state_machine_def case_prod_beta prod_eq_iff split: if_splits) auto

definition tmc_inv :: "tmc_ctx \<Rightarrow> bool" where
  "tmc_inv ctx \<longleftrightarrow> (t_state ctx \<noteq> TMC_TRANSFERRING \<longrightarrow> t_started ctx = 0)"

lemma tmc_inv_request:
  "handle_req_message ctx m w = (rc, ctx', w') \<Longrightarrow> tmc_inv ctx \<Longrightarrow> tmc_inv ctx'"
  by (auto simp: handle_req_message_def refuse_def now_ms_def tmc_inv_def split: if_splits msg_type.splits prod.splits
      dest!: accept_session)

lemma tmc_inv_tick: "tick_state_machine ctx w = (ctx', w') \<Longrightarrow> tmc_inv ctx \<Longrightarrow> tmc_inv ctx'"
  by (auto simp: tmc_inv_def dest!: tick_state split: if_splits)

text \<open>Rule for the loop over the lines: a property of context and world that every request keeps.\<close>

lemma tmc_lines_rule:
  assumes line: "\<And>ctx m w rc ctx' w'. P ctx w \<Longrightarrow> Q m \<Longrightarrow> handle_req_message ctx m w = (rc, ctx', w') \<Longrightarrow> P ctx' w'"
    and buf: "\<And>ctx s w. P ctx w \<Longrightarrow> P (ctx\<lparr>t_session := s\<rparr>) w"
  shows "P ctx w \<Longrightarrow> \<forall>l \<in> set (fst (session_drain (t_session ctx) TMC_BUF)). \<forall>m. line_parse l = Some m \<longrightarrow> Q m \<Longrightarrow>
    P (fst (tmc_lines ctx w)) (snd (tmc_lines ctx w))"
proof (induction ctx w rule: tmc_lines.induct)
  case (1 ctx w)
  show ?case
  proof (cases "session_pop_line (t_session ctx) TMC_BUF")
    case (PopLine l s1)
    let ?c = "ctx\<lparr>t_session := s1\<rparr>"
    note d = session_drain_line [OF PopLine]
    have rest: "\<forall>l \<in> set (fst (session_drain s1 TMC_BUF)). \<forall>m. line_parse l = Some m \<longrightarrow> Q m"
      using "1.prems"(2) by (simp add: d)
    note pc = buf [OF "1.prems"(1), of s1]
    show ?thesis
    proof (cases "line_parse l")
      case None
      with "1.IH"(1) [OF PopLine refl None pc] rest PopLine show ?thesis
        by (subst (1 2) tmc_lines.simps) simp
    next
      case (Some m)
      have q: "Q m" using "1.prems"(2) Some by (simp add: d)
      obtain rc c2 w2 where h: "handle_req_message ?c m w = (rc, c2, w2)" by (metis prod_cases3)
      have p2: "P c2 w2" using line [OF pc q h] .
      have s2: "t_session c2 = s1" using handle_req_session [OF h] by simp
      show ?thesis
        using "1.IH"(2) [OF PopLine refl Some _ pc] "1.IH"(3) [OF PopLine refl Some _ _ pc]
          "1.IH"(4) [OF PopLine refl Some _ _ h [symmetric] refl _ p2] rest s2 PopLine Some h p2
        by (subst (1 2) tmc_lines.simps) (simp add: Let_def)
    qed
  qed (use 1 in \<open>simp_all add: tmc_lines.simps [of ctx w]\<close>)
qed

lemma tmc_inv_lines: "tmc_inv ctx \<Longrightarrow> tmc_inv (fst (tmc_lines ctx w))"
  by (rule tmc_lines_rule [where P = "\<lambda>c w. tmc_inv c" and Q = "\<lambda>_. True"])
    (erule tmc_inv_request, assumption, simp_all add: tmc_inv_def)

lemma tmc_inv_iteration: "tmc_iteration r ctx w = (go, ctx', w') \<Longrightarrow> tmc_inv ctx \<Longrightarrow> tmc_inv ctx'"
proof (cases r)
  case (RecvData bs)
  assume it: "tmc_iteration r ctx w = (go, ctx', w')" and i: "tmc_inv ctx"
  show ?thesis
  proof (cases "session_feed (t_session ctx) bs")
    case None
    with it i RecvData show ?thesis by (simp add: tmc_iteration_def)
  next
    case (Some s)
    obtain c1 w1 where l: "tmc_lines (ctx\<lparr>t_session := s\<rparr>) w = (c1, w1)" by fastforce
    have "tmc_inv c1" using tmc_inv_lines [of "ctx\<lparr>t_session := s\<rparr>" w] i by (simp add: l tmc_inv_def)
    moreover have "tick_state_machine c1 w1 = (ctx', w')"
      using it RecvData Some l by (simp add: tmc_iteration_def)
    ultimately show ?thesis using tmc_inv_tick by blast
  qed
qed (auto simp: tmc_iteration_def intro: tmc_inv_tick)

text \<open>The clock does not run backwards.\<close>

definition monotone_clock :: "world \<Rightarrow> bool" where
  "monotone_clock w \<longleftrightarrow> (\<forall>i j. i \<le> j \<longrightarrow> ms_of_timespec (w_clock w i) \<le> ms_of_timespec (w_clock w j))"

lemma clock_advances: "same_env w w' \<Longrightarrow> monotone_clock w \<Longrightarrow> monotone_clock w' \<and> fst (now_ms w) \<le> fst (now_ms w')"
  by (simp add: same_env_def monotone_clock_def now_ms_def)

text \<open>
  What every operation of the node keeps: the socket, the environment, and that the time of the
  last status event is only changed by writing one.
\<close>

definition announced :: "int \<Rightarrow> tmc_state \<Rightarrow> world \<Rightarrow> world \<Rightarrow> bool" where
  "announced sock st w w' \<longleftrightarrow> (\<exists>es fs. w_log w' = w_log w @ es @ [Wrote sock (wire (tmc_status_evt st))] @ fs)"

definition tmc_step :: "tmc_ctx \<Rightarrow> world \<Rightarrow> tmc_ctx \<Rightarrow> world \<Rightarrow> bool" where
  "tmc_step c w c' w' \<longleftrightarrow> same_env w w' \<and> t_sock c' = t_sock c
     \<and> (t_last_sent c' = t_last_sent c \<or> (\<exists>st. announced (t_sock c) st w w'))"

lemma announced_later: "announced sock st v w \<Longrightarrow> same_env u v \<Longrightarrow> announced sock st u w"
proof -
  assume "announced sock st v w" "same_env u v"
  then obtain e0 es fs where "w_log v = w_log u @ e0" "w_log w = w_log v @ es @ [Wrote sock (wire (tmc_status_evt st))] @ fs"
    by (auto simp: announced_def same_env_def)
  then show ?thesis unfolding announced_def by (intro exI [of _ "e0 @ es"] exI [of _ fs]) simp
qed

lemma announced_still: "announced sock st u v \<Longrightarrow> same_env v w \<Longrightarrow> announced sock st u w"
proof -
  assume "announced sock st u v" "same_env v w"
  then obtain e0 es fs where "w_log w = w_log v @ e0" "w_log v = w_log u @ es @ [Wrote sock (wire (tmc_status_evt st))] @ fs"
    by (auto simp: announced_def same_env_def)
  then show ?thesis unfolding announced_def by (intro exI [of _ es] exI [of _ "fs @ e0"]) simp
qed

lemma tmc_step_refl: "same_env w w' \<Longrightarrow> t_sock c' = t_sock c \<Longrightarrow> t_last_sent c' = t_last_sent c \<Longrightarrow> tmc_step c w c' w'"
  by (simp add: tmc_step_def)

lemma tmc_step_trans: "tmc_step a u b v \<Longrightarrow> tmc_step b v c w \<Longrightarrow> tmc_step a u c w"
proof -
  assume 1: "tmc_step a u b v" and 2: "tmc_step b v c w"
  then have e: "same_env u v" "same_env v w" "t_sock b = t_sock a" "t_sock c = t_sock a" by (simp_all add: tmc_step_def)
  consider "t_last_sent c = t_last_sent b" "t_last_sent b = t_last_sent a"
    | st where "announced (t_sock a) st u v" | st where "announced (t_sock a) st v w"
    using 1 2 e(3) by (auto simp: tmc_step_def)
  then have "t_last_sent c = t_last_sent a \<or> (\<exists>st. announced (t_sock a) st u w)"
    by cases (auto dest: announced_still [OF _ e(2)] announced_later [OF _ e(1)])
  with e same_env_trans [OF e(1,2)] show ?thesis by (simp add: tmc_step_def)
qed

lemma send_step: "tmc_send_message sock m w = (rc, w') \<Longrightarrow> same_env w w'"
  by (auto simp: tmc_send_message_def os_write_def same_env_def Let_def split: option.splits if_splits)

lemma send_announces:
  assumes "tmc_send_message sock (tmc_status_evt st) w = (0, w')"
  shows "announced sock st w w'"
proof -
  have "w_log w' = w_log w @ [] @ [Wrote sock (wire (tmc_status_evt st))] @ []"
    using assms by (auto simp: tmc_send_message_def os_write_def Let_def split: if_splits)
  then show ?thesis unfolding announced_def by blast
qed

lemma status_evt_step: "send_status_evt ctx w = (rc, ctx', w') \<Longrightarrow> tmc_step ctx w ctx' w'"
proof -
  assume e: "send_status_evt ctx w = (rc, ctx', w')"
  obtain rc1 w1 where s: "tmc_send_message (t_sock ctx) (tmc_status_evt (t_state ctx)) w = (rc1, w1)" by fastforce
  have n: "same_env w w1" by (rule send_step [OF s])
  show ?thesis
  proof (cases "rc1 = 0")
    case True
    have a: "announced (t_sock ctx) (t_state ctx) w w1" using send_announces s True by blast
    have "same_env w (snd (now_ms w1))" using same_env_trans [OF n same_env_now] .
    moreover have "announced (t_sock ctx) (t_state ctx) w (snd (now_ms w1))" by (rule announced_still [OF a same_env_now])
    ultimately show ?thesis using e s True by (auto simp: send_status_evt_def tmc_step_def split: prod.splits)
  next
    case False
    then show ?thesis using e s n by (auto simp: send_status_evt_def intro: tmc_step_refl)
  qed
qed

lemma accept_step: "accept_and_announce ctx m w = (rc, ctx', w') \<Longrightarrow> tmc_step ctx w ctx' w'"
proof -
  assume a: "accept_and_announce ctx m w = (rc, ctx', w')"
  obtain rc1 w1 where s: "send_simple_resp ctx m True 0 None w = (rc1, w1)" by fastforce
  have 1: "tmc_step ctx w ctx w1" using send_step [OF s [unfolded send_simple_resp_def]] by (simp add: tmc_step_refl)
  obtain rc2 c2 w2 where e: "send_status_evt ctx w1 = (rc2, c2, w2)" by (metis prod_cases3)
  show ?thesis using a s e 1 tmc_step_trans [OF 1 status_evt_step [OF e]]
    by (auto simp: accept_and_announce_def split: if_splits)
qed

lemma tmc_step_fields [simp]:
  "tmc_step (c\<lparr>t_state := st, t_started := n\<rparr>) w c' w' = tmc_step c w c' w'"
  "tmc_step (c\<lparr>t_session := s\<rparr>) w c' w' = tmc_step c w c' w'"
  by (simp_all add: tmc_step_def)

lemma tmc_step_clock: "now_ms w = (n, w1) \<Longrightarrow> tmc_step c w1 c' w' \<Longrightarrow> tmc_step c w c' w'"
  using tmc_step_trans [OF tmc_step_refl [OF same_env_now refl refl]] by (metis snd_conv)

lemma refuse_step: "refuse ctx m code text w = (rc, ctx', w') \<Longrightarrow> tmc_step ctx w ctx' w'"
  by (auto simp: refuse_def send_simple_resp_def intro: tmc_step_refl send_step split: prod.splits)

lemma request_step:
  assumes "handle_req_message ctx m w = (rc, ctx', w')"
  shows "tmc_step ctx w ctx' w'"
proof -
  have acc: "accept_and_announce (ctx\<lparr>t_state := st, t_started := n\<rparr>) m v = (rc, ctx', w') \<Longrightarrow> tmc_step ctx v ctx' w'" for st n v
    using accept_step [of "ctx\<lparr>t_state := st, t_started := n\<rparr>" m v rc ctx' w'] by simp
  show ?thesis using assms
    by (auto simp: handle_req_message_def send_status_resp_def
        intro: tmc_step_clock tmc_step_refl send_step split: if_splits msg_type.splits prod.splits
        dest!: acc refuse_step)
qed

lemma tmc_lines_step: "tmc_lines ctx w = (ctx', w') \<Longrightarrow> tmc_step ctx w ctx' w'"
proof -
  assume l: "tmc_lines ctx w = (ctx', w')"
  have "tmc_step ctx w (fst (tmc_lines ctx w)) (snd (tmc_lines ctx w))"
    by (rule tmc_lines_rule [where P = "tmc_step ctx w" and Q = "\<lambda>_. True"])
      (auto simp: tmc_step_def [of _ _ "_\<lparr>t_session := _\<rparr>"] intro: tmc_step_trans request_step tmc_step_refl
        simp flip: tmc_step_def)
  with l show ?thesis by simp
qed

text \<open>The tick: what it sends, and the age of the last status event after it.\<close>

lemma tick_step:
  assumes "tick_state_machine ctx w = (ctx', w')"
  shows "tmc_step ctx w ctx' w'"
proof -
  obtain now w1 where n: "now_ms w = (now, w1)" by fastforce
  let ?fire = "t_state ctx = TMC_TRANSFERRING \<and> 0 < t_started ctx \<and> 2000 \<le> now - t_started ctx"
  let ?e = "if ?fire then snd (send_status_evt (ctx\<lparr>t_state := TMC_DONE, t_started := 0\<rparr>) w1) else (ctx, w1)"
  obtain c2 w2 where e: "?e = (c2, w2)" by fastforce
  have 1: "tmc_step ctx w1 c2 w2"
    using e status_evt_step [of "ctx\<lparr>t_state := TMC_DONE, t_started := 0\<rparr>" w1 _ c2 w2]
    by (cases "send_status_evt (ctx\<lparr>t_state := TMC_DONE, t_started := 0\<rparr>) w1") (auto intro: tmc_step_refl split: if_splits)
  have 2: "tmc_step c2 w2 ctx' w'"
    using assms n e status_evt_step [of c2 w2 _ ctx' w']
    by (cases "send_status_evt c2 w2") (auto simp: tick_state_machine_def intro: tmc_step_refl split: if_splits)
  show ?thesis by (rule tmc_step_clock [OF n tmc_step_trans [OF 1 2]])
qed

lemma iteration_step: "tmc_iteration r ctx w = (True, ctx', w') \<Longrightarrow> tmc_step ctx w ctx' w'"
proof (cases r)
  case (RecvData bs)
  assume it: "tmc_iteration r ctx w = (True, ctx', w')"
  then obtain s where s: "session_feed (t_session ctx) bs = Some s"
    by (auto simp: tmc_iteration_def RecvData split: option.splits)
  obtain c1 w1 where l: "tmc_lines (ctx\<lparr>t_session := s\<rparr>) w = (c1, w1)" by fastforce
  have "tick_state_machine c1 w1 = (ctx', w')" using it RecvData s l by (simp add: tmc_iteration_def)
  from tmc_step_trans [OF tmc_lines_step [OF l] tick_step [OF this]] show ?thesis by simp
qed (auto simp: tmc_iteration_def intro: tick_step)

lemma send_status_evt_ok:
  assumes "0 \<le> t_sock ctx" and "all_writes_ok w"
  shows "\<exists>w'. send_status_evt ctx w = (0, ctx\<lparr>t_last_sent := fst (now_ms w)\<rparr>, w')"
  using assms by (simp add: send_status_evt_def tmc_send_message_def now_ms_def)

lemma env_writes_ok: "same_env w w' \<Longrightarrow> all_writes_ok w' = all_writes_ok w"
  by (simp add: same_env_def all_writes_ok_def)

lemma tick_heartbeat:
  assumes "0 \<le> t_sock ctx" and "all_writes_ok w" and "monotone_clock w"
    and "tick_state_machine ctx w = (ctx', w')"
  shows "fst (now_ms w) - t_last_sent ctx' < 1000"
proof -
  obtain now w1 where n: "now_ms w = (now, w1)" by fastforce
  let ?c = "ctx\<lparr>t_state := TMC_DONE, t_started := 0\<rparr>"
  let ?fire = "t_state ctx = TMC_TRANSFERRING \<and> 0 < t_started ctx \<and> 2000 \<le> now - t_started ctx"
  obtain c2 w2 where e: "(if ?fire then snd (send_status_evt ?c w1) else (ctx, w1)) = (c2, w2)" by fastforce
  have n1: "same_env w w1" using same_env_now [of w] n by simp
  have "tmc_step ctx w1 c2 w2"
    using e status_evt_step [of ?c w1 _ c2 w2]
    by (cases "send_status_evt ?c w1") (auto intro: tmc_step_refl split: if_splits)
  then have c2: "same_env w w2" "0 \<le> t_sock c2" using assms(1) same_env_trans [OF n1] by (simp_all add: tmc_step_def)
  from send_status_evt_ok [OF c2(2), of w2] env_writes_ok [OF c2(1)] assms(2) obtain v where
    v: "send_status_evt c2 w2 = (0, c2\<lparr>t_last_sent := fst (now_ms w2)\<rparr>, v)" by auto
  have "ctx' = (if 1000 \<le> now - t_last_sent c2 then c2\<lparr>t_last_sent := fst (now_ms w2)\<rparr> else c2)"
    using assms(4) n e v by (auto simp: tick_state_machine_def split: if_splits)
  with clock_advances [OF c2(1) assms(3)] n show ?thesis by (auto split: if_splits)
qed

lemma iteration_tick:
  assumes "tmc_iteration r ctx w = (True, ctx', w')"
  obtains c1 w1 where "tmc_step ctx w c1 w1" and "tick_state_machine c1 w1 = (ctx', w')"
proof (cases r)
  case (RecvData bs)
  with assms obtain s where s: "session_feed (t_session ctx) bs = Some s"
    by (auto simp: tmc_iteration_def split: option.splits)
  obtain c1 w1 where l: "tmc_lines (ctx\<lparr>t_session := s\<rparr>) w = (c1, w1)" by fastforce
  have "tick_state_machine c1 w1 = (ctx', w')" using assms RecvData s l by (simp add: tmc_iteration_def)
  with tmc_lines_step [OF l] show ?thesis using that by simp
qed (use assms that [OF tmc_step_refl [OF same_env_refl refl refl]] in \<open>auto simp: tmc_iteration_def\<close>)

text \<open>
  C32: The heartbeat: every round of the loop that does not end the process, whatever it receives, ends
  with a last status event that is less than one second older than the clock was at the beginning
  of the round, given a healthy socket and a clock that does not run backwards.  And the time of
  the last status event is only moved by writing one: when a round changes it, a status event of
  the controller is among the lines of that round.
\<close>

theorem status_heartbeat:
  assumes "0 \<le> t_sock ctx" and "all_writes_ok w" and "monotone_clock w"
    and "tmc_iteration r ctx w = (True, ctx', w')"
  shows "fst (now_ms w) - t_last_sent ctx' < 1000
     \<and> (t_last_sent ctx' \<noteq> t_last_sent ctx \<longrightarrow> (\<exists>st. announced (t_sock ctx) st w w'))"
proof -
  obtain c1 w1 where s: "tmc_step ctx w c1 w1" and t: "tick_state_machine c1 w1 = (ctx', w')"
    by (rule iteration_tick [OF assms(4)])
  have e: "same_env w w1" "0 \<le> t_sock c1" using s assms(1) by (simp_all add: tmc_step_def)
  note m = clock_advances [OF e(1) assms(3)]
  have "fst (now_ms w1) - t_last_sent ctx' < 1000"
    using tick_heartbeat [OF e(2) _ _ t] env_writes_ok [OF e(1)] assms(2) m by blast
  with m iteration_step [OF assms(4)] show ?thesis by (auto simp: tmc_step_def)
qed

section \<open>A transfer\<close>

text \<open>
  Several rounds of the loop, \<open>None\<close> when it was left; and rounds that do not disturb a transfer: they
  end without closing the connection and bring no START, STOP or FAULT request.  STATUS and RESET
  requests, responses, events, unknown lines and parts of lines may arrive.
\<close>

fun tmc_rounds :: "recv_result list \<Rightarrow> tmc_ctx \<Rightarrow> world \<Rightarrow> (tmc_ctx \<times> world) option" where
  "tmc_rounds [] ctx w = Some (ctx, w)"
| "tmc_rounds (r # rs) ctx w =
     (case tmc_iteration r ctx w of (go, ctx1, w1) \<Rightarrow> if go then tmc_rounds rs ctx1 w1 else None)"

definition undisturbing :: "message \<Rightarrow> bool" where
  "undisturbing m \<longleftrightarrow> \<not> (m_role m = ROLE_REQ \<and> m_type m \<in> {TYPE_START, TYPE_STOP, TYPE_FAULT})"

definition calm_line :: "bytes \<Rightarrow> bool" where
  "calm_line l \<longleftrightarrow> (case line_parse l of None \<Rightarrow> True | Some m \<Rightarrow> undisturbing m)"

definition calm_round :: "recv_result \<Rightarrow> tmc_ctx \<Rightarrow> bool" where
  "calm_round r ctx \<longleftrightarrow>
     (case r of
        RecvData bs \<Rightarrow> (case session_feed (t_session ctx) bs of None \<Rightarrow> False
                       | Some s \<Rightarrow> list_all calm_line (fst (session_drain s TMC_BUF)))
      | RecvAgain \<Rightarrow> True | _ \<Rightarrow> False)"

fun calm_rounds :: "recv_result list \<Rightarrow> tmc_ctx \<Rightarrow> world \<Rightarrow> bool" where
  "calm_rounds [] ctx w = True"
| "calm_rounds (r # rs) ctx w =
     (calm_round r ctx \<and> (case tmc_iteration r ctx w of (go, ctx1, w1) \<Rightarrow> calm_rounds rs ctx1 w1))"

text \<open>
  The invariant of a transfer that was started at \<open>t\<close> in the world \<open>u\<close>: it is still running, or it is
  over, the two seconds have passed and the new state was announced.
\<close>

definition transfer_since :: "int \<Rightarrow> int \<Rightarrow> world \<Rightarrow> tmc_ctx \<Rightarrow> world \<Rightarrow> bool" where
  "transfer_since t sock u ctx w \<longleftrightarrow> same_env u w \<and> t_sock ctx = sock
     \<and> (t_state ctx = TMC_TRANSFERRING \<and> t_started ctx = t
      \<or> t_state ctx = TMC_DONE \<and> t + 2000 \<le> fst (now_ms w)
          \<and> (0 \<le> sock \<and> all_writes_ok u \<longrightarrow> announced sock TMC_DONE u w))"

lemma undisturbed_request:
  assumes "handle_req_message ctx m w = (rc, ctx', w')" and "undisturbing m"
    and "t_state ctx = TMC_TRANSFERRING \<or> t_state ctx = TMC_DONE"
  shows "t_state ctx' = t_state ctx \<and> t_started ctx' = t_started ctx"
  using assms by (auto simp: handle_req_message_def undisturbing_def refuse_def split: prod.splits if_splits msg_type.splits)

lemma transfer_request:
  assumes "monotone_clock u" and "transfer_since t sock u ctx w" and "undisturbing m"
    and "handle_req_message ctx m w = (rc, ctx', w')"
  shows "transfer_since t sock u ctx' w'"
proof -
  have s: "same_env w w'" "t_sock ctx' = t_sock ctx" using request_step [OF assms(4)] by (simp_all add: tmc_step_def)
  have u: "same_env u w" using assms(2) by (simp add: transfer_since_def)
  have c: "fst (now_ms w) \<le> fst (now_ms w')" using clock_advances [OF s(1)] clock_advances [OF u assms(1)] by blast
  have q: "t_state ctx' = t_state ctx \<and> t_started ctx' = t_started ctx"
    using undisturbed_request [OF assms(4,3)] assms(2) by (auto simp: transfer_since_def)
  have "announced sock TMC_DONE u w'" if "announced sock TMC_DONE u w" by (rule announced_still [OF that s(1)])
  then show ?thesis using assms(2) s c q same_env_trans [OF u s(1)] by (auto simp: transfer_since_def)
qed

lemma transfer_lines:
  assumes "monotone_clock u" and "transfer_since t sock u ctx w"
    and "list_all calm_line (fst (session_drain (t_session ctx) TMC_BUF))"
    and "tmc_lines ctx w = (ctx', w')"
  shows "transfer_since t sock u ctx' w'"
proof -
  have "transfer_since t sock u (fst (tmc_lines ctx w)) (snd (tmc_lines ctx w))"
    by (rule tmc_lines_rule [where P = "transfer_since t sock u" and Q = undisturbing, OF transfer_request [OF assms(1)]])
      (use assms(2,3) in \<open>auto simp: transfer_since_def calm_line_def list_all_iff split: option.splits\<close>)
  with assms(4) show ?thesis by simp
qed

lemma evt_announces:
  assumes "send_status_evt ctx w = (0, ctx', w')"
  shows "announced (t_sock ctx) (t_state ctx) w w'"
proof -
  obtain rc1 w1 where s: "tmc_send_message (t_sock ctx) (tmc_status_evt (t_state ctx)) w = (rc1, w1)" by fastforce
  have r: "rc1 = 0" "w' = snd (now_ms w1)" using assms s by (auto simp: send_status_evt_def split: if_splits prod.splits)
  show ?thesis using announced_still [OF send_announces same_env_now] s r by blast
qed

lemma tick_announces:
  assumes "0 \<le> t_sock ctx" and "all_writes_ok w" and "tick_state_machine ctx w = (ctx', w')"
    and "t_state ctx = TMC_TRANSFERRING" and "0 < t_started ctx" and "2000 \<le> fst (now_ms w) - t_started ctx"
  shows "announced (t_sock ctx) TMC_DONE w w'"
proof -
  obtain now w1 where n: "now_ms w = (now, w1)" by fastforce
  have n1: "same_env w w1" using same_env_now [of w] n by simp
  let ?c = "ctx\<lparr>t_state := TMC_DONE, t_started := 0\<rparr>"
  obtain c2 w2 where e: "send_status_evt ?c w1 = (0, c2, w2)"
    using send_status_evt_ok [of ?c w1] env_writes_ok [OF n1] assms(1,2) by auto
  have a: "announced (t_sock ctx) TMC_DONE w w2" using announced_later [OF evt_announces [OF e] n1] by simp
  have "tmc_step c2 w2 ctx' w'"
    using assms(3-6) n e status_evt_step [of c2 w2 _ ctx' w']
    by (cases "send_status_evt c2 w2") (auto simp: tick_state_machine_def intro: tmc_step_refl split: if_splits)
  with announced_still [OF a] show ?thesis by (simp add: tmc_step_def)
qed

lemma transfer_tick:
  assumes "monotone_clock u" and "transfer_since t sock u ctx w" and "0 < t"
    and "tick_state_machine ctx w = (ctx', w')"
  shows "transfer_since t sock u ctx' w' \<and> (t + 2000 \<le> fst (now_ms w) \<longrightarrow> t_state ctx' = TMC_DONE)"
proof -
  have s: "same_env w w'" "t_sock ctx' = t_sock ctx" using tick_step [OF assms(4)] by (simp_all add: tmc_step_def)
  have u: "same_env u w" "same_env u w'" "t_sock ctx = sock"
    using assms(2) same_env_trans [OF _ s(1)] by (simp_all add: transfer_since_def)
  have c: "fst (now_ms w) \<le> fst (now_ms w')" using clock_advances [OF s(1)] clock_advances [OF u(1) assms(1)] by blast
  have a: "announced sock TMC_DONE u w'" if "announced sock TMC_DONE u w" by (rule announced_still [OF that s(1)])
  have b: "announced sock TMC_DONE u w'" if "t_state ctx = TMC_TRANSFERRING" "t_started ctx = t" "t + 2000 \<le> fst (now_ms w)"
      "0 \<le> sock" "all_writes_ok u"
    using announced_later [OF tick_announces [OF _ _ assms(4)] u(1)] that assms(3) u(3) env_writes_ok [OF u(1)] by simp
  show ?thesis using tick_state [OF assms(4)] assms(2,3) s(2) u c a b
    by (cases "t_state ctx") (auto simp: transfer_since_def split: if_splits)
qed

text \<open>One undisturbed round, and several.\<close>

lemma transfer_round:
  assumes "monotone_clock u" and "transfer_since t sock u ctx w" and "0 < t" and "calm_round r ctx"
    and "tmc_iteration r ctx w = (go, ctx', w')"
  shows "go \<and> transfer_since t sock u ctx' w' \<and> (t + 2000 \<le> fst (now_ms w) \<longrightarrow> t_state ctx' = TMC_DONE)"
proof (cases r)
  case (RecvData bs)
  with assms(4) obtain s where s: "session_feed (t_session ctx) bs = Some s"
    and l: "list_all calm_line (fst (session_drain s TMC_BUF))"
    by (auto simp: calm_round_def split: option.splits)
  let ?c = "ctx\<lparr>t_session := s\<rparr>"
  obtain c1 w1 where x: "tmc_lines ?c w = (c1, w1)" by fastforce
  have t: "go" "tick_state_machine c1 w1 = (ctx', w')" using assms(5) RecvData s x by (auto simp: tmc_iteration_def)
  have "transfer_since t sock u ?c w" using assms(2) by (simp add: transfer_since_def)
  from transfer_lines [OF assms(1) this _ x] l have "transfer_since t sock u c1 w1" by simp
  note k = transfer_tick [OF assms(1) this assms(3) t(2)]
  have "same_env w w1" using tmc_lines_step [OF x] by (simp add: tmc_step_def)
  moreover have "monotone_clock w" using clock_advances assms(1,2) by (auto simp: transfer_since_def)
  ultimately have "fst (now_ms w) \<le> fst (now_ms w1)" using clock_advances by blast
  with k t(1) show ?thesis by auto
next
  case RecvAgain
  with transfer_tick [OF assms(1-3)] assms(5) show ?thesis by (auto simp: tmc_iteration_def)
qed (use assms(4) in \<open>simp_all add: calm_round_def\<close>)

lemma transfer_rounds:
  assumes "monotone_clock u" and "0 < t"
  shows "transfer_since t sock u ctx w \<Longrightarrow> calm_rounds rs ctx w \<Longrightarrow>
    \<exists>ctx' w'. tmc_rounds rs ctx w = Some (ctx', w') \<and> transfer_since t sock u ctx' w'"
proof (induction rs arbitrary: ctx w)
  case (Cons r rs)
  obtain go c1 w1 where i: "tmc_iteration r ctx w = (go, c1, w1)" by (metis prod_cases3)
  from Cons.prems i have "calm_round r ctx" "calm_rounds rs c1 w1" by simp_all
  with transfer_round [OF assms(1) Cons.prems(1) assms(2) _ i] Cons.IH [of c1 w1] i show ?case by simp
qed simp

text \<open>The request that starts it: the clock reading of START is the start of the transfer.\<close>

lemma start_request:
  assumes "handle_req_message ctx m w = (rc, ctx', w')" and "m_role m = ROLE_REQ" and "m_type m = TYPE_START"
    and "t_state ctx \<in> {TMC_IDLE, TMC_DONE}"
  shows "transfer_since (fst (now_ms w)) (t_sock ctx) w ctx' w' \<and> w_ticks w < w_ticks w'"
proof -
  obtain now w1 where n: "now_ms w = (now, w1)" by fastforce
  let ?c = "ctx\<lparr>t_state := TMC_TRANSFERRING, t_started := now\<rparr>"
  have a: "accept_and_announce ?c m w1 = (rc, ctx', w')"
    using assms n by (auto simp: handle_req_message_def)
  have "same_env w1 w'" using accept_step [OF a] by (simp add: tmc_step_def)
  moreover have "w_ticks w < w_ticks w1" using n by (auto simp: now_ms_def)
  ultimately show ?thesis
    using accept_session [OF a] request_step [OF assms(1)] n
    by (auto simp: transfer_since_def tmc_step_def same_env_def)
qed

lemma start_lines:
  assumes l: "fst (session_drain (t_session ctx) TMC_BUF) = l # ls" and p: "line_parse l = Some m"
    and m: "m_role m = ROLE_REQ" "m_type m = TYPE_START" "m_has_dev m \<longrightarrow> m_dev m = TMC_DEV_ID"
    and st: "t_state ctx \<in> {TMC_IDLE, TMC_DONE}" and ls: "list_all calm_line ls" and mono: "monotone_clock w"
    and run: "tmc_lines ctx w = (ctx', w')"
  shows "transfer_since (fst (now_ms w)) (t_sock ctx) w ctx' w' \<and> w_ticks w < w_ticks w'"
proof -
  obtain s1 where pop: "session_pop_line (t_session ctx) TMC_BUF = PopLine l s1"
  proof (cases "session_pop_line (t_session ctx) TMC_BUF")
    case (PopLine l' s1)
    with session_drain_line [OF PopLine] l that show ?thesis by simp
  qed (use l session_drain_stop [of "t_session ctx" TMC_BUF] in simp_all)
  obtain rc c2 w2 where h: "handle_req_message (ctx\<lparr>t_session := s1\<rparr>) m w = (rc, c2, w2)" by (metis prod_cases3)
  have t: "transfer_since (fst (now_ms w)) (t_sock ctx) w c2 w2" "w_ticks w < w_ticks w2"
    using start_request [OF h m(1,2)] st by simp_all
  have r: "(ctx', w') = (if rc < 0 then (c2, w2) else tmc_lines c2 w2)"
    using run pop p m h by (subst (asm) tmc_lines.simps) (auto simp: is_register_ack_def)
  have d: "list_all calm_line (fst (session_drain (t_session c2) TMC_BUF))"
    using session_drain_line [OF pop] l ls handle_req_session [OF h] by simp
  obtain c3 w3 where x: "tmc_lines c2 w2 = (c3, w3)" by fastforce
  have "w_ticks w2 \<le> w_ticks w3" using tmc_lines_step [OF x] by (simp add: tmc_step_def same_env_def)
  with transfer_lines [OF mono t(1) d x] t r x show ?thesis by (auto split: if_splits)
qed

text \<open>
  C31: A transfer ends by itself.  A round brings a START request (its first line) while the controller
  is IDLE or DONE; then follow any number of rounds, with or without data, that bring no START, STOP
  or FAULT request, whether or not lines can be sent.  The loop is not left; the controller is
  TRANSFERRING as long as the clock stands less than two seconds after the reading made for the
  START; and a round that begins two seconds or more after it, or a later one, leaves it DONE, with
  the DONE event written when the socket is healthy.  The clock does not run backwards, and its
  reading for the START is positive (the code takes 0 to mean that no transfer runs).
\<close>

theorem transfer_completes:
  assumes "session_feed (t_session ctx) bs = Some s" and "fst (session_drain s TMC_BUF) = l # ls"
    and "line_parse l = Some m" and "m_role m = ROLE_REQ" and "m_type m = TYPE_START"
    and "m_has_dev m \<longrightarrow> m_dev m = TMC_DEV_ID" and "t_state ctx \<in> {TMC_IDLE, TMC_DONE}" and "list_all calm_line ls"
    and "0 < fst (now_ms w)" and "monotone_clock w"
    and "tmc_iteration (RecvData bs) ctx w = (go0, c0, w0)" and "calm_rounds rs c0 w0"
    and "tmc_rounds rs c0 w0 = Some (c1, w1)" and "calm_round r c1" and "tmc_iteration r c1 w1 = (go, c2, w2)"
  shows "go0 \<and> go
     \<and> (fst (now_ms w2) < fst (now_ms w) + 2000 \<longrightarrow> t_state c2 = TMC_TRANSFERRING)
     \<and> (fst (now_ms w) + 2000 \<le> fst (now_ms w1) \<longrightarrow> t_state c2 = TMC_DONE
          \<and> (0 \<le> t_sock ctx \<and> all_writes_ok w \<longrightarrow> announced (t_sock ctx) TMC_DONE w w2))"
proof -
  let ?t = "transfer_since (fst (now_ms w)) (t_sock ctx) w"
  obtain c w' where x: "tmc_lines (ctx\<lparr>t_session := s\<rparr>) w = (c, w')" by fastforce
  have i: "go0" "tick_state_machine c w' = (c0, w0)" using assms(1,11) x by (simp_all add: tmc_iteration_def)
  have "?t c w'" using start_lines [OF _ assms(3-6) _ assms(8,10) x] assms(2,7) by simp
  then have "?t c0 w0" using transfer_tick [OF assms(10) _ assms(9) i(2)] by blast
  then have "?t c1 w1" using transfer_rounds [OF assms(10,9) _ assms(12)] assms(13) by fastforce
  from transfer_round [OF assms(10) this assms(9,14,15)] have f: "go" "?t c2 w2"
    "fst (now_ms w) + 2000 \<le> fst (now_ms w1) \<longrightarrow> t_state c2 = TMC_DONE" by blast+
  with i(1) show ?thesis by (auto simp: transfer_since_def)
qed

text \<open>
  For the example: a clock that stands at one second for the START and at nine seconds afterwards,
  and the START request as it comes over the wire.
\<close>

definition late_world :: world where
  "late_world = (quiet_world 1)\<lparr>w_clock := \<lambda>n. if n = 0 then (1, 0) else (9, 0)\<rparr>"

definition start_transfer :: message where
  "start_transfer = msg_init\<lparr>m_role := ROLE_REQ, m_type := TYPE_START, m_dev := TMC_DEV_ID, m_has_dev := True,
     m_seq := 8, m_has_seq := True\<rparr>"

text \<open>A line that is received whole is the only line of its round.\<close>

lemma whole_line_round:
  assumes "carriable m" and "no_measurements m" and "session_inv s0" and "pending s0 = []"
  obtains s where "session_feed s0 (wire m) = Some s" and "fst (session_drain s TMC_BUF) = [wire m]"
proof -
  have sh: "LF \<notin> set (line_body m)" "length (line_body m) \<le> 246"
    using line_body_clean [OF assms(1), of LF] length_line_body [of m] assms(1,2) by (auto simp: carriable_def)
  have "session_feed s0 (wire m) \<noteq> None"
    using session_feed_ok_iff [of s0 "wire m"] sh(2) assms(3,4) by (auto simp: wire_def pending_def session_inv_def)
  then obtain s where s: "session_feed s0 (wire m) = Some s" by blast
  from session_feed_Some [OF assms(3) s] assms(4) have sp: "session_inv s" "pending s = line_body m @ LF # []"
    by (simp_all add: wire_def)
  have "fst (session_drain s TMC_BUF) = [wire m]"
    using cap1024.drain_lines [OF sp(1)] split_lines_line [OF sh(1), of "[]"] sh(2) sp(2) by (simp add: wire_def)
  with s that show thesis by blast
qed

theorem transfer_completes_witness:
  "\<exists>c0 w0 c2 w2. tmc_iteration (RecvData (wire start_transfer)) (sample_tmc TMC_IDLE 0) late_world = (True, c0, w0)
     \<and> tmc_iteration RecvAgain c0 w0 = (True, c2, w2) \<and> t_state c2 = TMC_DONE"
proof -
  let ?c = "sample_tmc TMC_IDLE 0"
  have m: "carriable start_transfer" "no_measurements start_transfer" "parsed_ok start_transfer"
    by (simp_all add: start_transfer_def msg_init_def carriable_def parsed_ok_def message_inv_def no_measurements_def message_zero_def)
  have "pending session_zero = []" by (simp add: pending_def session_zero_def)
  then obtain s where s: "session_feed (t_session ?c) (wire start_transfer) = Some s"
    "fst (session_drain s TMC_BUF) = [wire start_transfer]"
    using whole_line_round [OF m(1,2) session_inv_zero] by (auto simp: sample_tmc_def)
  obtain go0 c0 w0 where i0: "tmc_iteration (RecvData (wire start_transfer)) ?c late_world = (go0, c0, w0)" by (metis prod_cases3)
  obtain go c2 w2 where i: "tmc_iteration RecvAgain c0 w0 = (go, c2, w2)" by (metis prod_cases3)
  have f: "m_role start_transfer = ROLE_REQ" "m_type start_transfer = TYPE_START" "m_has_dev start_transfer \<longrightarrow> m_dev start_transfer = TMC_DEV_ID"
    by (simp_all add: start_transfer_def)
  have st: "t_state ?c \<in> {TMC_IDLE, TMC_DONE}" "0 < fst (now_ms late_world)"
    by (simp_all add: sample_tmc_def late_world_def quiet_world_def now_ms_def ms_of_timespec_def)
  have mono: "monotone_clock late_world"
    by (simp add: monotone_clock_def late_world_def ms_of_timespec_def)
  note p = line_parse_wire [OF m(1,3,2)]
  obtain c w where x: "tmc_lines (?c\<lparr>t_session := s\<rparr>) late_world = (c, w)" by fastforce
  have "tick_state_machine c w = (c0, w0)" using i0 s(1) x by (simp add: tmc_iteration_def)
  then have "same_env late_world w0" "w_ticks late_world < w_ticks w0"
    using start_lines [OF _ p f _ _ mono x, of "[]"] s(2) st(1) tmc_lines_step [OF x] tick_step [of c w c0 w0]
      same_env_trans [of late_world w w0] by (simp_all add: tmc_step_def same_env_def)
  then have "fst (now_ms late_world) + 2000 \<le> fst (now_ms w0)"
    by (simp add: same_env_def now_ms_def ms_of_timespec_def late_world_def quiet_world_def)
  with transfer_completes [OF s p f st(1) _ st(2) mono i0 _ _ _ i, of "[]"] i0 i show ?thesis
    by (simp add: calm_round_def)
qed

text \<open>A round with data, for the heartbeat: the line is for another device, the heartbeat is due.\<close>

theorem status_heartbeat_witness:
  "\<exists>c w. tmc_iteration (RecvData (wire sample_status)) (sample_tmc TMC_IDLE 0) (quiet_world 3) = (True, c, w)
     \<and> 2000 < t_last_sent c \<and> (\<exists>st. announced 3 st (quiet_world 3) w)"
proof -
  let ?c = "sample_tmc TMC_IDLE 0"
  have m: "carriable sample_status" "no_measurements sample_status"
    by (simp_all add: carriable_def sample_status_def message_inv_def no_measurements_def message_zero_def clean_Nil)
  have "pending session_zero = []" by (simp add: pending_def session_zero_def)
  then obtain s where "session_feed (t_session ?c) (wire sample_status) = Some s"
    using whole_line_round [OF m session_inv_zero] by (auto simp: sample_tmc_def)
  then obtain c w where h: "tmc_iteration (RecvData (wire sample_status)) ?c (quiet_world 3) = (True, c, w)"
    by (simp add: tmc_iteration_def case_prod_beta) (metis prod.collapse)
  have mono: "monotone_clock (quiet_world 3)" by (simp add: monotone_clock_def quiet_world_def)
  have f: "0 \<le> t_sock ?c" "t_sock ?c = 3" "t_last_sent ?c = 0" "fst (now_ms (quiet_world 3)) = 3000"
    by (simp_all add: sample_tmc_def now_ms_def quiet_world_def ms_of_timespec_def)
  from status_heartbeat [OF f(1) quiet_world_ok mono h] h f(2-4) show ?thesis by auto
qed

text \<open>
  C30: A faulted transfer controller stays faulted through any round in which no RESET request
  arrives: START and STOP requests, responses, events and time do not move it.
\<close>

theorem fault_until_reset:
  assumes "t_state ctx = TMC_FAULT" and "session_feed (t_session ctx) bs = Some s"
    and "\<forall>l \<in> set (fst (session_drain s TMC_BUF)). \<forall>m. line_parse l = Some m \<longrightarrow>
           \<not> (m_role m = ROLE_REQ \<and> m_type m = TYPE_RESET)"
    and "tmc_iteration (RecvData bs) ctx w = (go, ctx', w')"
  shows "t_state ctx' = TMC_FAULT"
proof -
  obtain c1 w1 where l: "tmc_lines (ctx\<lparr>t_session := s\<rparr>) w = (c1, w1)" by fastforce
  have "t_state (fst (tmc_lines (ctx\<lparr>t_session := s\<rparr>) w)) = TMC_FAULT"
  proof (rule tmc_lines_rule [where P = "\<lambda>c w. t_state c = TMC_FAULT"
        and Q = "\<lambda>m. \<not> (m_role m = ROLE_REQ \<and> m_type m = TYPE_RESET)"])
    fix c m v rc c' v'
    assume "t_state c = TMC_FAULT" "\<not> (m_role m = ROLE_REQ \<and> m_type m = TYPE_RESET)"
      and h: "handle_req_message c m v = (rc, c', v')"
    then show "t_state c' = TMC_FAULT"
      using handle_req_state [OF h] by (cases "m_type m") (auto split: if_splits)
  qed (use assms(1,3) in simp_all)
  moreover have "tick_state_machine c1 w1 = (ctx', w')"
    using assms(2,4) l by (simp add: tmc_iteration_def)
  ultimately show ?thesis using tick_state [of c1 w1 ctx' w'] by (simp add: l)
qed

theorem fault_until_reset_witness:
  "t_state (fst (snd (tmc_iteration (RecvData (wire sample_status)) (sample_tmc TMC_FAULT 0) (quiet_world 3)))) = TMC_FAULT"
proof -
  let ?m = "sample_status" and ?c = "sample_tmc TMC_FAULT 0"
  have ca: "carriable ?m" "no_measurements ?m" "message_inv ?m"
    by (simp_all add: carriable_def sample_status_def message_inv_def no_measurements_def message_zero_def clean_Nil)
  have sh: "length (line_body ?m) \<le> 246" using length_line_body [OF ca(3,2)] .
  have "pending session_zero = []" by (simp add: pending_def session_zero_def)
  then obtain s where s: "session_feed (t_session ?c) (wire ?m) = Some s"
    and d: "fst (session_drain s TMC_BUF) = [wire ?m]"
    using whole_line_round [OF ca(1,2) session_inv_zero] by (auto simp: sample_tmc_def)
  have "line_parse (wire ?m) = Some (transferred ?m)"
    using line_parse_body [OF ca(1)] sh by (simp add: wire_def)
  then have f: "\<forall>l \<in> set (fst (session_drain s TMC_BUF)). \<forall>m. line_parse l = Some m \<longrightarrow>
      \<not> (m_role m = ROLE_REQ \<and> m_type m = TYPE_RESET)"
    by (simp add: d transferred_def sample_status_def message_zero_def)
  obtain go c w where h: "tmc_iteration (RecvData (wire ?m)) ?c (quiet_world 3) = (go, c, w)" by (metis prod_cases3)
  have "t_state ?c = TMC_FAULT" by (simp add: sample_tmc_def)
  from fault_until_reset [OF this s f h] show ?thesis by (simp only: h fst_conv snd_conv)
qed

end
