(* ===== verification/Eqd_Devices.thy ===== *)
theory Eqd_Devices
  imports Prelude
begin

text \<open>
  \<^verbatim>\<open>services/equipmentd/src/device_manager.c\<close>: the array of sixteen devices.  A pointer into the
  array is its index; the functions that create a slot on first use return the array as well.
  The reference is the state machine of the last section of \<^verbatim>\<open>docs/protocol/spec.md\<close>, one machine
  per device; \<open>abs_devices\<close> reads the array as such a family of machines.
\<close>

datatype device_state = DEV_STATE_IDLE | DEV_STATE_RUNNING | DEV_STATE_ERROR

record device =
  dv_id :: int
  dv_state :: device_state
  dv_attached_fd :: int
  dv_in_use :: bool

record device_manager =
  dm_devices :: "device list"
  dm_initialized :: bool

abbreviation DEVICE_MANAGER_MAX_DEVICES :: nat where "DEVICE_MANAGER_MAX_DEVICES \<equiv> 16"

fun device_state_to_string :: "device_state \<Rightarrow> string" where
  "device_state_to_string DEV_STATE_IDLE = ''IDLE''"
| "device_state_to_string DEV_STATE_RUNNING = ''RUNNING''"
| "device_state_to_string DEV_STATE_ERROR = ''ERROR''"

definition device_zero :: device where
  "device_zero = \<lparr>dv_id = 0, dv_state = DEV_STATE_IDLE, dv_attached_fd = 0, dv_in_use = False\<rparr>"

definition device_manager_init :: "device_manager \<Rightarrow> device_manager" where
  "device_manager_init mgr =
     \<lparr>dm_devices = replicate DEVICE_MANAGER_MAX_DEVICES device_zero, dm_initialized = True\<rparr>"

definition valid_dev_id :: "int \<Rightarrow> bool" where
  "valid_dev_id dev_id \<longleftrightarrow> 0 \<le> dev_id \<and> dev_id < int DEVICE_MANAGER_MAX_DEVICES"

definition device_manager_get :: "device_manager \<Rightarrow> int \<Rightarrow> nat option" where
  "device_manager_get mgr dev_id =
     (if \<not> valid_dev_id dev_id then None
      else if \<not> dv_in_use (dm_devices mgr ! nat dev_id) then None
      else Some (nat dev_id))"

definition device_manager_ensure :: "device_manager \<Rightarrow> int \<Rightarrow> nat option \<times> device_manager" where
  "device_manager_ensure mgr dev_id =
     (if \<not> valid_dev_id dev_id then (None, mgr)
      else let i = nat dev_id in
           if \<not> dv_in_use (dm_devices mgr ! i)
           then (Some i, mgr\<lparr>dm_devices := (dm_devices mgr)[i := device_zero
                    \<lparr>dv_id := dev_id, dv_state := DEV_STATE_IDLE, dv_attached_fd := - 1, dv_in_use := True\<rparr>]\<rparr>)
           else (Some i, mgr))"

definition device_manager_get_status :: "device_manager \<Rightarrow> int \<Rightarrow> (int \<times> device_state option) \<times> device_manager" where
  "device_manager_get_status mgr dev_id =
     (case device_manager_ensure mgr dev_id of
        (None, mgr1) \<Rightarrow> ((- 1, None), mgr1)
      | (Some i, mgr1) \<Rightarrow> ((0, Some (dv_state (dm_devices mgr1 ! i))), mgr1))"

definition set_state :: "device_manager \<Rightarrow> nat \<Rightarrow> device_state \<Rightarrow> device_manager" where
  "set_state mgr i st = mgr\<lparr>dm_devices := (dm_devices mgr)[i := (dm_devices mgr ! i)\<lparr>dv_state := st\<rparr>]\<rparr>"

definition device_manager_fault :: "device_manager \<Rightarrow> int \<Rightarrow> int \<times> device_manager" where
  "device_manager_fault mgr dev_id =
     (case device_manager_ensure mgr dev_id of
        (None, mgr1) \<Rightarrow> (- 1, mgr1)
      | (Some i, mgr1) \<Rightarrow>
          if dv_state (dm_devices mgr1 ! i) = DEV_STATE_ERROR then (- 2, mgr1)
          else (0, set_state mgr1 i DEV_STATE_ERROR))"

definition device_manager_reset :: "device_manager \<Rightarrow> int \<Rightarrow> int \<times> device_manager" where
  "device_manager_reset mgr dev_id =
     (case device_manager_ensure mgr dev_id of
        (None, mgr1) \<Rightarrow> (- 1, mgr1)
      | (Some i, mgr1) \<Rightarrow>
          if dv_state (dm_devices mgr1 ! i) \<noteq> DEV_STATE_ERROR then (- 2, mgr1)
          else (0, set_state mgr1 i DEV_STATE_IDLE))"

definition device_manager_start :: "device_manager \<Rightarrow> int \<Rightarrow> int \<times> device_manager" where
  "device_manager_start mgr dev_id =
     (case device_manager_ensure mgr dev_id of
        (None, mgr1) \<Rightarrow> (- 1, mgr1)
      | (Some i, mgr1) \<Rightarrow>
          if dv_state (dm_devices mgr1 ! i) \<noteq> DEV_STATE_IDLE then (- 2, mgr1)
          else (0, set_state mgr1 i DEV_STATE_RUNNING))"

definition device_manager_stop :: "device_manager \<Rightarrow> int \<Rightarrow> int \<times> device_manager" where
  "device_manager_stop mgr dev_id =
     (case device_manager_ensure mgr dev_id of
        (None, mgr1) \<Rightarrow> (- 1, mgr1)
      | (Some i, mgr1) \<Rightarrow>
          if dv_state (dm_devices mgr1 ! i) \<noteq> DEV_STATE_RUNNING then (- 2, mgr1)
          else (0, set_state mgr1 i DEV_STATE_IDLE))"

section \<open>The state machine of the specification\<close>

datatype dev_command = CStart | CStop | CFault | CReset

inductive spec_edge :: "device_state \<Rightarrow> dev_command \<Rightarrow> device_state \<Rightarrow> bool" where
  start: "spec_edge DEV_STATE_IDLE CStart DEV_STATE_RUNNING"
| stop: "spec_edge DEV_STATE_RUNNING CStop DEV_STATE_IDLE"
| fault_idle: "spec_edge DEV_STATE_IDLE CFault DEV_STATE_ERROR"
| fault_running: "spec_edge DEV_STATE_RUNNING CFault DEV_STATE_ERROR"
| reset: "spec_edge DEV_STATE_ERROR CReset DEV_STATE_IDLE"

code_pred (modes: i \<Rightarrow> i \<Rightarrow> o \<Rightarrow> bool as next_state, i \<Rightarrow> i \<Rightarrow> i \<Rightarrow> bool) spec_edge .

inductive_simps spec_edge_simps: "spec_edge s c t"

fun device_command :: "dev_command \<Rightarrow> device_manager \<Rightarrow> int \<Rightarrow> int \<times> device_manager" where
  "device_command CStart = device_manager_start"
| "device_command CStop = device_manager_stop"
| "device_command CFault = device_manager_fault"
| "device_command CReset = device_manager_reset"

definition abs_devices :: "device_manager \<Rightarrow> int \<Rightarrow> device_state option" where
  "abs_devices mgr dev_id =
     (if valid_dev_id dev_id
      then Some (if dv_in_use (dm_devices mgr ! nat dev_id) then dv_state (dm_devices mgr ! nat dev_id)
                 else DEV_STATE_IDLE)
      else None)"

text \<open>Sixteen slots, and a slot in use carries its own number.\<close>

definition devices_inv :: "device_manager \<Rightarrow> bool" where
  "devices_inv mgr \<longleftrightarrow> length (dm_devices mgr) = DEVICE_MANAGER_MAX_DEVICES
     \<and> (\<forall>i < DEVICE_MANAGER_MAX_DEVICES. dv_in_use (dm_devices mgr ! i) \<longrightarrow> dv_id (dm_devices mgr ! i) = int i)"

lemma devices_inv_init [simp]: "devices_inv (device_manager_init mgr)"
  by (simp add: devices_inv_def device_manager_init_def device_zero_def)

lemma valid_nat: "valid_dev_id d \<Longrightarrow> nat d < DEVICE_MANAGER_MAX_DEVICES \<and> int (nat d) = d"
  by (auto simp: valid_dev_id_def)

lemma valid_eq_nat: "valid_dev_id d \<Longrightarrow> valid_dev_id e \<Longrightarrow> nat d = nat e \<longleftrightarrow> d = e"
  by (auto simp: valid_dev_id_def)

text \<open>Making sure that a slot exists does not move any machine.\<close>

lemma ensure_invalid: "\<not> valid_dev_id d \<Longrightarrow> device_manager_ensure mgr d = (None, mgr)"
  by (simp add: device_manager_ensure_def)

lemma ensure_valid:
  assumes "devices_inv mgr" and "valid_dev_id d"
  obtains mgr1 where "device_manager_ensure mgr d = (Some (nat d), mgr1)" and "devices_inv mgr1"
    and "dv_in_use (dm_devices mgr1 ! nat d)" and "abs_devices mgr1 = abs_devices mgr"
proof
  let ?m = "snd (device_manager_ensure mgr d)"
  show "device_manager_ensure mgr d = (Some (nat d), ?m)"
    using assms(2) by (simp add: device_manager_ensure_def Let_def)
  show "devices_inv ?m" "dv_in_use (dm_devices ?m ! nat d)" "abs_devices ?m = abs_devices mgr"
    using assms valid_nat [OF assms(2)] valid_eq_nat [OF assms(2)]
    by (auto simp: device_manager_ensure_def devices_inv_def abs_devices_def device_zero_def Let_def
        nth_list_update fun_eq_iff)
qed

lemma set_state_abs:
  assumes "devices_inv mgr" and "valid_dev_id d" and "dv_in_use (dm_devices mgr ! nat d)"
  shows "devices_inv (set_state mgr (nat d) st)"
    and "abs_devices (set_state mgr (nat d) st) = (abs_devices mgr)(d \<mapsto> st)"
  using assms valid_nat [OF assms(2)] valid_eq_nat [OF assms(2)]
  by (auto simp: set_state_def devices_inv_def abs_devices_def nth_list_update fun_eq_iff)

lemma abs_in_use: "valid_dev_id d \<Longrightarrow> dv_in_use (dm_devices mgr ! nat d) \<Longrightarrow>
    abs_devices mgr d = Some (dv_state (dm_devices mgr ! nat d))"
  by (simp add: abs_devices_def)

text \<open>One shape for the four commands.\<close>

fun command_rule :: "dev_command \<Rightarrow> device_state \<Rightarrow> device_state option" where
  "command_rule CStart s = (if s = DEV_STATE_IDLE then Some DEV_STATE_RUNNING else None)"
| "command_rule CStop s = (if s = DEV_STATE_RUNNING then Some DEV_STATE_IDLE else None)"
| "command_rule CFault s = (if s = DEV_STATE_ERROR then None else Some DEV_STATE_ERROR)"
| "command_rule CReset s = (if s = DEV_STATE_ERROR then Some DEV_STATE_IDLE else None)"

lemma command_rule_spec: "spec_edge s c t \<longleftrightarrow> command_rule c s = Some t"
  by (cases c; cases s; cases t) (simp_all add: spec_edge_simps)

lemma device_command_shape:
  "device_command c mgr d =
     (case device_manager_ensure mgr d of
        (None, m) \<Rightarrow> (- 1, m)
      | (Some i, m) \<Rightarrow>
          (case command_rule c (dv_state (dm_devices m ! i)) of
             None \<Rightarrow> (- 2, m) | Some t \<Rightarrow> (0, set_state m i t)))"
  by (cases c) (auto simp: device_manager_start_def device_manager_stop_def device_manager_fault_def
      device_manager_reset_def split: prod.split option.split)

text \<open>
  C39: The device table refines the state machine of the protocol document: each of the four
  commands on a valid device returns 0 and moves that device exactly along an edge of the
  document, or returns -2 and moves nothing when the document has no such edge; it returns -1
  for a device number outside 0..15.  Other devices never move.
\<close>

theorem device_commands_refine_spec:
  assumes "devices_inv mgr" and "device_command c mgr d = (rc, mgr')"
  shows "devices_inv mgr' \<and>
     (case abs_devices mgr d of
        None \<Rightarrow> rc = - 1 \<and> abs_devices mgr' = abs_devices mgr
      | Some s \<Rightarrow>
          (rc = 0 \<and> (\<exists>t. spec_edge s c t \<and> abs_devices mgr' = (abs_devices mgr)(d \<mapsto> t)))
        \<or> (rc = - 2 \<and> (\<nexists>t. spec_edge s c t) \<and> abs_devices mgr' = abs_devices mgr))"
proof (cases "valid_dev_id d")
  case False
  with assms show ?thesis by (auto simp: device_command_shape ensure_invalid abs_devices_def)
next
  case True
  obtain m where e: "device_manager_ensure mgr d = (Some (nat d), m)" and m: "devices_inv m"
      "dv_in_use (dm_devices m ! nat d)" "abs_devices m = abs_devices mgr"
    by (rule ensure_valid [OF assms(1) True])
  have a: "abs_devices mgr d = Some (dv_state (dm_devices m ! nat d))"
    using abs_in_use [OF True m(2)] m(3) by simp
  show ?thesis
    using assms(2) set_state_abs [OF m(1) True m(2)] m(1,3)
    by (auto simp: a command_rule_spec device_command_shape e split: option.splits)
qed

theorem device_commands_refine_spec_witness:
  "abs_devices (snd (device_manager_start (device_manager_init undefined) 3)) 3 = Some DEV_STATE_RUNNING"
proof -
  let ?m = "device_manager_init undefined"
  obtain rc m where h: "device_command CStart ?m 3 = (rc, m)" by fastforce
  have "abs_devices ?m 3 = Some DEV_STATE_IDLE"
    by (simp add: abs_devices_def valid_dev_id_def device_manager_init_def device_zero_def)
  with device_commands_refine_spec [OF devices_inv_init h] have "abs_devices m 3 = Some DEV_STATE_RUNNING"
    by (auto simp: spec_edge_simps)
  then show ?thesis using h by simp
qed

text \<open>The status query reports the abstract state and moves nothing.\<close>

lemma device_status_reports:
  assumes "devices_inv mgr"
  shows "fst (device_manager_get_status mgr d) =
      (case abs_devices mgr d of None \<Rightarrow> (- 1, None) | Some s \<Rightarrow> (0, Some s))
    \<and> abs_devices (snd (device_manager_get_status mgr d)) = abs_devices mgr"
proof (cases "valid_dev_id d")
  case False
  then show ?thesis by (simp add: device_manager_get_status_def ensure_invalid abs_devices_def)
next
  case True
  obtain m where e: "device_manager_ensure mgr d = (Some (nat d), m)"
      and m: "dv_in_use (dm_devices m ! nat d)" "abs_devices m = abs_devices mgr"
    by (rule ensure_valid [OF assms True])
  from abs_in_use [OF True m(1)] m(2) show ?thesis by (simp add: device_manager_get_status_def e)
qed

lemma device_get_iff_in_use:
  "device_manager_get mgr d = Some i \<longleftrightarrow> valid_dev_id d \<and> i = nat d \<and> dv_in_use (dm_devices mgr ! i)"
  by (auto simp: device_manager_get_def)

end
