(* ===== verification/Eqd_Registry.thy ===== *)
theory Eqd_Registry
  imports Message Os
begin

text \<open>
  \<^verbatim>\<open>services/equipmentd/src/module_registry.c\<close>: what the daemon knows of its three modules.  The
  operations take the module and return it updated; \<^verbatim>\<open>module_registry_dump\<close> only prints.
\<close>

datatype module_type = MODULE_UNKNOWN | MODULE_TMC | MODULE_PMC

record module_info =
  mi_registered :: bool
  mi_type :: module_type
  mi_dev :: i32
  mi_busy :: bool
  mi_name :: string
  mi_current_state :: string
  mi_has_state :: bool
  mi_temp :: cdouble
  mi_pressure :: cdouble
  mi_flow :: cdouble
  mi_has_telemetry :: bool
  mi_last_update_ms :: int
  mi_last_status_ms :: int
  mi_last_telemetry_ms :: int
  mi_last_state_change_ms :: int
  mi_healthy :: bool
  mi_fault_latched :: bool

record module_registry =
  rg_tmc :: module_info
  rg_pmc_preclean :: module_info
  rg_pmc_deposition :: module_info

abbreviation NAME_CAP :: nat where "NAME_CAP \<equiv> 32"

definition module_zero :: module_info where
  "module_zero =
     \<lparr>mi_registered = False, mi_type = MODULE_UNKNOWN, mi_dev = 0, mi_busy = False, mi_name = [],
      mi_current_state = [], mi_has_state = False, mi_temp = DFin False 0, mi_pressure = DFin False 0,
      mi_flow = DFin False 0, mi_has_telemetry = False, mi_last_update_ms = 0, mi_last_status_ms = 0,
      mi_last_telemetry_ms = 0, mi_last_state_change_ms = 0, mi_healthy = False, mi_fault_latched = False\<rparr>"

definition module_registry_init :: module_registry where
  "module_registry_init = \<lparr>rg_tmc = module_zero, rg_pmc_preclean = module_zero, rg_pmc_deposition = module_zero\<rparr>"

definition module_registry_touch :: "module_info \<Rightarrow> int \<Rightarrow> module_info" where
  "module_registry_touch m now = m\<lparr>mi_last_update_ms := now, mi_healthy := True\<rparr>"

text \<open>The new state, a null pointer in C, is \<open>None\<close> here; it is compared, never stored.\<close>

definition module_registry_touch_status :: "module_info \<Rightarrow> int \<Rightarrow> string option \<Rightarrow> module_info" where
  "module_registry_touch_status m now new_state =
     (let m1 = (case new_state of
                  None \<Rightarrow> m
                | Some st \<Rightarrow>
                    if mi_has_state m
                    then (if mi_current_state m \<noteq> st then m\<lparr>mi_last_state_change_ms := now\<rparr> else m)
                    else m\<lparr>mi_last_state_change_ms := now\<rparr>)
      in m1\<lparr>mi_last_update_ms := now, mi_last_status_ms := now, mi_healthy := True\<rparr>)"

definition module_registry_touch_telemetry :: "module_info \<Rightarrow> int \<Rightarrow> module_info" where
  "module_registry_touch_telemetry m now =
     m\<lparr>mi_last_update_ms := now, mi_last_telemetry_ms := now, mi_healthy := True\<rparr>"

definition module_registry_is_stale :: "module_info \<Rightarrow> int \<Rightarrow> int \<Rightarrow> bool" where
  "module_registry_is_stale m now stale_ms =
     (if \<not> mi_registered m then True
      else if mi_last_update_ms m \<le> 0 then True
      else stale_ms < now - mi_last_update_ms m)"

section \<open>Which module a device number means\<close>

text \<open>
  The tests \<^verbatim>\<open>dev == 100\<close>, \<^verbatim>\<open>dev == 1\<close>, \<^verbatim>\<open>dev == 2\<close> of the event handlers pick a field of the
  registry; \<open>update_module\<close> writes through the pointer they pick.
\<close>

datatype module_key = KTmc | KPreclean | KDeposition

definition module_of_dev :: "u32 \<Rightarrow> module_key option" where
  "module_of_dev dev =
     (if dev = 100 then Some KTmc else if dev = 1 then Some KPreclean else if dev = 2 then Some KDeposition else None)"

fun target_name :: "module_key \<Rightarrow> string" where
  "target_name KTmc = ''tmc''"
| "target_name KPreclean = ''pmc_preclean''"
| "target_name KDeposition = ''pmc_deposition''"

fun get_module :: "module_key \<Rightarrow> module_registry \<Rightarrow> module_info" where
  "get_module KTmc r = rg_tmc r"
| "get_module KPreclean r = rg_pmc_preclean r"
| "get_module KDeposition r = rg_pmc_deposition r"

fun update_module :: "module_key \<Rightarrow> (module_info \<Rightarrow> module_info) \<Rightarrow> module_registry \<Rightarrow> module_registry" where
  "update_module KTmc f r = r\<lparr>rg_tmc := f (rg_tmc r)\<rparr>"
| "update_module KPreclean f r = r\<lparr>rg_pmc_preclean := f (rg_pmc_preclean r)\<rparr>"
| "update_module KDeposition f r = r\<lparr>rg_pmc_deposition := f (rg_pmc_deposition r)\<rparr>"

lemma get_update_module [simp]: "get_module k (update_module j f r) = (if k = j then f (get_module k r) else get_module k r)"
  by (cases k; cases j) simp_all

lemma registry_eqI: "(\<And>k. get_module k r = get_module k q) \<Longrightarrow> r = q"
  using get_module.simps by (metis module_registry.equality unit.exhaust)

lemma get_module_init [simp]: "get_module k module_registry_init = module_zero"
  by (cases k) (simp_all add: module_registry_init_def)

text \<open>\<open>refresh_module_health\<close> of \<^verbatim>\<open>main.c\<close>: one reading of the clock for the three modules.\<close>

abbreviation MODULE_STALE_MS :: int where "MODULE_STALE_MS \<equiv> 3000"

definition refresh_module_health :: "module_registry \<Rightarrow> world \<Rightarrow> module_registry \<times> world" where
  "refresh_module_health reg w =
     (case now_ms w of (now, w1) \<Rightarrow>
        (reg\<lparr>rg_pmc_preclean := (rg_pmc_preclean reg)
               \<lparr>mi_healthy := \<not> module_registry_is_stale (rg_pmc_preclean reg) now MODULE_STALE_MS\<rparr>,
             rg_pmc_deposition := (rg_pmc_deposition reg)
               \<lparr>mi_healthy := \<not> module_registry_is_stale (rg_pmc_deposition reg) now MODULE_STALE_MS\<rparr>,
             rg_tmc := (rg_tmc reg)
               \<lparr>mi_healthy := \<not> module_registry_is_stale (rg_tmc reg) now MODULE_STALE_MS\<rparr>\<rparr>, w1))"

lemma refresh_get [simp]:
  "get_module k (fst (refresh_module_health reg w)) =
     (get_module k reg)\<lparr>mi_healthy := \<not> module_registry_is_stale (get_module k reg) (fst (now_ms w)) MODULE_STALE_MS\<rparr>"
  by (cases k) (simp_all add: refresh_module_health_def case_prod_beta)

text \<open>
  A module is healthy after a refresh exactly when it has been heard of within three seconds, and
  the two \<open>touch\<close> operations make it so.
\<close>

lemma touched_is_fresh:
  assumes "mi_registered m" and "0 < now"
  shows "module_registry_is_stale (module_registry_touch_status m now st) t MODULE_STALE_MS \<longleftrightarrow> MODULE_STALE_MS < t - now"
    and "module_registry_is_stale (module_registry_touch_telemetry m now) t MODULE_STALE_MS \<longleftrightarrow> MODULE_STALE_MS < t - now"
  using assms by (simp_all add: module_registry_is_stale_def module_registry_touch_status_def
      module_registry_touch_telemetry_def Let_def split: option.split)

text \<open>Neither of the two fields the scheduler reads is ever written by an operation of the registry.\<close>

lemma touch_state_fields [simp]:
  "mi_has_state (module_registry_touch m now) = mi_has_state m"
  "mi_has_state (module_registry_touch_status m now st) = mi_has_state m"
  "mi_has_state (module_registry_touch_telemetry m now) = mi_has_state m"
  "mi_current_state (module_registry_touch_status m now st) = mi_current_state m"
  by (simp_all add: module_registry_touch_def module_registry_touch_status_def module_registry_touch_telemetry_def
      Let_def split: option.split)

end
