(* ===== verification/Eqd_Router.thy ===== *)
theory Eqd_Router
  imports Eqd_Registry Line_Codec
begin

text \<open>
  \<^verbatim>\<open>services/equipmentd/src/router.c\<close>: what becomes of a parsed message.  \<open>router_handle\<close> returns the
  C result (1: answer with the produced message, 2: forward the request, 0: nothing to send), the
  message produced if any, the registry and the world (the event handlers read the clock).  The
  device manager is passed by the C code and not used, so it is no argument here.
\<close>

definition resp_base :: "message \<Rightarrow> message" where
  "resp_base i =
     (let r = message_zero\<lparr>m_role := ROLE_RESP, m_type := m_type i\<rparr>;
          r = (if m_has_dev i then r\<lparr>m_dev := m_dev i, m_has_dev := True\<rparr> else r);
          r = (if m_has_seq i then r\<lparr>m_seq := m_seq i, m_has_seq := True\<rparr> else r)
      in r\<lparr>m_ok := 1, m_has_ok := True\<rparr>)"

definition make_error :: "message \<Rightarrow> i32 \<Rightarrow> string option \<Rightarrow> message" where
  "make_error i code text =
     (let r = (resp_base i)\<lparr>m_type := TYPE_ERROR, m_ok := 0, m_code := code, m_has_code := True\<rparr>
      in case text of None \<Rightarrow> r
         | Some t \<Rightarrow> r\<lparr>m_msg := strncpy_field MSG_CAP t, m_has_msg := True\<rparr>)"

text \<open>The result code and, when it is 0, the descriptor.\<close>

definition resolve_controller_fd :: "message \<Rightarrow> int \<Rightarrow> int \<Rightarrow> int \<times> int option" where
  "resolve_controller_fd i pmc_fd tmc_fd =
     (if \<not> m_has_dev i then (- 1, None)
      else if m_dev i = 100 then (if tmc_fd < 0 then (- 2, None) else (0, Some tmc_fd))
      else if m_dev i = 1 \<or> m_dev i = 2 then (if pmc_fd < 0 then (- 3, None) else (0, Some pmc_fd))
      else (- 4, None))"

text \<open>The five case labels of the \<^verbatim>\<open>switch\<close> that share a body.\<close>

definition device_type :: "msg_type \<Rightarrow> bool" where
  "device_type t \<longleftrightarrow> t \<in> {TYPE_STATUS, TYPE_RESET, TYPE_FAULT, TYPE_START, TYPE_STOP}"

lemma device_type_simps [simp]:
  "device_type TYPE_STATUS" "device_type TYPE_RESET" "device_type TYPE_FAULT" "device_type TYPE_START"
  "device_type TYPE_STOP" "\<not> device_type TYPE_PING" "\<not> device_type TYPE_REGISTER"
  by (simp_all add: device_type_def)

definition router_req :: "int \<Rightarrow> int \<Rightarrow> message \<Rightarrow> int \<times> message option" where
  "router_req pmc_fd tmc_fd i =
     (if \<not> m_has_seq i then (1, Some (make_error i 400 (Some ''MISSING_SEQ'')))
      else if m_type i = TYPE_PING then (1, Some (resp_base i))
      else if device_type (m_type i)
      then (if \<not> m_has_dev i then (1, Some (make_error i 400 (Some ''MISSING_DEV'')))
            else let rc = fst (resolve_controller_fd i pmc_fd tmc_fd) in
                 if rc = - 2 then (1, Some (make_error i 503 (Some ''TMC_NOT_CONNECTED'')))
                 else if rc = - 3 then (1, Some (make_error i 503 (Some ''PMC_NOT_CONNECTED'')))
                 else if rc \<noteq> 0 then (1, Some (make_error i 404 (Some ''UNKNOWN_DEV'')))
                 else (2, None))
      else (1, Some (make_error i 404 (Some ''UNKNOWN_TYPE''))))"

text \<open>Writing the identity of a module: flag, type, number, name.\<close>

definition identify :: "module_key \<Rightarrow> u32 \<Rightarrow> module_info \<Rightarrow> module_info" where
  "identify k dev m =
     m\<lparr>mi_registered := True, mi_type := (if k = KTmc then MODULE_TMC else MODULE_PMC), mi_dev := dev,
       mi_name := strncpy_field NAME_CAP (target_name k)\<rparr>"

definition status_update :: "string \<Rightarrow> int \<Rightarrow> module_info \<Rightarrow> module_info" where
  "status_update st now m =
     (let m = m\<lparr>mi_busy := (st = ''PROCESSING'' \<or> st = ''READY'' \<or> st = ''TRANSFERRING'')\<rparr>;
          m = (if st = ''FAULT'' then m\<lparr>mi_fault_latched := True\<rparr> else m)
      in module_registry_touch_status m now (Some st))"

definition telemetry_update :: "message \<Rightarrow> int \<Rightarrow> module_info \<Rightarrow> module_info" where
  "telemetry_update i now m =
     module_registry_touch_telemetry
       (m\<lparr>mi_temp := m_temp i, mi_pressure := m_pressure i, mi_flow := m_flow i, mi_has_telemetry := True\<rparr>) now"

definition router_evt :: "module_registry \<Rightarrow> message \<Rightarrow> world \<Rightarrow> module_registry \<times> world" where
  "router_evt reg i w =
     (if \<not> m_has_dev i then (reg, w)
      else case m_type i of
        TYPE_REGISTER \<Rightarrow>
          (case module_of_dev (m_dev i) of
             None \<Rightarrow> (reg, w)
           | Some k \<Rightarrow> (update_module k (identify k (m_dev i)) reg, w))
      | TYPE_STATUS \<Rightarrow>
          (case module_of_dev (m_dev i) of
             None \<Rightarrow> (reg, w)
           | Some k \<Rightarrow>
               let reg1 = update_module k (identify k (m_dev i)) reg in
               if m_has_state i
               then (case now_ms w of (now, w1) \<Rightarrow> (update_module k (status_update (m_state i) now) reg1, w1))
               else (reg1, w))
      | TYPE_TELEMETRY \<Rightarrow>
          (case module_of_dev (m_dev i) of
             None \<Rightarrow> (reg, w)
           | Some k \<Rightarrow>
               if k = KTmc then (reg, w)
               else (case now_ms w of (now, w1) \<Rightarrow>
                       (update_module k (telemetry_update i now) (update_module k (identify k (m_dev i)) reg), w1)))
      | _ \<Rightarrow> (reg, w))"

definition router_handle ::
  "module_registry \<Rightarrow> int \<Rightarrow> int \<Rightarrow> message \<Rightarrow> world \<Rightarrow> int \<times> message option \<times> module_registry \<times> world" where
  "router_handle reg pmc_fd tmc_fd i w =
     (case m_role i of
        ROLE_REQ \<Rightarrow> (case router_req pmc_fd tmc_fd i of (rc, out) \<Rightarrow> (rc, out, reg, w))
      | ROLE_EVT \<Rightarrow> (case router_evt reg i w of (reg1, w1) \<Rightarrow> (0, None, reg1, w1))
      | _ \<Rightarrow> (0, None, reg, w))"

section \<open>Requests\<close>

text \<open>Which controller serves a device, and when a request is one to be forwarded.\<close>

definition serving_fd :: "int \<Rightarrow> int \<Rightarrow> u32 \<Rightarrow> int option" where
  "serving_fd pmc_fd tmc_fd dev =
     (let fd = (if dev = 100 then tmc_fd else if dev = 1 \<or> dev = 2 then pmc_fd else - 1)
      in if fd < 0 then None else Some fd)"

definition device_request :: "message \<Rightarrow> bool" where
  "device_request i \<longleftrightarrow> m_role i = ROLE_REQ \<and> m_has_seq i \<and> m_has_dev i
     \<and> device_type (m_type i)"

text \<open>The same decisions in the order in which they exclude each other.\<close>

lemma router_req_table:
  "router_req pmc_fd tmc_fd i =
    (if \<not> m_has_seq i then (1, Some (make_error i 400 (Some ''MISSING_SEQ'')))
     else if m_type i = TYPE_PING then (1, Some (resp_base i))
     else if \<not> device_type (m_type i) then (1, Some (make_error i 404 (Some ''UNKNOWN_TYPE'')))
     else if \<not> m_has_dev i then (1, Some (make_error i 400 (Some ''MISSING_DEV'')))
     else if m_dev i \<notin> {1, 2, 100} then (1, Some (make_error i 404 (Some ''UNKNOWN_DEV'')))
     else if serving_fd pmc_fd tmc_fd (m_dev i) \<noteq> None then (2, None)
     else (1, Some (make_error i 503 (Some (if m_dev i = 100 then ''TMC_NOT_CONNECTED'' else ''PMC_NOT_CONNECTED'')))))"
proof (cases "device_type (m_type i) \<and> m_has_dev i")
  case True
  consider "m_dev i = 100" | "m_dev i = 1" | "m_dev i = 2" | "m_dev i \<notin> {1, 2, 100}" by blast
  then show ?thesis
    by cases (use True in \<open>simp_all add: router_req_def resolve_controller_fd_def serving_fd_def Let_def\<close>)
qed (auto simp: router_req_def)

lemma serving_fd_dev: "serving_fd p t dev \<noteq> None \<Longrightarrow> dev \<in> {1, 2, 100}"
  by (auto simp: serving_fd_def Let_def split: if_splits)

lemma router_req_forward:
  "m_role i = ROLE_REQ \<Longrightarrow>
     fst (router_req p t i) = 2 \<longleftrightarrow> device_request i \<and> serving_fd p t (m_dev i) \<noteq> None"
  using serving_fd_dev [of p t "m_dev i"] device_type_simps(6)
  by (cases "serving_fd p t (m_dev i) = None"; cases "m_type i = TYPE_PING")
    (simp_all add: router_req_table device_request_def)

lemma router_req_cases: "router_req p t i = (rc, out) \<Longrightarrow> (rc = 2 \<and> out = None) \<or> (rc = 1 \<and> out \<noteq> None)"
  unfolding router_req_table by (simp split: if_splits) auto

lemma router_req_role: "router_req p t i = (rc, out) \<Longrightarrow> out = Some r \<Longrightarrow> (\<exists>c m. r = make_error i c (Some m)) \<or> r = resp_base i"
  unfolding router_req_table by (simp split: if_splits) auto

lemma resp_base_fields [simp]:
  "m_role (resp_base i) = ROLE_RESP" "m_type (resp_base i) = m_type i" "m_ok (resp_base i) = 1" "m_has_ok (resp_base i)"
  "m_has_dev (resp_base i) = m_has_dev i" "m_has_seq (resp_base i) = m_has_seq i"
  "m_has_dev i \<Longrightarrow> m_dev (resp_base i) = m_dev i" "m_has_seq i \<Longrightarrow> m_seq (resp_base i) = m_seq i"
  "m_state (resp_base i) = []" "m_msg (resp_base i) = []" "no_measurements (resp_base i)"
  by (simp_all add: resp_base_def message_zero_def no_measurements_def Let_def)

lemma make_error_fields [simp]:
  "m_role (make_error i c t) = ROLE_RESP" "m_type (make_error i c t) = TYPE_ERROR" "m_ok (make_error i c t) = 0"
  "m_has_ok (make_error i c t)" "m_code (make_error i c t) = c" "m_has_code (make_error i c t)"
  "m_has_dev (make_error i c t) = m_has_dev i" "m_has_seq (make_error i c t) = m_has_seq i"
  "m_has_dev i \<Longrightarrow> m_dev (make_error i c t) = m_dev i" "m_has_seq i \<Longrightarrow> m_seq (make_error i c t) = m_seq i"
  "m_state (make_error i c t) = []" "no_measurements (make_error i c t)"
  by (simp_all add: make_error_def Let_def no_measurements_def resp_base_def message_zero_def split: option.split)

lemma make_error_msg [simp]: "m_msg (make_error i c (Some t)) = strncpy_field MSG_CAP t" "m_has_msg (make_error i c (Some t))"
  by (simp_all add: make_error_def Let_def)

text \<open>
  The answer to a request is decided by this table, in this order: no sequence number gives
  400, a PING is echoed, a device command without a device number gives 400, for a device nobody
  serves 404, for one whose controller has no link 503, and with a link it is forwarded; any other
  type gives 404.  Every answer carries the sequence and device numbers of the request.
\<close>

theorem router_request_table:
  assumes "m_role i = ROLE_REQ" and "router_handle reg pmc_fd tmc_fd i w = (rc, out, reg', w')"
  shows "reg' = reg \<and> w' = w \<and>
    (if \<not> m_has_seq i then rc = 1 \<and> out = Some (make_error i 400 (Some ''MISSING_SEQ''))
     else if m_type i = TYPE_PING then rc = 1 \<and> out = Some (resp_base i)
     else if \<not> device_type (m_type i) then rc = 1 \<and> out = Some (make_error i 404 (Some ''UNKNOWN_TYPE''))
     else if \<not> m_has_dev i then rc = 1 \<and> out = Some (make_error i 400 (Some ''MISSING_DEV''))
     else if m_dev i \<notin> {1, 2, 100} then rc = 1 \<and> out = Some (make_error i 404 (Some ''UNKNOWN_DEV''))
     else if serving_fd pmc_fd tmc_fd (m_dev i) \<noteq> None then rc = 2 \<and> out = None
     else rc = 1 \<and> out = Some (make_error i 503
            (Some (if m_dev i = 100 then ''TMC_NOT_CONNECTED'' else ''PMC_NOT_CONNECTED''))))
   \<and> (\<forall>r. out = Some r \<longrightarrow> m_role r = ROLE_RESP \<and> m_has_seq r = m_has_seq i \<and> m_has_dev r = m_has_dev i
         \<and> (m_has_seq i \<longrightarrow> m_seq r = m_seq i) \<and> (m_has_dev i \<longrightarrow> m_dev r = m_dev i))"
proof -
  have h: "(rc, out) = router_req pmc_fd tmc_fd i" "reg' = reg" "w' = w"
    using assms by (simp_all add: router_handle_def split: prod.splits)
  show ?thesis
  proof (intro conjI)
    show "\<forall>r. out = Some r \<longrightarrow> m_role r = ROLE_RESP \<and> m_has_seq r = m_has_seq i \<and> m_has_dev r = m_has_dev i
         \<and> (m_has_seq i \<longrightarrow> m_seq r = m_seq i) \<and> (m_has_dev i \<longrightarrow> m_dev r = m_dev i)"
      using router_req_role [OF h(1) [symmetric]] by auto
  qed (use h in \<open>simp_all only: router_req_table prod.inject if_True if_False simp_thms not_False_eq_True split: if_splits\<close>)
qed

definition sample_start :: message where
  "sample_start = msg_init\<lparr>m_role := ROLE_REQ, m_type := TYPE_START, m_dev := 1, m_has_dev := True,
     m_seq := 7, m_has_seq := True\<rparr>"

lemma sample_start_fields [simp]:
  "m_role sample_start = ROLE_REQ" "m_type sample_start = TYPE_START" "m_dev sample_start = 1" "m_has_dev sample_start"
  "m_seq sample_start = 7" "m_has_seq sample_start"
  by (simp_all add: sample_start_def)

lemma sample_start_ok [simp]:
  "carriable sample_start" "parsed_ok sample_start" "no_measurements sample_start" "device_request sample_start"
  by (simp_all add: sample_start_def carriable_def parsed_ok_def message_inv_def no_measurements_def device_request_def
      msg_init_def message_zero_def)

lemma sample_start_parsed [simp]: "line_parse (wire sample_start) = Some sample_start"
  by (simp add: line_parse_wire)

lemma sample_reply_ok [simp]: "carriable (resp_base sample_start)" "parsed_ok (resp_base sample_start)"
  by (simp_all add: sample_start_def carriable_def parsed_ok_def message_inv_def resp_base_def msg_init_def message_zero_def)

lemma sample_reply_parsed [simp]: "line_parse (wire (resp_base sample_start)) = Some (resp_base sample_start)"
  by (simp add: line_parse_wire)

theorem router_request_table_witness:
  "fst (router_handle module_registry_init (- 1) 5 sample_start (quiet_world 3)) = 1"
proof -
  obtain rc out reg w where h: "router_handle module_registry_init (- 1) 5 sample_start (quiet_world 3) = (rc, out, reg, w)"
    by (metis prod_cases4)
  from router_request_table [OF sample_start_fields(1) h] have "rc = 1"
    by (simp add: serving_fd_def Let_def)
  then show ?thesis by (simp only: h fst_conv)
qed

text \<open>
  An event only informs the registry: no answer, and at most the module named by its device
  number changes; a STATUS event with a state or a TELEMETRY event of a process module makes that
  module registered and healthy with the present time.
\<close>

theorem event_touches_its_module:
  assumes "m_role i = ROLE_EVT" and "router_handle reg pmc_fd tmc_fd i w = (rc, out, reg', w')"
  shows "rc = 0 \<and> out = None
    \<and> (\<forall>k. \<not> (m_has_dev i \<and> module_of_dev (m_dev i) = Some k) \<longrightarrow> get_module k reg' = get_module k reg)
    \<and> (\<forall>k. m_has_dev i \<and> module_of_dev (m_dev i) = Some k
          \<and> (m_type i = TYPE_STATUS \<and> m_has_state i \<or> m_type i = TYPE_TELEMETRY \<and> k \<noteq> KTmc) \<longrightarrow>
        mi_registered (get_module k reg') \<and> mi_healthy (get_module k reg')
      \<and> mi_last_update_ms (get_module k reg') = fst (now_ms w))"
  using assms
  by (cases "m_type i"; cases "module_of_dev (m_dev i)")
    (auto simp: router_handle_def router_evt_def Let_def identify_def status_update_def telemetry_update_def
      module_registry_touch_status_def module_registry_touch_telemetry_def split: prod.splits if_splits)

theorem event_touches_its_module_witness:
  "mi_healthy (rg_pmc_preclean (fst (snd (snd (router_handle module_registry_init 4 5
     (sample_start\<lparr>m_role := ROLE_EVT, m_type := TYPE_TELEMETRY\<rparr>) (quiet_world 3))))))"
proof -
  let ?i = "sample_start\<lparr>m_role := ROLE_EVT, m_type := TYPE_TELEMETRY\<rparr>"
  obtain rc out reg w where h: "router_handle module_registry_init 4 5 ?i (quiet_world 3) = (rc, out, reg, w)"
    by (metis prod_cases4)
  have "m_role ?i = ROLE_EVT" by simp
  from event_touches_its_module [OF this h] have "mi_healthy (get_module KPreclean reg)"
    by (simp add: module_of_dev_def)
  then show ?thesis by (simp only: h fst_conv snd_conv get_module.simps)
qed

text \<open>No message changes what the scheduler reads of a module's state.\<close>

lemma router_keeps_state_fields:
  "mi_has_state (get_module k (fst (router_evt reg i w))) = mi_has_state (get_module k reg)"
  by (cases "m_type i"; cases "module_of_dev (m_dev i)")
    (simp_all add: router_evt_def Let_def identify_def status_update_def telemetry_update_def case_prod_beta)

lemma router_handle_state_fields:
  "router_handle reg p t i w = (rc, out, reg', w') \<Longrightarrow> mi_has_state (get_module k reg') = mi_has_state (get_module k reg)"
  using router_keeps_state_fields [of k reg i w]
  by (auto simp: router_handle_def split: msg_role.splits prod.splits)

end
