(* ===== verification/Eqd_Scheduler.thy ===== *)
theory Eqd_Scheduler
  imports Eqd_Registry
begin

text \<open>
  \<^verbatim>\<open>services/equipmentd/src/scheduler.c\<close>: the two-step recipe, preclean then deposition.
  \<open>scheduler_tick\<close> returns the next sequence number, the job state and the action; each early
  return of the C function is a branch.
\<close>

datatype job_state =
    JOB_IDLE | JOB_PRECLEAN_SENT | JOB_PRECLEAN_RUNNING | JOB_PRECLEAN_DONE | JOB_DEPOSITION_SENT
  | JOB_DEPOSITION_RUNNING | JOB_STOPPED | JOB_COMPLETE | JOB_ERROR

text \<open>The enumeration numbers its constants in this order.\<close>

primrec job_number :: "job_state \<Rightarrow> nat" where
  "job_number JOB_IDLE = 0"
| "job_number JOB_PRECLEAN_SENT = 1"
| "job_number JOB_PRECLEAN_RUNNING = 2"
| "job_number JOB_PRECLEAN_DONE = 3"
| "job_number JOB_DEPOSITION_SENT = 4"
| "job_number JOB_DEPOSITION_RUNNING = 5"
| "job_number JOB_STOPPED = 6"
| "job_number JOB_COMPLETE = 7"
| "job_number JOB_ERROR = 8"

lemma job_number_inj: "job_number a = job_number b \<Longrightarrow> a = b"
  by (cases a; cases b) simp_all

instantiation job_state :: linorder
begin

definition less_eq_job_state :: "job_state \<Rightarrow> job_state \<Rightarrow> bool" where
  "less_eq_job_state a b = (job_number a \<le> job_number b)"

definition less_job_state :: "job_state \<Rightarrow> job_state \<Rightarrow> bool" where
  "less_job_state a b = (job_number a < job_number b)"

instance
  by standard (auto simp: less_eq_job_state_def less_job_state_def intro: job_number_inj)

end

lemmas job_order = less_eq_job_state_def less_job_state_def

record scheduler_action =
  ac_should_send :: bool
  ac_seq :: u32
  ac_dev :: int

definition is_state :: "module_info \<Rightarrow> string \<Rightarrow> bool" where
  "is_state m s \<longleftrightarrow> mi_has_state m \<and> mi_current_state m = s"

definition is_usable :: "module_info \<Rightarrow> string \<Rightarrow> bool" where
  "is_usable m s \<longleftrightarrow> mi_registered m \<and> mi_healthy m \<and> mi_has_state m \<and> mi_current_state m = s"

definition is_done :: "module_info \<Rightarrow> bool" where
  "is_done m \<longleftrightarrow> mi_registered m \<and> mi_healthy m \<and> mi_has_state m \<and> mi_current_state m = ''DONE''"

definition is_idle_usable :: "module_info \<Rightarrow> bool" where
  "is_idle_usable m \<longleftrightarrow> mi_registered m \<and> mi_healthy m \<and> mi_has_state m \<and> mi_current_state m = ''IDLE''"

abbreviation no_action :: scheduler_action where
  "no_action \<equiv> \<lparr>ac_should_send = False, ac_seq = 0, ac_dev = - 1\<rparr>"

definition start_action :: "u32 \<Rightarrow> int \<Rightarrow> scheduler_action" where
  "start_action seq dev = \<lparr>ac_should_send = True, ac_seq = seq, ac_dev = dev\<rparr>"

text \<open>The final \<^verbatim>\<open>switch\<close>.\<close>

fun job_switch :: "job_state \<Rightarrow> module_info \<Rightarrow> module_info \<Rightarrow> u32 \<Rightarrow> u32 \<times> job_state \<times> scheduler_action" where
  "job_switch JOB_IDLE pre dep seq =
     (if is_done pre \<and> is_done dep then (seq, JOB_COMPLETE, no_action)
      else if is_done pre \<and> is_idle_usable dep then (seq + 1, JOB_DEPOSITION_SENT, start_action seq 2)
      else if is_idle_usable pre then (seq + 1, JOB_PRECLEAN_SENT, start_action seq 1)
      else (seq, JOB_IDLE, no_action))"
| "job_switch JOB_PRECLEAN_SENT pre dep seq =
     (seq, if is_state pre ''PROCESSING'' then JOB_PRECLEAN_RUNNING
           else if is_state pre ''DONE'' then JOB_PRECLEAN_DONE else JOB_PRECLEAN_SENT, no_action)"
| "job_switch JOB_PRECLEAN_RUNNING pre dep seq =
     (seq, if is_state pre ''DONE'' then JOB_PRECLEAN_DONE else JOB_PRECLEAN_RUNNING, no_action)"
| "job_switch JOB_PRECLEAN_DONE pre dep seq =
     (if is_usable dep ''IDLE'' then (seq + 1, JOB_DEPOSITION_SENT, start_action seq 2)
      else (seq, JOB_PRECLEAN_DONE, no_action))"
| "job_switch JOB_DEPOSITION_SENT pre dep seq =
     (seq, if is_state dep ''PROCESSING'' then JOB_DEPOSITION_RUNNING
           else if is_state dep ''DONE'' then JOB_COMPLETE else JOB_DEPOSITION_SENT, no_action)"
| "job_switch JOB_DEPOSITION_RUNNING pre dep seq =
     (seq, if is_state dep ''DONE'' then JOB_COMPLETE else JOB_DEPOSITION_RUNNING, no_action)"
| "job_switch job pre dep seq = (seq, job, no_action)"

definition scheduler_tick ::
  "module_registry \<Rightarrow> bool \<Rightarrow> u32 \<Rightarrow> job_state \<Rightarrow> u32 \<times> job_state \<times> scheduler_action" where
  "scheduler_tick reg pending_valid next_seq job =
     (let pre = rg_pmc_preclean reg; dep = rg_pmc_deposition reg in
      if pending_valid then (next_seq, job, no_action)
      else if (job = JOB_PRECLEAN_SENT \<or> job = JOB_PRECLEAN_RUNNING) \<and> mi_registered pre \<and> \<not> mi_healthy pre
      then (next_seq, JOB_ERROR, no_action)
      else if (job = JOB_DEPOSITION_SENT \<or> job = JOB_DEPOSITION_RUNNING) \<and> mi_registered dep \<and> \<not> mi_healthy dep
      then (next_seq, JOB_ERROR, no_action)
      else if is_state pre ''FAULT'' \<or> is_state dep ''FAULT'' then (next_seq, JOB_ERROR, no_action)
      else if mi_registered pre \<and> \<not> mi_healthy pre \<and> (job = JOB_PRECLEAN_SENT \<or> job = JOB_PRECLEAN_RUNNING)
      then (next_seq, JOB_ERROR, no_action)
      else if mi_registered dep \<and> \<not> mi_healthy dep \<and> (job = JOB_DEPOSITION_SENT \<or> job = JOB_DEPOSITION_RUNNING)
      then (next_seq, JOB_ERROR, no_action)
      else job_switch job pre dep next_seq)"

section \<open>One tick\<close>

lemma start_action_fields [simp]:
  "ac_should_send (start_action s d)" "ac_seq (start_action s d) = s" "ac_dev (start_action s d) = d"
  by (simp_all add: start_action_def)

text \<open>The fifth and sixth guards of the C function repeat the second and third.\<close>

lemma scheduler_tick_eq:
  "scheduler_tick reg pend seq job =
     (let pre = rg_pmc_preclean reg; dep = rg_pmc_deposition reg in
      if pend then (seq, job, no_action)
      else if (job \<in> {JOB_PRECLEAN_SENT, JOB_PRECLEAN_RUNNING} \<and> mi_registered pre \<and> \<not> mi_healthy pre)
           \<or> (job \<in> {JOB_DEPOSITION_SENT, JOB_DEPOSITION_RUNNING} \<and> mi_registered dep \<and> \<not> mi_healthy dep)
           \<or> is_state pre ''FAULT'' \<or> is_state dep ''FAULT''
      then (seq, JOB_ERROR, no_action)
      else job_switch job pre dep seq)"
  unfolding scheduler_tick_def Let_def by (cases pend) auto

lemma job_switch_send:
  "job_switch job pre dep seq = (seq', job', act) \<Longrightarrow>
     (if ac_should_send act
      then ac_seq act = seq \<and> seq' = seq + 1
         \<and> ((ac_dev act = 1 \<and> job = JOB_IDLE \<and> job' = JOB_PRECLEAN_SENT \<and> is_idle_usable pre)
          \<or> (ac_dev act = 2 \<and> job' = JOB_DEPOSITION_SENT \<and> is_idle_usable dep
             \<and> (job = JOB_IDLE \<and> is_done pre \<or> job = JOB_PRECLEAN_DONE)))
      else seq' = seq \<and> act = no_action)"
  by (cases job) (auto simp: is_usable_def is_idle_usable_def split: if_splits)

lemma tick_send:
  "scheduler_tick reg pend seq job = (seq', job', act) \<Longrightarrow>
     (if ac_should_send act
      then \<not> pend \<and> ac_seq act = seq \<and> seq' = seq + 1
         \<and> ((ac_dev act = 1 \<and> job = JOB_IDLE \<and> job' = JOB_PRECLEAN_SENT \<and> is_idle_usable (rg_pmc_preclean reg))
          \<or> (ac_dev act = 2 \<and> job' = JOB_DEPOSITION_SENT \<and> is_idle_usable (rg_pmc_deposition reg)
             \<and> (job = JOB_IDLE \<and> is_done (rg_pmc_preclean reg) \<or> job = JOB_PRECLEAN_DONE)))
      else seq' = seq \<and> act = no_action)"
  using job_switch_send [of job "rg_pmc_preclean reg" "rg_pmc_deposition reg" seq seq' job' act]
  by (auto simp: scheduler_tick_eq Let_def split: if_splits)

text \<open>
  A tick commands a START only when no request is pending; it is addressed to one process
  module that is registered, healthy and reported IDLE, it takes the next sequence number and
  moves the job to the matching SENT state.  A tick that sends nothing consumes no number.
\<close>

theorem tick_start_contract:
  assumes "scheduler_tick reg pend seq job = (seq', job', act)"
  shows "if ac_should_send act
    then \<not> pend \<and> ac_seq act = seq \<and> seq' = seq + 1
       \<and> (\<exists>k. (k, ac_dev act, job') \<in> {(KPreclean, 1, JOB_PRECLEAN_SENT), (KDeposition, 2, JOB_DEPOSITION_SENT)}
            \<and> is_idle_usable (get_module k reg))
    else seq' = seq"
  using tick_send [OF assms] by (auto split: if_splits)

section \<open>The job as a state machine\<close>

text \<open>
  The edges of the recipe.  The label is what the tick saw: \<open>Wait\<close> for a tick that leaves the job
  alone, \<open>Alarm\<close> for a fault or a lost module.
\<close>

datatype job_label = Wait | Alarm | StartPre | PreRuns | PreEnds | StartDep | DepRuns | DepEnds | AllDone

inductive job_edge :: "job_state \<Rightarrow> job_label \<Rightarrow> job_state \<Rightarrow> bool" where
  wait: "job_edge j Wait j"
| alarm: "job_edge j Alarm JOB_ERROR"
| start_pre: "job_edge JOB_IDLE StartPre JOB_PRECLEAN_SENT"
| pre_runs: "job_edge JOB_PRECLEAN_SENT PreRuns JOB_PRECLEAN_RUNNING"
| pre_ends: "j = JOB_PRECLEAN_SENT \<or> j = JOB_PRECLEAN_RUNNING \<Longrightarrow> job_edge j PreEnds JOB_PRECLEAN_DONE"
| start_dep: "j = JOB_IDLE \<or> j = JOB_PRECLEAN_DONE \<Longrightarrow> job_edge j StartDep JOB_DEPOSITION_SENT"
| dep_runs: "job_edge JOB_DEPOSITION_SENT DepRuns JOB_DEPOSITION_RUNNING"
| dep_ends: "j = JOB_DEPOSITION_SENT \<or> j = JOB_DEPOSITION_RUNNING \<Longrightarrow> job_edge j DepEnds JOB_COMPLETE"
| all_done: "job_edge JOB_IDLE AllDone JOB_COMPLETE"

inductive_cases job_edge_from_pre: "job_edge j l JOB_PRECLEAN_DONE"
inductive_simps job_edge_simps: "job_edge j l j'"

text \<open>What a tick with a given label must have seen.\<close>

fun saw :: "job_label \<Rightarrow> module_registry \<Rightarrow> bool" where
  "saw StartPre reg = is_idle_usable (rg_pmc_preclean reg)"
| "saw PreRuns reg = is_state (rg_pmc_preclean reg) ''PROCESSING''"
| "saw PreEnds reg = is_state (rg_pmc_preclean reg) ''DONE''"
| "saw StartDep reg = is_idle_usable (rg_pmc_deposition reg)"
| "saw DepRuns reg = is_state (rg_pmc_deposition reg) ''PROCESSING''"
| "saw DepEnds reg = is_state (rg_pmc_deposition reg) ''DONE''"
| "saw AllDone reg = (is_done (rg_pmc_preclean reg) \<and> is_done (rg_pmc_deposition reg))"
| "saw Alarm reg = (\<exists>k. k \<noteq> KTmc \<and> (is_state (get_module k reg) ''FAULT''
        \<or> mi_registered (get_module k reg) \<and> \<not> mi_healthy (get_module k reg)))"
| "saw Wait reg = True"

lemma job_switch_edge:
  assumes "job_switch job pre dep seq = (seq', job', act)"
    and "rg_pmc_preclean reg = pre" and "rg_pmc_deposition reg = dep"
  shows "\<exists>l. job_edge job l job' \<and> saw l reg \<and> (ac_should_send act \<longleftrightarrow> l = StartPre \<or> l = StartDep)"
proof (cases job)
  case JOB_IDLE
  consider "is_done pre \<and> is_done dep" | "\<not> (is_done pre \<and> is_done dep)" "is_done pre \<and> is_idle_usable dep"
    | "\<not> (is_done pre \<and> is_done dep)" "\<not> (is_done pre \<and> is_idle_usable dep)" "is_idle_usable pre"
    | "\<not> (is_done pre \<and> is_done dep)" "\<not> (is_done pre \<and> is_idle_usable dep)" "\<not> is_idle_usable pre" by blast
  then show ?thesis
  proof cases
    case 1 with assms JOB_IDLE show ?thesis by (intro exI [of _ AllDone]) (auto simp: job_edge_simps)
  next
    case 2 with assms JOB_IDLE show ?thesis by (intro exI [of _ StartDep]) (auto simp: job_edge_simps)
  next
    case 3 with assms JOB_IDLE show ?thesis by (intro exI [of _ StartPre]) (auto simp: job_edge_simps)
  next
    case 4 with assms JOB_IDLE show ?thesis by (intro exI [of _ Wait]) (auto simp: job_edge_simps)
  qed
next
  case JOB_PRECLEAN_SENT
  with assms show ?thesis
    by (intro exI [of _ "if is_state pre ''PROCESSING'' then PreRuns else if is_state pre ''DONE'' then PreEnds else Wait"])
      (auto simp: job_edge_simps)
next
  case JOB_PRECLEAN_RUNNING
  with assms show ?thesis
    by (intro exI [of _ "if is_state pre ''DONE'' then PreEnds else Wait"]) (auto simp: job_edge_simps)
next
  case JOB_PRECLEAN_DONE
  with assms show ?thesis
    by (intro exI [of _ "if is_usable dep ''IDLE'' then StartDep else Wait"])
      (auto simp: job_edge_simps is_usable_def is_idle_usable_def split: if_splits)
next
  case JOB_DEPOSITION_SENT
  with assms show ?thesis
    by (intro exI [of _ "if is_state dep ''PROCESSING'' then DepRuns else if is_state dep ''DONE'' then DepEnds else Wait"])
      (auto simp: job_edge_simps)
next
  case JOB_DEPOSITION_RUNNING
  with assms show ?thesis
    by (intro exI [of _ "if is_state dep ''DONE'' then DepEnds else Wait"]) (auto simp: job_edge_simps)
qed (use assms in \<open>auto simp: job_edge_simps intro!: exI [of _ Wait]\<close>)

lemma tick_edge:
  assumes "scheduler_tick reg pend seq job = (seq', job', act)"
  shows "\<exists>l. job_edge job l job' \<and> saw l reg \<and> (ac_should_send act \<longleftrightarrow> l = StartPre \<or> l = StartDep)"
proof -
  let ?lost = "(job \<in> {JOB_PRECLEAN_SENT, JOB_PRECLEAN_RUNNING} \<and> mi_registered (rg_pmc_preclean reg)
        \<and> \<not> mi_healthy (rg_pmc_preclean reg))
    \<or> (job \<in> {JOB_DEPOSITION_SENT, JOB_DEPOSITION_RUNNING} \<and> mi_registered (rg_pmc_deposition reg)
        \<and> \<not> mi_healthy (rg_pmc_deposition reg))
    \<or> is_state (rg_pmc_preclean reg) ''FAULT'' \<or> is_state (rg_pmc_deposition reg) ''FAULT''"
  consider "pend" | "\<not> pend" "?lost" | "\<not> pend" "\<not> ?lost" by blast
  then show ?thesis
  proof cases
    case 1
    with assms show ?thesis by (intro exI [of _ Wait]) (auto simp: scheduler_tick_eq job_edge_simps)
  next
    case 2
    with assms have "job' = JOB_ERROR" "act = no_action" by (auto simp: scheduler_tick_eq Let_def)
    moreover have "saw Alarm reg"
      using 2(2) get_module.simps(2) [of reg] get_module.simps(3) [of reg] unfolding saw.simps
      by (metis module_key.distinct(1,3))
    ultimately show ?thesis by (intro exI [of _ Alarm]) (simp add: job_edge_simps)
  next
    case 3
    with assms have "job_switch job (rg_pmc_preclean reg) (rg_pmc_deposition reg) seq = (seq', job', act)"
      by (simp only: scheduler_tick_eq Let_def if_False)
    from job_switch_edge [OF this refl refl] show ?thesis .
  qed
qed

text \<open>
  C33: The job is this state machine: every tick takes one of its edges, the registry shown to the
  tick supports the edge taken, and a command goes out exactly on the two start edges.
\<close>

theorem job_follows_recipe:
  assumes "scheduler_tick reg pend seq job = (seq', job', act)"
  shows "\<exists>l. job_edge job l job' \<and> saw l reg \<and> (ac_should_send act \<longleftrightarrow> l = StartPre \<or> l = StartDep)"
  by (rule tick_edge [OF assms])

section \<open>Runs\<close>

text \<open>A run of the scheduler over what it is shown: the registry and the pending flag of each tick.\<close>

fun sched_run :: "(module_registry \<times> bool) list \<Rightarrow> u32 \<Rightarrow> job_state \<Rightarrow> (job_state \<times> scheduler_action) list" where
  "sched_run [] seq job = []"
| "sched_run ((reg, pend) # obs) seq job =
     (case scheduler_tick reg pend seq job of
        (seq', job', act) \<Rightarrow> (job', act) # sched_run obs seq' job')"

lemma length_sched_run [simp]: "length (sched_run obs seq job) = length obs"
  by (induction obs seq job rule: sched_run.induct) (auto split: prod.splits)

lemma deposition_after_preclean_aux:
  "i < length obs \<Longrightarrow> ac_should_send (snd (sched_run obs seq job ! i)) \<Longrightarrow> ac_dev (snd (sched_run obs seq job ! i)) = 2 \<Longrightarrow>
     job \<noteq> JOB_PRECLEAN_DONE \<Longrightarrow> \<exists>j \<le> i. is_state (rg_pmc_preclean (fst (obs ! j))) ''DONE''"
proof (induction obs seq job arbitrary: i rule: sched_run.induct)
  case (1 seq job)
  then show ?case by simp
next
  case (2 reg pend obs seq job)
  obtain seq' job' act where t: "scheduler_tick reg pend seq job = (seq', job', act)" by (metis prod_cases3)
  show ?case
  proof (cases i)
    case 0
    with 2 t tick_send [OF t] show ?thesis by (auto simp: is_done_def is_state_def split: if_splits)
  next
    case (Suc k)
    show ?thesis
    proof (cases "job' = JOB_PRECLEAN_DONE")
      case True
      from tick_edge [OF t] obtain l where l: "job_edge job l job'" "saw l reg" by blast
      from l(1) True 2(5) have "l = PreEnds" by (auto elim!: job_edge_from_pre)
      with l(2) show ?thesis by (intro exI [of _ 0]) simp
    next
      case False
      have "\<exists>j \<le> k. is_state (rg_pmc_preclean (fst (obs ! j))) ''DONE''"
        by (rule "2.IH" [OF t [symmetric] refl]) (use 2 False Suc t in auto)
      then show ?thesis using Suc by auto
    qed
  qed
qed

text \<open>The commands of a run, and the bound on them that the job state gives.\<close>

definition sent :: "(job_state \<times> scheduler_action) list \<Rightarrow> (u32 \<times> int) list" where
  "sent r = map (\<lambda>(job, act). (ac_seq act, ac_dev act)) (filter (\<lambda>(job, act). ac_should_send act) r)"

lemma sent_simps [simp]:
  "sent [] = []" "sent ((job, act) # r) = (if ac_should_send act then (ac_seq act, ac_dev act) # sent r else sent r)"
  by (simp_all add: sent_def)

definition commands_from :: "job_state \<Rightarrow> u32 \<Rightarrow> (u32 \<times> int) list set" where
  "commands_from job seq =
     (if job = JOB_IDLE then {[], [(seq, 1)], [(seq, 2)], [(seq, 1), (seq + 1, 2)]}
      else if job \<le> JOB_PRECLEAN_DONE then {[], [(seq, 2)]} else {[]})"

lemma tick_monotone:
  assumes "scheduler_tick reg pend seq job = (seq', job', act)"
  shows "job \<le> job'"
  using tick_edge [OF assms] by (cases job) (auto simp: job_edge_simps job_order)

lemma tick_commands:
  assumes "scheduler_tick reg pend seq job = (seq', job', act)" and "out \<in> commands_from job' seq'"
  shows "(if ac_should_send act then (ac_seq act, ac_dev act) # out else out) \<in> commands_from job seq"
  using tick_send [OF assms(1)] tick_monotone [OF assms(1)] assms(2)
  by (cases job; cases job') (auto simp: commands_from_def job_order split: if_splits)

lemma run_commands: "sent (sched_run obs seq job) \<in> commands_from job seq"
proof (induction obs seq job rule: sched_run.induct)
  case (1 seq job)
  show ?case by (simp add: commands_from_def)
next
  case (2 reg pend obs seq job)
  obtain seq' job' act where t: "scheduler_tick reg pend seq job = (seq', job', act)" by (metis prod_cases3)
  from tick_commands [OF t "2.IH" [OF t [symmetric] refl]] t show ?case by simp
qed

lemma run_sorted: "sorted (job # map fst (sched_run obs seq job))"
proof (induction obs seq job rule: sched_run.induct)
  case (1 seq job)
  show ?case by simp
next
  case (2 reg pend obs seq job)
  obtain seq' job' act where t: "scheduler_tick reg pend seq job = (seq', job', act)" by (metis prod_cases3)
  from "2.IH" [OF t [symmetric] refl] tick_monotone [OF t] t show ?case
    by simp (meson order_trans)
qed

text \<open>
  C17: The order of the recipe, in every run from an idle job, whatever the modules report and
  whenever requests are pending: the job never goes back in its enumeration; the commands sent are
  at most one START of device 1 followed by at most one of device 2, numbered consecutively; and
  a START of the deposition module is preceded by (or coincides with) an observation of the
  preclean module in the state DONE.
\<close>

theorem deposition_after_preclean:
  "sorted (map fst (sched_run obs seq JOB_IDLE))
   \<and> sent (sched_run obs seq JOB_IDLE) \<in> {[], [(seq, 1)], [(seq, 2)], [(seq, 1), (seq + 1, 2)]}
   \<and> (\<forall>i < length obs. ac_should_send (snd (sched_run obs seq JOB_IDLE ! i))
        \<and> ac_dev (snd (sched_run obs seq JOB_IDLE ! i)) = 2
        \<longrightarrow> (\<exists>j \<le> i. is_state (rg_pmc_preclean (fst (obs ! j))) ''DONE''))"
  using run_sorted [of JOB_IDLE obs seq] run_commands [of obs seq JOB_IDLE] deposition_after_preclean_aux [of _ obs seq JOB_IDLE]
  by (auto simp: commands_from_def)

text \<open>Registries for examples: both modules live, in given states.\<close>

definition seen :: "string \<Rightarrow> string \<Rightarrow> module_registry" where
  "seen s t = module_registry_init
     \<lparr>rg_pmc_preclean := module_zero\<lparr>mi_registered := True, mi_healthy := True, mi_has_state := True, mi_current_state := s\<rparr>,
      rg_pmc_deposition := module_zero\<lparr>mi_registered := True, mi_healthy := True, mi_has_state := True, mi_current_state := t\<rparr>\<rparr>"

lemma seen_states [simp]:
  "is_state (rg_pmc_preclean (seen s t)) u \<longleftrightarrow> s = u" "is_state (rg_pmc_deposition (seen s t)) u \<longleftrightarrow> t = u"
  "is_usable (rg_pmc_deposition (seen s t)) u \<longleftrightarrow> t = u"
  "is_done (rg_pmc_preclean (seen s t)) \<longleftrightarrow> s = ''DONE''" "is_done (rg_pmc_deposition (seen s t)) \<longleftrightarrow> t = ''DONE''"
  "is_idle_usable (rg_pmc_preclean (seen s t)) \<longleftrightarrow> s = ''IDLE''"
  "is_idle_usable (rg_pmc_deposition (seen s t)) \<longleftrightarrow> t = ''IDLE''"
  "mi_healthy (rg_pmc_preclean (seen s t))" "mi_healthy (rg_pmc_deposition (seen s t))"
  by (simp_all add: seen_def is_state_def is_usable_def is_done_def is_idle_usable_def)

theorem tick_start_contract_witness:
  "fst (scheduler_tick (seen ''IDLE'' ''IDLE'') False 1000 JOB_IDLE) = 1001"
proof -
  obtain s j a where h: "scheduler_tick (seen ''IDLE'' ''IDLE'') False 1000 JOB_IDLE = (s, j, a)"
    by (metis prod_cases3)
  then have "ac_should_send a" by (auto simp: scheduler_tick_eq)
  with tick_start_contract [OF h] have "s = 1001" by simp
  then show ?thesis by (simp only: h fst_conv)
qed

theorem job_follows_recipe_witness:
  "\<exists>l. job_edge JOB_PRECLEAN_SENT l JOB_PRECLEAN_RUNNING \<and> saw l (seen ''PROCESSING'' ''IDLE'')"
proof -
  have "scheduler_tick (seen ''PROCESSING'' ''IDLE'') False 7 JOB_PRECLEAN_SENT = (7, JOB_PRECLEAN_RUNNING, no_action)"
    by (simp add: scheduler_tick_eq)
  from job_follows_recipe [OF this] show ?thesis by blast
qed

theorem deposition_after_preclean_witness:
  "\<exists>j \<le> (0::nat). is_state (rg_pmc_preclean (fst ([(seen ''DONE'' ''IDLE'', False)] ! j))) ''DONE''"
  using deposition_after_preclean [of "[(seen ''DONE'' ''IDLE'', False)]" 1000]
  by (simp add: scheduler_tick_eq)

section \<open>Without state reports\<close>

text \<open>A registry whose process modules never reported a state stops the scheduler.\<close>

lemma tick_stateless:
  assumes "\<And>k. \<not> mi_has_state (get_module k reg)"
    and "job \<in> {JOB_IDLE, JOB_STOPPED, JOB_ERROR}"
  shows "scheduler_tick reg pend seq job = (seq, job, no_action)"
  using assms(1) [of KPreclean] assms(1) [of KDeposition] assms(2)
  by (auto simp: scheduler_tick_eq is_state_def is_done_def is_idle_usable_def Let_def)

end
