(* ===== verification/Eqd_Tracker.thy ===== *)
theory Eqd_Tracker
  imports Message
begin

text \<open>
  \<^verbatim>\<open>services/equipmentd/src/request_tracker.c\<close>: the table of the sixteen requests that wait for a
  controller's response.  A pointer to a slot is its index.  The locale \<open>request_table\<close> is what
  \<^verbatim>\<open>main.c\<close> relies on: a partial map from slots to requests with allocation, search, removal and
  expiry.
\<close>

record pending_request =
  pr_valid :: bool
  pr_client_fd :: int
  pr_seq :: u32
  pr_dev :: u32
  pr_type :: msg_type
  pr_from_scheduler :: bool
  pr_created_ms :: int

type_synonym request_tracker = "pending_request list"

abbreviation REQUEST_TRACKER_MAX :: nat where "REQUEST_TRACKER_MAX \<equiv> 16"
abbreviation REQUEST_TIMEOUT_MS :: int where "REQUEST_TIMEOUT_MS \<equiv> 10000"

definition pending_zero :: pending_request where
  "pending_zero = \<lparr>pr_valid = False, pr_client_fd = 0, pr_seq = 0, pr_dev = 0, pr_type = TYPE_PING,
     pr_from_scheduler = False, pr_created_ms = 0\<rparr>"

definition request_tracker_init :: request_tracker where
  "request_tracker_init = replicate REQUEST_TRACKER_MAX pending_zero"

text \<open>The search loops, from index \<open>i\<close>; \<open>None\<close> is the null pointer.\<close>

function first_slot :: "(pending_request \<Rightarrow> bool) \<Rightarrow> request_tracker \<Rightarrow> nat \<Rightarrow> nat option" where
  "first_slot P t i =
     (if i < REQUEST_TRACKER_MAX then (if P (t ! i) then Some i else first_slot P t (Suc i)) else None)"
  by pat_completeness auto
termination
  by (relation "measure (\<lambda>(P, t, i). REQUEST_TRACKER_MAX - i)") auto

declare first_slot.simps [simp del]

definition request_tracker_alloc :: "request_tracker \<Rightarrow> (nat \<times> request_tracker) option" where
  "request_tracker_alloc t =
     (case first_slot (\<lambda>r. \<not> pr_valid r) t 0 of
        None \<Rightarrow> None
      | Some i \<Rightarrow> Some (i, t[i := pending_zero\<lparr>pr_valid := True\<rparr>]))"

definition request_tracker_find :: "request_tracker \<Rightarrow> u32 \<Rightarrow> u32 \<Rightarrow> nat option" where
  "request_tracker_find t seq dev = first_slot (\<lambda>r. pr_valid r \<and> pr_seq r = seq \<and> pr_dev r = dev) t 0"

definition request_tracker_remove :: "request_tracker \<Rightarrow> nat option \<Rightarrow> request_tracker" where
  "request_tracker_remove t r = (case r of None \<Rightarrow> t | Some i \<Rightarrow> t[i := pending_zero])"

text \<open>The sweep visits the slots in order; each visit looks at its own slot only.\<close>

fun sweep_from :: "nat \<Rightarrow> int \<Rightarrow> request_tracker \<Rightarrow> request_tracker" where
  "sweep_from 0 now t = t"
| "sweep_from (Suc n) now t =
     (let i = REQUEST_TRACKER_MAX - Suc n in
      sweep_from n now
        (if pr_valid (t ! i) \<and> REQUEST_TIMEOUT_MS < now - pr_created_ms (t ! i) then t[i := pending_zero] else t))"

definition request_tracker_sweep_timeouts :: "request_tracker \<Rightarrow> int \<Rightarrow> request_tracker" where
  "request_tracker_sweep_timeouts t now = sweep_from REQUEST_TRACKER_MAX now t"

text \<open>\<^verbatim>\<open>tracker_has_pending\<close> of \<^verbatim>\<open>main.c\<close>.\<close>

definition tracker_has_pending :: "request_tracker \<Rightarrow> bool" where
  "tracker_has_pending t \<longleftrightarrow> first_slot pr_valid t 0 \<noteq> None"

section \<open>The table as a partial map\<close>

definition tracker_inv :: "request_tracker \<Rightarrow> bool" where
  "tracker_inv t \<longleftrightarrow> length t = REQUEST_TRACKER_MAX"

definition live :: "request_tracker \<Rightarrow> nat \<Rightarrow> pending_request option" where
  "live t i = (if i < length t \<and> pr_valid (t ! i) then Some (t ! i) else None)"

lemma live_at: "live t i = Some r \<Longrightarrow> t ! i = r"
  by (simp add: live_def split: if_splits)

lemma first_slot_Some: "first_slot P t i = Some j \<Longrightarrow>
    i \<le> j \<and> j < REQUEST_TRACKER_MAX \<and> P (t ! j) \<and> (\<forall>k. i \<le> k \<and> k < j \<longrightarrow> \<not> P (t ! k))"
proof (induction P t i rule: first_slot.induct)
  case (1 P t i)
  show ?case
  proof (cases "i < REQUEST_TRACKER_MAX \<and> \<not> P (t ! i)")
    case True
    with 1 have "Suc i \<le> j \<and> j < REQUEST_TRACKER_MAX \<and> P (t ! j) \<and> (\<forall>k. Suc i \<le> k \<and> k < j \<longrightarrow> \<not> P (t ! k))"
      by (simp add: first_slot.simps [of P t i])
    with True show ?thesis by (metis Suc_leI le_eq_less_or_eq Suc_leD)
  next
    case False
    with "1.prems" show ?thesis by (auto simp: first_slot.simps [of P t i] split: if_splits)
  qed
qed

lemma first_slot_None: "first_slot P t i = None \<Longrightarrow> i \<le> k \<Longrightarrow> k < REQUEST_TRACKER_MAX \<Longrightarrow> \<not> P (t ! k)"
proof (induction P t i rule: first_slot.induct)
  case (1 P t i)
  then show ?case
    by (cases "k = i") (auto simp: first_slot.simps [of P t i] split: if_splits)
qed

lemma length_sweep_from [simp]: "length (sweep_from n now t) = length t"
  by (induction n arbitrary: t) (simp_all add: Let_def)

lemma sweep_from_nth:
  "length t = REQUEST_TRACKER_MAX \<Longrightarrow> n \<le> REQUEST_TRACKER_MAX \<Longrightarrow> i < REQUEST_TRACKER_MAX \<Longrightarrow>
     sweep_from n now t ! i =
       (if REQUEST_TRACKER_MAX - n \<le> i \<and> pr_valid (t ! i) \<and> REQUEST_TIMEOUT_MS < now - pr_created_ms (t ! i)
        then pending_zero else t ! i)"
proof (induction n arbitrary: t)
  case 0
  then show ?case by simp
next
  case (Suc n)
  let ?k = "REQUEST_TRACKER_MAX - Suc n"
  let ?t = "if pr_valid (t ! ?k) \<and> REQUEST_TIMEOUT_MS < now - pr_created_ms (t ! ?k) then t[?k := pending_zero] else t"
  have k: "?k < length t" and kn: "REQUEST_TRACKER_MAX - n = Suc ?k" using Suc.prems by auto
  have "sweep_from (Suc n) now t ! i = sweep_from n now ?t ! i" by (simp only: sweep_from.simps Let_def)
  also have "\<dots> = (if Suc ?k \<le> i \<and> pr_valid (?t ! i) \<and> REQUEST_TIMEOUT_MS < now - pr_created_ms (?t ! i)
        then pending_zero else ?t ! i)"
    using Suc.IH [of ?t] Suc.prems by (simp add: kn)
  also have "\<dots> = (if ?k \<le> i \<and> pr_valid (t ! i) \<and> REQUEST_TIMEOUT_MS < now - pr_created_ms (t ! i)
        then pending_zero else t ! i)"
    using k by (cases "i = ?k") (auto simp: pending_zero_def nth_list_update)
  finally show ?case .
qed

section \<open>What the daemon relies on\<close>

text \<open>
  \<open>slots\<close> is the abstract table.  \<open>store t i r\<close> writes a request through the pointer that \<open>alloc\<close>
  returned.
\<close>

locale request_table =
  fixes alloc :: "'t \<Rightarrow> (nat \<times> 't) option"
    and store :: "'t \<Rightarrow> nat \<Rightarrow> pending_request \<Rightarrow> 't"
    and find :: "'t \<Rightarrow> u32 \<Rightarrow> u32 \<Rightarrow> nat option"
    and remove :: "'t \<Rightarrow> nat option \<Rightarrow> 't"
    and sweep :: "'t \<Rightarrow> int \<Rightarrow> 't"
    and inv :: "'t \<Rightarrow> bool"
    and slots :: "'t \<Rightarrow> nat \<Rightarrow> pending_request option"
    and capacity :: nat
  assumes alloc_None: "inv t \<Longrightarrow> alloc t = None \<longleftrightarrow> dom (slots t) = {..< capacity}"
    and alloc_Some: "inv t \<Longrightarrow> alloc t = Some (i, t') \<Longrightarrow> i < capacity \<and> slots t i = None \<and> inv t'
          \<and> (\<forall>r. pr_valid r \<longrightarrow> slots (store t' i r) = (slots t)(i \<mapsto> r) \<and> inv (store t' i r))"
    and slots_dom: "inv t \<Longrightarrow> dom (slots t) \<subseteq> {..< capacity}"
    and find_Some: "inv t \<Longrightarrow> find t s d = Some i \<Longrightarrow>
          (\<exists>r. slots t i = Some r \<and> pr_seq r = s \<and> pr_dev r = d)
        \<and> (\<forall>j r. slots t j = Some r \<and> pr_seq r = s \<and> pr_dev r = d \<longrightarrow> i \<le> j)"
    and find_None: "inv t \<Longrightarrow> find t s d = None \<Longrightarrow> slots t i = Some r \<Longrightarrow> \<not> (pr_seq r = s \<and> pr_dev r = d)"
    and remove_slots: "inv t \<Longrightarrow> slots (remove t (Some i)) = (slots t)(i := None) \<and> inv (remove t (Some i))"
    and sweep_slots: "inv t \<Longrightarrow> inv (sweep t now) \<and> slots (sweep t now) i =
          (case slots t i of None \<Rightarrow> None
           | Some r \<Rightarrow> if REQUEST_TIMEOUT_MS < now - pr_created_ms r then None else Some r)"
begin

text \<open>A request with a fresh key is found in the slot it was stored in, and gone once removed.\<close>

lemma track_then_find:
  assumes "inv t" and "alloc t = Some (i, t')" and "pr_valid r"
    and "\<And>j q. slots t j = Some q \<Longrightarrow> \<not> (pr_seq q = pr_seq r \<and> pr_dev q = pr_dev r)"
  shows "find (store t' i r) (pr_seq r) (pr_dev r) = Some i"
proof -
  from alloc_Some [OF assms(1,2)] assms(3)
  have s: "slots (store t' i r) = (slots t)(i \<mapsto> r)" and v: "inv (store t' i r)" by auto
  show ?thesis
  proof (cases "find (store t' i r) (pr_seq r) (pr_dev r)")
    case None
    from find_None [OF v None, of i r] show ?thesis by (simp add: s)
  next
    case (Some j)
    from find_Some [OF v Some] obtain q where "slots (store t' i r) j = Some q"
      "pr_seq q = pr_seq r" "pr_dev q = pr_dev r" by blast
    with assms(4) [of j q] Some show ?thesis by (auto simp: s split: if_splits)
  qed
qed

lemma remove_after_find:
  assumes "inv t" and "find t s d = Some i" and "inj_on (\<lambda>j. (pr_seq (the (slots t j)), pr_dev (the (slots t j)))) (dom (slots t))"
  shows "find (remove t (Some i)) s d = None"
proof (cases "find (remove t (Some i)) s d")
  case (Some j)
  note rm = remove_slots [OF assms(1), of i]
  from find_Some [OF conjunct2 [OF rm] Some] rm
  obtain r where j: "j \<noteq> i" "slots t j = Some r" "pr_seq r = s" "pr_dev r = d" by (auto split: if_splits)
  from find_Some [OF assms(1,2)] obtain q where "slots t i = Some q" "pr_seq q = s" "pr_dev q = d" by blast
  with j inj_onD [OF assms(3), of i j] show ?thesis by auto
qed simp

lemma room_iff:
  assumes "inv t"
  shows "alloc t \<noteq> None \<longleftrightarrow> card (dom (slots t)) < capacity"
proof
  assume "alloc t \<noteq> None"
  with alloc_None [OF assms] slots_dom [OF assms] have "dom (slots t) \<subset> {..< capacity}" by blast
  from psubset_card_mono [OF finite_lessThan this] show "card (dom (slots t)) < capacity" by simp
next
  assume "card (dom (slots t)) < capacity"
  then have "dom (slots t) \<noteq> {..< capacity}" by auto
  with alloc_None [OF assms] show "alloc t \<noteq> None" by blast
qed

end

lemma live_set:
  "i < length t \<Longrightarrow> live (t[i := r]) = (live t)(i := (if pr_valid r then Some r else None))"
  by (auto simp: live_def fun_eq_iff nth_list_update)

interpretation tracker: request_table request_tracker_alloc list_update request_tracker_find
  request_tracker_remove request_tracker_sweep_timeouts tracker_inv live REQUEST_TRACKER_MAX
proof unfold_locales
  fix t t' :: request_tracker and i j :: nat and s d :: u32 and r :: pending_request and now :: int
  assume inv: "tracker_inv t"
  then have len: "length t = 16" by (simp add: tracker_inv_def)
  show "request_tracker_alloc t = None \<longleftrightarrow> dom (live t) = {..< REQUEST_TRACKER_MAX}"
    using first_slot_Some [of "\<lambda>r. \<not> pr_valid r" t 0] first_slot_None [of "\<lambda>r. \<not> pr_valid r" t 0] len
    by (force simp: request_tracker_alloc_def live_def dom_def split: option.split if_splits)
  show "dom (live t) \<subseteq> {..< REQUEST_TRACKER_MAX}" using len by (auto simp: live_def split: if_splits)
  show "i < REQUEST_TRACKER_MAX \<and> live t i = None \<and> tracker_inv t'
      \<and> (\<forall>r. pr_valid r \<longrightarrow> live (t'[i := r]) = (live t)(i \<mapsto> r) \<and> tracker_inv (t'[i := r]))"
    if "request_tracker_alloc t = Some (i, t')"
    using that first_slot_Some [of "\<lambda>r. \<not> pr_valid r" t 0 i] len
    by (auto simp: request_tracker_alloc_def live_set tracker_inv_def live_def split: option.splits)
  show "(\<exists>r. live t i = Some r \<and> pr_seq r = s \<and> pr_dev r = d)
      \<and> (\<forall>j r. live t j = Some r \<and> pr_seq r = s \<and> pr_dev r = d \<longrightarrow> i \<le> j)"
    if "request_tracker_find t s d = Some i"
    using first_slot_Some [OF that [unfolded request_tracker_find_def]] len
    by (auto simp: live_def not_less [symmetric] split: if_splits)
  show "\<not> (pr_seq r = s \<and> pr_dev r = d)" if "request_tracker_find t s d = None" "live t i = Some r"
    using first_slot_None [OF that(1) [unfolded request_tracker_find_def], of i] that(2) len
    by (auto simp: live_def split: if_splits)
  show "live (request_tracker_remove t (Some i)) = (live t)(i := None) \<and> tracker_inv (request_tracker_remove t (Some i))"
    using len by (cases "i < 16")
      (auto simp: request_tracker_remove_def live_set tracker_inv_def pending_zero_def live_def fun_eq_iff)
  show "tracker_inv (request_tracker_sweep_timeouts t now) \<and> live (request_tracker_sweep_timeouts t now) i =
      (case live t i of None \<Rightarrow> None | Some r \<Rightarrow> if REQUEST_TIMEOUT_MS < now - pr_created_ms r then None else Some r)"
    using len by (simp add: request_tracker_sweep_timeouts_def tracker_inv_def live_def sweep_from_nth pending_zero_def)
qed

lemma tracker_inv_init [simp]: "tracker_inv request_tracker_init"
  by (simp add: tracker_inv_def request_tracker_init_def)

lemma live_init [simp]: "live request_tracker_init = Map.empty"
  by (auto simp: live_def request_tracker_init_def pending_zero_def fun_eq_iff)

lemma has_pending_iff: "tracker_inv t \<Longrightarrow> tracker_has_pending t \<longleftrightarrow> live t \<noteq> Map.empty"
  using first_slot_Some [of pr_valid t 0] first_slot_None [of pr_valid t 0]
  by (cases "first_slot pr_valid t 0")
    (auto simp: tracker_has_pending_def live_def tracker_inv_def fun_eq_iff)

text \<open>
  Whenever the table has nothing pending, or any free slot, a request can be tracked; the
  response with its sequence and device numbers finds that very slot if no other pending request
  has the same two numbers, and a second response with them finds nothing after the removal.
\<close>

theorem tracked_request_is_found:
  assumes "tracker_inv t" and "card (dom (live t)) < REQUEST_TRACKER_MAX" and "pr_valid r"
    and "\<And>j q. live t j = Some q \<Longrightarrow> \<not> (pr_seq q = pr_seq r \<and> pr_dev q = pr_dev r)"
  shows "\<exists>i t1. request_tracker_alloc t = Some (i, t1) \<and> live (t1[i := r]) = (live t)(i \<mapsto> r)
     \<and> request_tracker_find (t1[i := r]) (pr_seq r) (pr_dev r) = Some i
     \<and> request_tracker_find (request_tracker_remove (t1[i := r]) (Some i)) (pr_seq r) (pr_dev r) = None"
proof -
  from tracker.room_iff [OF assms(1)] assms(2) obtain i t1 where a: "request_tracker_alloc t = Some (i, t1)"
    by fastforce
  note st = tracker.alloc_Some [OF assms(1) a]
  from st assms(3) have s: "live (t1[i := r]) = (live t)(i \<mapsto> r)" and v: "tracker_inv (t1[i := r])" by auto
  have "request_tracker_find (t1[i := r]) (pr_seq r) (pr_dev r) = Some i"
    by (rule tracker.track_then_find [OF assms(1) a assms(3,4)])
  moreover have "request_tracker_find (request_tracker_remove (t1[i := r]) (Some i)) (pr_seq r) (pr_dev r) = None"
  proof (cases "request_tracker_find (request_tracker_remove (t1[i := r]) (Some i)) (pr_seq r) (pr_dev r)")
    case (Some j)
    note rm = tracker.remove_slots [OF v, of i]
    from tracker.find_Some [OF conjunct2 [OF rm] Some] rm s assms(4) show ?thesis by (auto split: if_splits)
  qed simp
  ultimately show ?thesis using a s by blast
qed

theorem tracked_request_is_found_witness:
  "\<exists>i t1. request_tracker_alloc request_tracker_init = Some (i, t1)
     \<and> request_tracker_find (t1[i := pending_zero\<lparr>pr_valid := True, pr_seq := 7, pr_dev := 1\<rparr>]) 7 1 = Some i"
proof -
  let ?r = "pending_zero\<lparr>pr_valid := True, pr_seq := 7, pr_dev := 1\<rparr>"
  have "card (dom (live request_tracker_init)) < REQUEST_TRACKER_MAX" "pr_valid ?r" by simp_all
  from tracked_request_is_found [OF tracker_inv_init this] show ?thesis by simp blast
qed

text \<open>
  C40: The sweep empties exactly the slots whose request is older than ten seconds at the time it is
  given; every other slot holds what it held before.  (It takes and returns the table and nothing
  else, so the client of a forgotten request is not told.)
\<close>

theorem sweep_forgets_exactly_expired:
  assumes "tracker_inv t"
  shows "live (request_tracker_sweep_timeouts t now) i =
     (if \<exists>r. live t i = Some r \<and> REQUEST_TIMEOUT_MS < now - pr_created_ms r then None else live t i)"
  using tracker.sweep_slots [OF assms, of now i] by (auto split: option.splits)

theorem sweep_forgets_exactly_expired_witness:
  "live (request_tracker_sweep_timeouts
      (request_tracker_init[2 := pending_zero\<lparr>pr_valid := True, pr_created_ms := 5\<rparr>]) 10006) 2 = None"
proof -
  let ?t = "request_tracker_init[2 := pending_zero\<lparr>pr_valid := True, pr_created_ms := 5\<rparr>]"
  have "tracker_inv ?t" by (simp add: tracker_inv_def request_tracker_init_def)
  from sweep_forgets_exactly_expired [OF this, of 10006 2] show ?thesis
    by (simp add: live_set request_tracker_init_def)
qed

end
