(* ===== verification/Eqd_Conns.thy ===== *)
theory Eqd_Conns
  imports Session Os "HOL-Library.Multiset"
begin

text \<open>
  \<^verbatim>\<open>services/equipmentd/src/connection_table.c\<close> and \<^verbatim>\<open>connection.h\<close>: the connections live on the C
  heap, a partial map from addresses, and the table holds their addresses.  Freeing removes the
  address from the heap; reading an address that is not there is the error \<open>UseAfterFree\<close>, so
  the absence of such reads is something to prove.
\<close>

datatype conn_state = CONN_OPEN | CONN_CLOSED

record connection =
  cn_fd :: int
  cn_session :: session_t
  cn_last_active_ms :: int
  cn_state :: conn_state

type_synonym addr = nat
type_synonym heap = "addr \<Rightarrow> connection option"

datatype c_fault = UseAfterFree

abbreviation MAX_CONN :: nat where "MAX_CONN \<equiv> 1024"
abbreviation CONN_IDLE_TIMEOUT_MS :: int where "CONN_IDLE_TIMEOUT_MS \<equiv> 60000"

text \<open>The first \<open>conn_count\<close> entries of the array, in order.\<close>

definition register_connection :: "addr \<Rightarrow> addr list \<Rightarrow> addr list" where
  "register_connection p tbl = (if length tbl < MAX_CONN then tbl @ [p] else tbl)"

text \<open>The search loop, and the move of the last entry into the hole.\<close>

function unregister_from :: "nat \<Rightarrow> addr \<Rightarrow> addr list \<Rightarrow> addr list" where
  "unregister_from i p tbl =
     (if i < length tbl
      then (if tbl ! i = p then butlast (tbl[i := tbl ! (length tbl - 1)]) else unregister_from (Suc i) p tbl)
      else tbl)"
  by pat_completeness auto
termination
  by (relation "measure (\<lambda>(i, p, tbl). length tbl - i)") auto

declare unregister_from.simps [simp del]

definition unregister_connection :: "addr \<Rightarrow> addr list \<Rightarrow> addr list" where
  "unregister_connection p tbl = unregister_from 0 p tbl"

lemma mset_swap_remove:
  assumes "i < length tbl"
  shows "mset (butlast (tbl[i := tbl ! (length tbl - 1)])) = mset tbl - {#tbl ! i#}"
proof -
  let ?l = "tbl[i := tbl ! (length tbl - 1)]"
  have ne: "?l \<noteq> []" "tbl \<noteq> []" using assms by auto
  have last: "last ?l = tbl ! (length tbl - 1)"
    using ne assms by (simp add: last_conv_nth nth_list_update)
  have "mset ?l = add_mset (last ?l) (mset (butlast ?l))"
    using ne(1) by (metis append_butlast_last_id mset.simps(2) mset_append union_commute add_mset_add_single mset.simps(1))
  moreover have "mset ?l = add_mset (tbl ! (length tbl - 1)) (mset tbl - {#tbl ! i#})"
    using assms by (simp add: mset_update)
  ultimately have "add_mset (tbl ! (length tbl - 1)) (mset (butlast ?l))
      = add_mset (tbl ! (length tbl - 1)) (mset tbl - {#tbl ! i#})"
    unfolding last by argo
  then show ?thesis by (rule add_mset_add_mset_same_iff [THEN iffD1])
qed

lemma unregister_from_mset:
  "\<forall>j < i. tbl ! j \<noteq> p \<Longrightarrow> mset (unregister_from i p tbl) = mset tbl - {#p#}"
proof (induction i p tbl rule: unregister_from.induct)
  case (1 i p tbl)
  show ?case
  proof (cases "i < length tbl")
    case True
    show ?thesis
    proof (cases "tbl ! i = p")
      case True
      then show ?thesis using mset_swap_remove [OF \<open>i < length tbl\<close>]
        by (simp add: unregister_from.simps [of i p tbl] \<open>i < length tbl\<close>)
    next
      case False
      with 1 True show ?thesis by (simp add: unregister_from.simps [of i p tbl] less_Suc_eq)
    qed
  next
    case False
    with 1 have "p \<notin> set tbl" by (auto simp: in_set_conv_nth)
    with False show ?thesis by (simp add: unregister_from.simps [of i p tbl])
  qed
qed

lemma unregister_mset: "mset (unregister_connection p tbl) = mset tbl - {#p#}"
  by (simp add: unregister_connection_def unregister_from_mset)

lemma unregister_remove1: "mset (unregister_connection p tbl) = mset (remove1 p tbl)"
  by (simp add: unregister_mset mset_remove1)

lemma unregister_distinct: "distinct tbl \<Longrightarrow> distinct (unregister_connection p tbl)"
  using mset_eq_imp_distinct_iff [OF unregister_remove1] by simp

lemma unregister_set: "distinct tbl \<Longrightarrow> set (unregister_connection p tbl) = set tbl - {p}"
  using mset_eq_setD [OF unregister_remove1, of p tbl] by simp

lemma unregister_length: "length (unregister_connection p tbl) = length tbl - (if p \<in> set tbl then 1 else 0)"
  using mset_eq_length [OF unregister_remove1, of p tbl] by (simp add: length_remove1)

lemma unregister_prefix:
  assumes "i < length tbl" and "tbl ! i = p" and "distinct tbl" and "j < i"
  shows "unregister_connection p tbl ! j = tbl ! j"
proof -
  have "unregister_from k p tbl ! j = tbl ! j" if "k \<le> i" for k
    using that
  proof (induction "i - k" arbitrary: k)
    case 0
    with assms show ?case
      by (simp add: unregister_from.simps [of k p tbl] nth_butlast)
  next
    case (Suc d)
    then have "k < i" by simp
    then have "tbl ! k \<noteq> p" using assms by (auto simp: nth_eq_iff_index_eq)
    moreover have "unregister_from (Suc k) p tbl ! j = tbl ! j" using Suc by simp
    ultimately show ?case using \<open>k < i\<close> assms(1) by (simp add: unregister_from.simps [of k p tbl])
  qed
  from this [of 0] show ?thesis by (simp add: unregister_connection_def)
qed

text \<open>Closing: the descriptor leaves the poll set and is closed, the object is freed.\<close>

definition drop_fd :: "int \<Rightarrow> world \<Rightarrow> world" where
  "drop_fd fd w = os_log (Closed fd) (os_log (EpollDel fd) w)"

function scan_from :: "nat \<Rightarrow> int \<Rightarrow> addr list \<Rightarrow> heap \<Rightarrow> world \<Rightarrow> c_fault + (addr list \<times> heap \<times> world)" where
  "scan_from i now tbl hp w =
     (if i < length tbl
      then (case hp (tbl ! i) of
              None \<Rightarrow> Inl UseAfterFree
            | Some c \<Rightarrow>
                if CONN_IDLE_TIMEOUT_MS < now - cn_last_active_ms c
                then scan_from i now (unregister_connection (tbl ! i) tbl) (hp(tbl ! i := None)) (drop_fd (cn_fd c) w)
                else scan_from (Suc i) now tbl hp w)
      else Inr (tbl, hp, w))"
  by pat_completeness auto
termination
  by (relation "measure (\<lambda>(i, now, tbl, hp, w). length tbl - i)") (auto simp: unregister_length)

declare scan_from.simps [simp del]

definition scan_connection_timeout :: "int \<Rightarrow> addr list \<Rightarrow> heap \<Rightarrow> world \<Rightarrow> c_fault + (addr list \<times> heap \<times> world)" where
  "scan_connection_timeout now tbl hp w = scan_from 0 now tbl hp w"

section \<open>The table and the heap agree\<close>

text \<open>Every entry of the table is a live object, and no object is entered twice.\<close>

definition conns_inv :: "addr list \<Rightarrow> heap \<Rightarrow> bool" where
  "conns_inv tbl hp \<longleftrightarrow> distinct tbl \<and> set tbl \<subseteq> dom hp \<and> length tbl \<le> MAX_CONN"

lemma conns_inv_register:
  "conns_inv tbl hp \<Longrightarrow> p \<notin> dom hp \<Longrightarrow> conns_inv (register_connection p tbl) (hp(p \<mapsto> c))"
  by (auto simp: conns_inv_def register_connection_def)

lemma conns_inv_unregister:
  "conns_inv tbl hp \<Longrightarrow> conns_inv (unregister_connection p tbl) (hp(p := None))"
  by (auto simp: conns_inv_def unregister_distinct unregister_set unregister_length)

lemma conns_inv_update: "conns_inv tbl hp \<Longrightarrow> p \<in> dom hp \<Longrightarrow> conns_inv tbl (hp(p \<mapsto> c))"
  by (auto simp: conns_inv_def)

definition expired :: "int \<Rightarrow> heap \<Rightarrow> addr \<Rightarrow> bool" where
  "expired now hp p \<longleftrightarrow> (\<exists>c. hp p = Some c \<and> CONN_IDLE_TIMEOUT_MS < now - cn_last_active_ms c)"

definition fd_of :: "heap \<Rightarrow> addr \<Rightarrow> int" where
  "fd_of hp p = (case hp p of Some c \<Rightarrow> cn_fd c | None \<Rightarrow> - 1)"

fun closed_fds :: "os_event list \<Rightarrow> int list" where
  "closed_fds [] = []"
| "closed_fds (Closed fd # es) = fd # closed_fds es"
| "closed_fds (_ # es) = closed_fds es"

lemma closed_fds_append [simp]: "closed_fds (xs @ ys) = closed_fds xs @ closed_fds ys"
  by (induction xs rule: closed_fds.induct) auto

lemma logged_drop_fd: "logged w [EpollDel fd, Closed fd] (drop_fd fd w)"
  by (simp add: logged_def drop_fd_def os_log_def)

lemma scan_from_spec:
  "conns_inv tbl hp \<Longrightarrow> \<forall>j < i. j < length tbl \<longrightarrow> \<not> expired now hp (tbl ! j) \<Longrightarrow>
   \<exists>tbl' hp' w' es. scan_from i now tbl hp w = Inr (tbl', hp', w') \<and> conns_inv tbl' hp'
     \<and> mset tbl' = filter_mset (\<lambda>p. \<not> expired now hp p) (mset tbl)
     \<and> hp' = hp |` (- {p \<in> set tbl. expired now hp p})
     \<and> logged w es w'
     \<and> mset (closed_fds es) = image_mset (fd_of hp) (filter_mset (expired now hp) (mset tbl))"
proof (induction i now tbl hp w rule: scan_from.induct)
  case (1 i now tbl hp w)
  show ?case
  proof (cases "i < length tbl")
    case False
    have none: "\<forall>p \<in> set tbl. \<not> expired now hp p"
      using "1.prems"(2) False by (auto simp: in_set_conv_nth)
    then have "filter_mset (\<lambda>p. \<not> expired now hp p) (mset tbl) = mset tbl"
      "filter_mset (expired now hp) (mset tbl) = {#}" "hp |` (- {p \<in> set tbl. expired now hp p}) = hp"
      by (auto simp: filter_mset_eq_conv restrict_map_def fun_eq_iff)
    with False "1.prems"(1) show ?thesis
      by (subst scan_from.simps) (auto intro!: exI [of _ "[]"])
  next
    case True
    let ?p = "tbl ! i"
    have pin: "?p \<in> set tbl" using True by simp
    from "1.prems"(1) pin obtain c where c: "hp ?p = Some c" by (auto simp: conns_inv_def)
    show ?thesis
    proof (cases "CONN_IDLE_TIMEOUT_MS < now - cn_last_active_ms c")
      case False
      have "\<forall>j < Suc i. j < length tbl \<longrightarrow> \<not> expired now hp (tbl ! j)"
        using "1.prems"(2) False c by (auto simp: less_Suc_eq expired_def)
      with "1.IH"(2) [OF True c False "1.prems"(1)] True c False show ?thesis
        by (subst scan_from.simps) simp
    next
      case old: True
      let ?t = "unregister_connection ?p tbl" and ?h = "hp(?p := None)"
      have exp: "expired now hp ?p" using old c by (simp add: expired_def)
      have ms: "mset tbl = add_mset ?p (mset ?t)" using pin by (simp add: unregister_mset)
      have dist: "distinct tbl" using "1.prems"(1) by (simp add: conns_inv_def)
      have st: "set ?t = set tbl - {?p}" using dist by (rule unregister_set)
      have ex: "expired now ?h q = expired now hp q" if "q \<noteq> ?p" for q using that by (simp add: expired_def)
      have pre: "\<forall>j < i. j < length ?t \<longrightarrow> \<not> expired now ?h (?t ! j)"
      proof (intro allI impI)
        fix j assume "j < i" "j < length ?t"
        then have "?t ! j = tbl ! j" using unregister_prefix [OF True refl dist] by simp
        moreover have "?t ! j \<noteq> ?p" using st \<open>j < length ?t\<close> nth_mem by fastforce
        ultimately show "\<not> expired now ?h (?t ! j)" using "1.prems"(2) \<open>j < i\<close> True ex by simp
      qed
      from "1.IH"(1) [OF True c old conns_inv_unregister [OF "1.prems"(1)] pre]
      obtain tbl' hp' w' es where r: "scan_from i now ?t ?h (drop_fd (cn_fd c) w) = Inr (tbl', hp', w')"
        "conns_inv tbl' hp'" "mset tbl' = filter_mset (\<lambda>p. \<not> expired now ?h p) (mset ?t)"
        "hp' = ?h |` (- {p \<in> set ?t. expired now ?h p})" "logged (drop_fd (cn_fd c) w) es w'"
        "mset (closed_fds es) = image_mset (fd_of ?h) (filter_mset (expired now ?h) (mset ?t))" by blast
      have ext: "expired now ?h q = expired now hp q" "fd_of ?h q = fd_of hp q" if "q \<in># mset ?t" for q
        using that st by (auto simp: expired_def fd_of_def)
      then have fdt: "fd_of ?h q = fd_of hp q" if "q \<in># filter_mset P (mset ?t)" for q P using that by simp
      have f1: "filter_mset (\<lambda>p. \<not> expired now ?h p) (mset ?t) = filter_mset (\<lambda>p. \<not> expired now hp p) (mset tbl)"
        using exp ext by (auto simp: ms intro!: filter_mset_cong)
      have f2: "image_mset (fd_of ?h) (filter_mset (expired now ?h) (mset ?t))
          = image_mset (fd_of hp) (filter_mset (expired now hp) (mset ?t))"
      proof -
        have "filter_mset (expired now ?h) (mset ?t) = filter_mset (expired now hp) (mset ?t)"
          using ext by (intro filter_mset_cong) auto
        then show ?thesis using fdt by (auto intro: image_mset_cong)
      qed
      have f3: "?h |` (- {p \<in> set ?t. expired now ?h p}) = hp |` (- {p \<in> set tbl. expired now hp p})"
        using exp ex pin by (auto simp: fun_eq_iff restrict_map_def st)
      have lg: "logged w ([EpollDel (cn_fd c), Closed (cn_fd c)] @ es) w'"
        using logged_drop_fd r(5) by (rule logged_trans)
      have "scan_from i now tbl hp w = Inr (tbl', hp', w')"
        using r(1) True c old by (subst scan_from.simps) simp
      moreover have "mset (closed_fds ([EpollDel (cn_fd c), Closed (cn_fd c)] @ es))
          = image_mset (fd_of hp) (filter_mset (expired now hp) (mset tbl))"
        using exp c by (simp add: r(6) f2 ms fd_of_def)
      ultimately show ?thesis using r(2,3,4) f1 f3 lg by metis
    qed
  qed
qed

text \<open>
  C18: The idle scan, which removes entries from the array it is walking over: it never reads a
  freed connection, it closes exactly the descriptors of the connections idle for more than a
  minute, each once, frees exactly those, and keeps every other entry once.
\<close>

theorem idle_scan_exact:
  assumes "conns_inv tbl hp"
  shows "\<exists>tbl' hp' w' es. scan_connection_timeout now tbl hp w = Inr (tbl', hp', w') \<and> conns_inv tbl' hp'
     \<and> mset tbl' = filter_mset (\<lambda>p. \<not> expired now hp p) (mset tbl)
     \<and> hp' = hp |` (- {p \<in> set tbl. expired now hp p})
     \<and> logged w es w'
     \<and> mset (closed_fds es) = image_mset (fd_of hp) (filter_mset (expired now hp) (mset tbl))"
  unfolding scan_connection_timeout_def by (rule scan_from_spec [OF assms]) simp

definition idle_conn :: "int \<Rightarrow> int \<Rightarrow> connection" where
  "idle_conn fd t = \<lparr>cn_fd = fd, cn_session = session_zero, cn_last_active_ms = t, cn_state = CONN_OPEN\<rparr>"

theorem idle_scan_exact_witness:
  "\<exists>tbl' hp' w'. scan_connection_timeout 70000 [1, 2, 3] [1 \<mapsto> idle_conn 5 0, 2 \<mapsto> idle_conn 6 60000, 3 \<mapsto> idle_conn 7 1]
       (quiet_world 70) = Inr (tbl', hp', w') \<and> mset tbl' = {#2#}"
proof -
  let ?h = "[1 \<mapsto> idle_conn 5 0, 2 \<mapsto> idle_conn 6 60000, 3 \<mapsto> idle_conn 7 1]"
  have "conns_inv [1, 2, 3] ?h" by (simp add: conns_inv_def)
  from idle_scan_exact [OF this, of 70000 "quiet_world 70"] show ?thesis
    by (auto simp: expired_def idle_conn_def)
qed

end
