(* ===== verification/Eqd_Core.thy ===== *)
theory Eqd_Core
  imports Eqd_Devices Eqd_Router Eqd_Scheduler Eqd_Tracker Eqd_Conns
begin

text \<open>
  \<^verbatim>\<open>services/equipmentd/src/main.c\<close>, the part above the sockets: what one received line does
  (\<^verbatim>\<open>handle_one_line\<close>) and what the scheduler does once per round (\<^verbatim>\<open>run_scheduler\<close>).  \<open>app_ctx\<close> is the
  C context; a pending request in the tracker is addressed by its slot.
\<close>

record app_ctx =
  ax_dev_mgr :: device_manager
  ax_registry :: module_registry
  ax_pmc_fd :: int
  ax_tmc_fd :: int
  ax_tracker :: request_tracker
  ax_next_seq :: u32
  ax_job_state :: job_state

abbreviation EQD_BUF :: nat where "EQD_BUF \<equiv> 512"
abbreviation SCHED_BUF :: nat where "SCHED_BUF \<equiv> 256"

definition resolve_target_fd :: "app_ctx \<Rightarrow> u32 \<Rightarrow> int" where
  "resolve_target_fd ctx dev =
     (if dev = 100 then ax_tmc_fd ctx else if dev = 1 \<or> dev = 2 then ax_pmc_fd ctx else - 1)"

definition is_controller_fd :: "app_ctx \<Rightarrow> int \<Rightarrow> bool" where
  "is_controller_fd ctx fd \<longleftrightarrow> fd = ax_pmc_fd ctx \<or> fd = ax_tmc_fd ctx"

definition make_parse_error :: message where
  "make_parse_error =
     message_zero\<lparr>m_role := ROLE_RESP, m_type := TYPE_ERROR, m_ok := 0, m_has_ok := True, m_code := 400,
       m_has_code := True, m_msg := strncpy_field MSG_CAP ''PARSE_ERROR'', m_has_msg := True\<rparr>"

text \<open>Formatting into the write buffer and writing: the code that ends most branches.\<close>

definition send_line :: "int \<Rightarrow> message \<Rightarrow> world \<Rightarrow> bool \<times> world" where
  "send_line fd m w = (case line_format m EQD_BUF of None \<Rightarrow> (False, w) | Some bs \<Rightarrow> os_write fd bs w)"

section \<open>Registering a controller link\<close>

definition register_ack :: "message \<Rightarrow> message" where
  "register_ack i =
     (let r = message_zero\<lparr>m_role := ROLE_RESP, m_type := TYPE_REGISTER\<rparr>;
          r = (if m_has_seq i then r\<lparr>m_seq := m_seq i, m_has_seq := True\<rparr> else r);
          r = (if m_has_dev i then r\<lparr>m_dev := m_dev i, m_has_dev := True\<rparr> else r)
      in r\<lparr>m_ok := 1, m_has_ok := True\<rparr>)"

definition attach_link :: "int \<Rightarrow> app_ctx \<Rightarrow> message \<Rightarrow> world \<Rightarrow> int \<times> app_ctx \<times> world" where
  "attach_link fd ctx i w =
     (let is_tmc = (m_has_dev i \<and> m_dev i = 100);
          ctx1 = (if is_tmc then ctx\<lparr>ax_tmc_fd := fd\<rparr> else ctx\<lparr>ax_pmc_fd := fd\<rparr>)
      in case send_line fd (register_ack i) w of (ok, w1) \<Rightarrow> (if ok then 1 else - 1, ctx1, w1))"

section \<open>Relaying a response\<close>

definition clear_latch :: "u32 \<Rightarrow> module_registry \<Rightarrow> module_registry" where
  "clear_latch dev reg =
     (case module_of_dev dev of
        None \<Rightarrow> reg
      | Some k \<Rightarrow> update_module k (\<lambda>m. m\<lparr>mi_fault_latched := False\<rparr>) reg)"

text \<open>The effect of a positive response on the job, by the type of the request it answers.\<close>

definition job_update :: "pending_request \<Rightarrow> message \<Rightarrow> app_ctx \<Rightarrow> app_ctx" where
  "job_update req i ctx =
     (if m_type i \<noteq> TYPE_ERROR \<and> m_has_ok i \<and> m_ok i = 1
      then (case pr_type req of
              TYPE_STOP \<Rightarrow> ctx\<lparr>ax_job_state := JOB_STOPPED\<rparr>
            | TYPE_RESET \<Rightarrow>
                ctx\<lparr>ax_job_state := JOB_IDLE, ax_registry := clear_latch (pr_dev req) (ax_registry ctx)\<rparr>
            | TYPE_FAULT \<Rightarrow> ctx\<lparr>ax_job_state := JOB_ERROR\<rparr>
            | _ \<Rightarrow> ctx)
      else ctx)"

definition relay_response :: "app_ctx \<Rightarrow> nat \<Rightarrow> message \<Rightarrow> world \<Rightarrow> int \<times> app_ctx \<times> world" where
  "relay_response ctx slot i w =
     (let req = ax_tracker ctx ! slot in
      case (if 0 \<le> pr_client_fd req then send_line (pr_client_fd req) i w else (True, w)) of
        (ok, w1) \<Rightarrow>
          if \<not> ok then (- 1, ctx, w1)
          else (1, (job_update req i ctx)\<lparr>ax_tracker := request_tracker_remove (ax_tracker ctx) (Some slot)\<rparr>, w1))"

section \<open>Routing\<close>

definition client_request :: "int \<Rightarrow> message \<Rightarrow> int \<Rightarrow> pending_request" where
  "client_request fd i now =
     \<lparr>pr_valid = True, pr_client_fd = fd, pr_seq = m_seq i, pr_dev = m_dev i, pr_type = m_type i,
      pr_from_scheduler = False, pr_created_ms = now\<rparr>"

text \<open>Forwarding, when the router returned 2.\<close>

definition forward_request :: "int \<Rightarrow> app_ctx \<Rightarrow> message \<Rightarrow> world \<Rightarrow> int \<times> app_ctx \<times> world" where
  "forward_request fd ctx i w =
     (if \<not> m_has_dev i then (- 1, ctx, w)
      else let target = resolve_target_fd ctx (m_dev i) in
        if target < 0 then (- 1, ctx, w)
        else if m_has_seq i
        then (case request_tracker_alloc (ax_tracker ctx) of
                None \<Rightarrow> (- 1, ctx, w)
              | Some (slot, t1) \<Rightarrow>
                  (case now_ms w of (now, w1) \<Rightarrow>
                     let ctx1 = ctx\<lparr>ax_tracker := t1[slot := client_request fd i now]\<rparr> in
                     case send_line target i w1 of (ok, w2) \<Rightarrow>
                       if ok then (0, ctx1, w2)
                       else (- 1, ctx1\<lparr>ax_tracker := request_tracker_remove (ax_tracker ctx1) (Some slot)\<rparr>, w2)))
        else (case send_line target i w of (ok, w1) \<Rightarrow> (if ok then 0 else - 1, ctx, w1)))"

definition route_line :: "int \<Rightarrow> app_ctx \<Rightarrow> message \<Rightarrow> world \<Rightarrow> int \<times> app_ctx \<times> world" where
  "route_line fd ctx i w =
     (case router_handle (ax_registry ctx) (ax_pmc_fd ctx) (ax_tmc_fd ctx) i w of
        (rr, out, reg, w1) \<Rightarrow>
          let ctx1 = ctx\<lparr>ax_registry := reg\<rparr> in
          if rr = 2 then forward_request fd ctx1 i w1
          else if rr \<le> 0 then (0, ctx1, w1)
          else (case out of
                  None \<Rightarrow> (- 1, ctx1, w1)
                | Some m \<Rightarrow> (case send_line fd m w1 of (ok, w2) \<Rightarrow> (if ok then 1 else - 1, ctx1, w2))))"

definition pending_for :: "int \<Rightarrow> app_ctx \<Rightarrow> message \<Rightarrow> nat option" where
  "pending_for fd ctx i =
     (if is_controller_fd ctx fd \<and> m_role i = ROLE_RESP \<and> m_has_seq i \<and> m_has_dev i
      then request_tracker_find (ax_tracker ctx) (m_seq i) (m_dev i) else None)"

definition handle_one_line :: "int \<Rightarrow> app_ctx \<Rightarrow> bytes \<Rightarrow> world \<Rightarrow> int \<times> app_ctx \<times> world" where
  "handle_one_line fd ctx line w =
     (case line_parse line of
        None \<Rightarrow> (case send_line fd make_parse_error w of (ok, w1) \<Rightarrow> (if ok then 1 else - 1, ctx, w1))
      | Some i \<Rightarrow>
          if m_role i = ROLE_REQ \<and> m_type i = TYPE_REGISTER \<and> (\<not> m_has_dev i \<or> m_dev i = 100)
          then attach_link fd ctx i w
          else (case pending_for fd ctx i of
                  Some slot \<Rightarrow> relay_response ctx slot i w
                | None \<Rightarrow> route_line fd ctx i w))"

section \<open>The scheduler round\<close>

definition start_request :: "scheduler_action \<Rightarrow> message" where
  "start_request act =
     message_zero\<lparr>m_role := ROLE_REQ, m_type := TYPE_START, m_dev := of_int (ac_dev act), m_has_dev := True,
       m_seq := ac_seq act, m_has_seq := True\<rparr>"

definition scheduler_request :: "message \<Rightarrow> int \<Rightarrow> pending_request" where
  "scheduler_request m now =
     \<lparr>pr_valid = True, pr_client_fd = - 1, pr_seq = m_seq m, pr_dev = m_dev m, pr_type = TYPE_START,
      pr_from_scheduler = True, pr_created_ms = now\<rparr>"

definition run_scheduler :: "app_ctx \<Rightarrow> world \<Rightarrow> app_ctx \<times> world" where
  "run_scheduler ctx w =
     (case refresh_module_health (ax_registry ctx) w of
        (reg, w1) \<Rightarrow>
          let ctx1 = ctx\<lparr>ax_registry := reg\<rparr> in
          if ax_pmc_fd ctx1 < 0 then (ctx1, w1)
          else (case scheduler_tick reg (tracker_has_pending (ax_tracker ctx1)) (ax_next_seq ctx1) (ax_job_state ctx1) of
                  (seq, job, act) \<Rightarrow>
                    let ctx2 = ctx1\<lparr>ax_next_seq := seq, ax_job_state := job\<rparr> in
                    if \<not> ac_should_send act then (ctx2, w1)
                    else (case request_tracker_alloc (ax_tracker ctx2) of
                            None \<Rightarrow> (ctx2, w1)
                          | Some (slot, t1) \<Rightarrow>
                              (case now_ms w1 of (now, w2) \<Rightarrow>
                                 let req = start_request act;
                                     t2 = t1[slot := scheduler_request req now];
                                     ctx3 = ctx2\<lparr>ax_tracker := t2\<rparr>;
                                     undo = ctx2\<lparr>ax_tracker := request_tracker_remove t2 (Some slot)\<rparr> in
                                 case line_format req SCHED_BUF of
                                   None \<Rightarrow> (undo, w2)
                                 | Some bs \<Rightarrow>
                                     (case os_write (ax_pmc_fd ctx) bs w2 of
                                        (ok, w3) \<Rightarrow> (if ok then ctx3 else undo, w3))))))"

section \<open>Sending\<close>

lemma send_line_ok:
  assumes "all_writes_ok w" and "message_inv m" and "no_measurements m"
  obtains w' where "send_line fd m w = (True, w')" and "logged w [Wrote fd (wire m)] w'"
proof
  let ?w = "w\<lparr>w_writes := Suc (w_writes w), w_log := w_log w @ [Wrote fd (wire m)]\<rparr>"
  show "send_line fd m w = (True, ?w)"
    using line_format_control [OF assms(2,3)] assms(1) by (simp add: send_line_def)
  show "logged w [Wrote fd (wire m)] ?w" by (simp add: logged_def)
qed

lemma logged_now: "logged w [] (snd (now_ms w))"
  by (simp add: logged_def now_ms_def)

lemma logged_send: "send_line fd m w = (ok, w') \<Longrightarrow> \<exists>es. logged w es w' \<and> closed_fds es = []"
  by (auto simp: send_line_def os_write_def Let_def logged_def split: option.splits if_splits
      intro: exI [of _ "[]"])

section \<open>What a line can change\<close>

text \<open>
  The frame of \<open>handle_one_line\<close>: it never writes the state fields of the registry nor the
  scheduler's sequence number, moves the job only to one of three states, and tracks only
  requests of its own sender.
\<close>

definition line_frame :: "int \<Rightarrow> app_ctx \<Rightarrow> app_ctx \<Rightarrow> bool" where
  "line_frame fd ctx ctx' \<longleftrightarrow>
     (\<forall>k. mi_has_state (get_module k (ax_registry ctx')) = mi_has_state (get_module k (ax_registry ctx)))
   \<and> ax_next_seq ctx' = ax_next_seq ctx
   \<and> (ax_job_state ctx' = ax_job_state ctx \<or> ax_job_state ctx' \<in> {JOB_STOPPED, JOB_IDLE, JOB_ERROR})
   \<and> tracker_inv (ax_tracker ctx')
   \<and> (\<forall>j r. live (ax_tracker ctx') j = Some r \<longrightarrow>
        live (ax_tracker ctx) j = Some r \<or> pr_client_fd r = fd \<and> \<not> pr_from_scheduler r)"

lemma line_frame_refl [simp]: "line_frame fd ctx ctx \<longleftrightarrow> tracker_inv (ax_tracker ctx)"
  by (simp add: line_frame_def)

lemma line_frame_trans:
  assumes "line_frame fd a b" and "line_frame fd b c"
  shows "line_frame fd a c"
proof -
  have "live (ax_tracker a) j = Some r \<or> pr_client_fd r = fd \<and> \<not> pr_from_scheduler r"
    if "live (ax_tracker c) j = Some r" for j r
    using that assms unfolding line_frame_def by blast
  moreover have "ax_job_state c = ax_job_state a \<or> ax_job_state c \<in> {JOB_STOPPED, JOB_IDLE, JOB_ERROR}"
    using assms unfolding line_frame_def by metis
  ultimately show ?thesis using assms unfolding line_frame_def by simp
qed

lemma line_frame_fields:
  "line_frame fd ctx (ctx\<lparr>ax_pmc_fd := a\<rparr>) \<longleftrightarrow> tracker_inv (ax_tracker ctx)"
  "line_frame fd ctx (ctx\<lparr>ax_tmc_fd := a\<rparr>) \<longleftrightarrow> tracker_inv (ax_tracker ctx)"
  by (simp_all add: line_frame_def)

lemma has_state_clear_latch [simp]:
  "mi_has_state (get_module k (clear_latch dev reg)) = mi_has_state (get_module k reg)"
  by (simp add: clear_latch_def split: option.split)

lemma line_frame_job: "tracker_inv (ax_tracker ctx) \<Longrightarrow> line_frame fd ctx (job_update req i ctx)"
  by (simp add: job_update_def line_frame_def split: msg_type.split)

lemma job_update_tracker [simp]: "ax_tracker (job_update req i ctx) = ax_tracker ctx"
  by (simp add: job_update_def split: msg_type.split)

lemma line_frame_remove:
  assumes "tracker_inv (ax_tracker ctx)"
  shows "line_frame fd ctx (ctx\<lparr>ax_tracker := request_tracker_remove (ax_tracker ctx) (Some slot)\<rparr>)"
  using tracker.remove_slots [OF assms, of slot] by (simp add: line_frame_def)

lemma line_frame_store:
  assumes "tracker_inv (ax_tracker ctx)" and "request_tracker_alloc (ax_tracker ctx) = Some (slot, t1)"
  shows "line_frame fd ctx (ctx\<lparr>ax_tracker := t1[slot := client_request fd i now]\<rparr>)"
  using tracker.alloc_Some [OF assms] by (auto simp: line_frame_def client_request_def)

lemma line_frame_relay:
  assumes "tracker_inv (ax_tracker ctx)" and "relay_response ctx slot i w = (rc, ctx', w')"
  shows "line_frame fd ctx ctx'"
proof -
  let ?c = "job_update (ax_tracker ctx ! slot) i ctx"
  have "line_frame fd ctx (?c\<lparr>ax_tracker := request_tracker_remove (ax_tracker ?c) (Some slot)\<rparr>)"
    by (rule line_frame_trans [OF line_frame_job line_frame_remove]) (simp_all add: assms(1))
  with assms show ?thesis by (auto simp: relay_response_def Let_def split: prod.splits if_splits)
qed

lemma line_frame_forward:
  assumes "tracker_inv (ax_tracker ctx)" and "forward_request fd ctx i w = (rc, ctx', w')"
  shows "line_frame fd ctx ctx'"
proof (cases "request_tracker_alloc (ax_tracker ctx)")
  case None
  with assms show ?thesis by (auto simp: forward_request_def Let_def split: prod.splits if_splits)
next
  case (Some a)
  obtain slot t1 where a: "a = (slot, t1)" by fastforce
  let ?c = "ctx\<lparr>ax_tracker := t1[slot := client_request fd i (fst (now_ms w))]\<rparr>"
  have st: "line_frame fd ctx ?c" using line_frame_store [OF assms(1)] Some a by blast
  then have "line_frame fd ctx (?c\<lparr>ax_tracker := request_tracker_remove (ax_tracker ?c) (Some slot)\<rparr>)"
    by (intro line_frame_trans [OF st line_frame_remove]) (simp add: line_frame_def)
  with st show ?thesis using assms Some a
    by (auto simp: forward_request_def Let_def case_prod_beta split: if_splits)
qed

lemma line_frame_route:
  assumes "tracker_inv (ax_tracker ctx)" and "route_line fd ctx i w = (rc, ctx', w')"
  shows "line_frame fd ctx ctx'"
proof -
  obtain rr out reg w1 where r: "router_handle (ax_registry ctx) (ax_pmc_fd ctx) (ax_tmc_fd ctx) i w = (rr, out, reg, w1)"
    by (metis prod_cases4)
  let ?c = "ctx\<lparr>ax_registry := reg\<rparr>"
  have f: "line_frame fd ctx ?c"
    using router_handle_state_fields [OF r] assms(1) by (simp add: line_frame_def)
  show ?thesis
  proof (cases "rr = 2")
    case True
    with assms(2) r have "forward_request fd ?c i w1 = (rc, ctx', w')" by (simp add: route_line_def)
    from line_frame_trans [OF f line_frame_forward [OF _ this]] assms(1) show ?thesis by simp
  next
    case False
    with assms(2) r f show ?thesis
      by (auto simp: route_line_def Let_def split: if_splits option.splits prod.splits)
  qed
qed

lemma handle_one_line_frame:
  assumes "tracker_inv (ax_tracker ctx)" and "handle_one_line fd ctx line w = (rc, ctx', w')"
  shows "line_frame fd ctx ctx'"
proof (cases "line_parse line")
  case None
  with assms show ?thesis by (auto simp: handle_one_line_def split: prod.splits)
next
  case (Some i)
  consider "attach_link fd ctx i w = (rc, ctx', w')" | slot where "relay_response ctx slot i w = (rc, ctx', w')"
    | "route_line fd ctx i w = (rc, ctx', w')"
    using assms(2) Some by (auto simp: handle_one_line_def split: if_splits option.splits)
  then show ?thesis
  proof cases
    case 1
    with assms(1) show ?thesis
      by (auto simp: attach_link_def Let_def line_frame_fields split: prod.splits if_splits)
  next
    case 2
    from line_frame_relay [OF assms(1) this] show ?thesis .
  next
    case 3
    from line_frame_route [OF assms(1) this] show ?thesis .
  qed
qed

section \<open>From the client to the controller and back\<close>

lemma serving_resolve: "serving_fd (ax_pmc_fd ctx) (ax_tmc_fd ctx) dev = Some t \<Longrightarrow>
    resolve_target_fd ctx dev = t \<and> 0 \<le> t \<and> is_controller_fd ctx t"
  by (auto simp: serving_fd_def resolve_target_fd_def is_controller_fd_def Let_def split: if_splits)

lemma router_forwards:
  assumes "device_request i" and "serving_fd p t (m_dev i) \<noteq> None"
  shows "router_handle reg p t i w = (2, None, reg, w)"
proof -
  have r: "m_role i = ROLE_REQ" using assms(1) by (simp add: device_request_def)
  obtain rc out where q: "router_req p t i = (rc, out)" by fastforce
  then have "rc = 2" using router_req_forward [OF r, of p t] assms by simp
  with router_req_cases [OF q] q r show ?thesis by (simp add: router_handle_def)
qed

lemma device_request_line:
  assumes "device_request i" and "line_parse l = Some i" and "serving_fd (ax_pmc_fd ctx) (ax_tmc_fd ctx) (m_dev i) \<noteq> None"
  shows "handle_one_line fd ctx l w = forward_request fd ctx i w"
proof -
  have "m_type i \<noteq> TYPE_REGISTER" "m_role i = ROLE_REQ"
    using assms(1) by (auto simp: device_request_def)
  then show ?thesis
    using router_forwards [OF assms(1,3)] assms(2)
    by (simp add: handle_one_line_def pending_for_def route_line_def Let_def)
qed

text \<open>A request for a connected device, with a free slot and a controller that takes the bytes.\<close>

lemma forward_ok:
  assumes dr: "device_request i" and fd: "serving_fd (ax_pmc_fd ctx) (ax_tmc_fd ctx) (m_dev i) = Some target"
    and inv: "message_inv i" and nm: "no_measurements i" and w: "all_writes_ok w"
    and al: "request_tracker_alloc (ax_tracker ctx) = Some (slot, t1)"
  obtains now w' where "forward_request fd ctx i w = (0, ctx\<lparr>ax_tracker := t1[slot := client_request fd i now]\<rparr>, w')"
    and "logged w [Wrote target (wire i)] w'"
proof -
  let ?w1 = "snd (now_ms w)"
  have "all_writes_ok ?w1" using w by (simp add: now_ms_def)
  from send_line_ok [OF this inv nm, of target] obtain w' where
    s: "send_line target i ?w1 = (True, w')" "logged ?w1 [Wrote target (wire i)] w'" .
  have "logged w [Wrote target (wire i)] w'" using logged_trans [OF logged_now s(2)] by simp
  moreover have "forward_request fd ctx i w =
      (0, ctx\<lparr>ax_tracker := t1[slot := client_request fd i (fst (now_ms w))]\<rparr>, w')"
    using dr serving_resolve [OF fd] al s(1)
    by (simp add: forward_request_def device_request_def Let_def case_prod_beta)
  ultimately show ?thesis using that by blast
qed

text \<open>A response to a tracked request of a live client.\<close>

lemma relay_ok:
  assumes p: "pending_for fd ctx r = Some slot" and l: "line_parse l = Some r"
    and req: "ax_tracker ctx ! slot = req" "0 \<le> pr_client_fd req" and nm: "no_measurements r" and w: "all_writes_ok w"
  obtains w' where "handle_one_line fd ctx l w =
      (1, (job_update req r ctx)\<lparr>ax_tracker := request_tracker_remove (ax_tracker ctx) (Some slot)\<rparr>, w')"
    and "logged w [Wrote (pr_client_fd req) (wire r)] w'"
proof -
  from send_line_ok [OF w line_parse_message_inv [OF l] nm, of "pr_client_fd req"] obtain w' where
    s: "send_line (pr_client_fd req) r w = (True, w')" "logged w [Wrote (pr_client_fd req) (wire r)] w'" .
  have "m_role r = ROLE_RESP" using p by (simp add: pending_for_def split: if_splits)
  then have "handle_one_line fd ctx l w =
      (1, (job_update req r ctx)\<lparr>ax_tracker := request_tracker_remove (ax_tracker ctx) (Some slot)\<rparr>, w')"
    using p l req s(1) by (simp add: handle_one_line_def relay_response_def Let_def)
  with s(2) that show ?thesis by blast
qed

lemma relay_round_trip:
  assumes "tracker_inv (ax_tracker ctx)" and "card (dom (live (ax_tracker ctx))) < REQUEST_TRACKER_MAX"
    and "\<And>j q. live (ax_tracker ctx) j = Some q \<Longrightarrow> \<not> (pr_seq q = m_seq i \<and> pr_dev q = m_dev i)"
    and "line_parse l = Some i" and "device_request i" and "no_measurements i"
    and "serving_fd (ax_pmc_fd ctx) (ax_tmc_fd ctx) (m_dev i) = Some target" and "0 \<le> fd" and "all_writes_ok w"
    and "line_parse l2 = Some r" and "m_role r = ROLE_RESP" and "m_has_seq r \<and> m_seq r = m_seq i"
    and "m_has_dev r \<and> m_dev r = m_dev i" and "no_measurements r"
  shows "\<exists>ctx1 w1 ctx2 w2.
      handle_one_line fd ctx l w = (0, ctx1, w1) \<and> logged w [Wrote target (wire i)] w1
    \<and> handle_one_line target ctx1 l2 w1 = (1, ctx2, w2) \<and> logged w1 [Wrote fd (wire r)] w2
    \<and> live (ax_tracker ctx2) = live (ax_tracker ctx)"
proof -
  from tracker.room_iff [OF assms(1)] assms(2) obtain slot t1 where al: "request_tracker_alloc (ax_tracker ctx) = Some (slot, t1)"
    by fastforce
  from forward_ok [OF assms(5,7) line_parse_message_inv [OF assms(4)] assms(6,9) al, of fd]
  obtain now w1 where f: "forward_request fd ctx i w = (0, ctx\<lparr>ax_tracker := t1[slot := client_request fd i now]\<rparr>, w1)"
    and lg: "logged w [Wrote target (wire i)] w1" .
  let ?req = "client_request fd i now" and ?c = "ctx\<lparr>ax_tracker := t1[slot := client_request fd i now]\<rparr>"
  note st = tracker.alloc_Some [OF assms(1) al]
  have live1: "live (ax_tracker ?c) = (live (ax_tracker ctx))(slot \<mapsto> ?req)" "tracker_inv (ax_tracker ?c)"
    using st by (simp_all add: client_request_def)
  have keys: "pr_seq ?req = m_seq i" "pr_dev ?req = m_dev i" "pr_valid ?req" "pr_client_fd ?req = fd"
    by (simp_all add: client_request_def)
  have "request_tracker_find (ax_tracker ?c) (m_seq i) (m_dev i) = Some slot"
    using tracker.track_then_find [OF assms(1) al keys(3)] assms(3) by (simp add: keys)
  then have p: "pending_for target ?c r = Some slot"
    using assms(11-13) serving_resolve [OF assms(7)] by (simp add: pending_for_def is_controller_fd_def)
  have at: "ax_tracker ?c ! slot = ?req"
    by (rule live_at) (simp only: live1(1) fun_upd_same)
  have "all_writes_ok w1" using logged_writes_ok [OF lg] assms(9) by simp
  from relay_ok [OF p assms(10) at _ assms(14) this] assms(8) keys obtain w2 where
    h2: "handle_one_line target ?c l2 w1 =
      (1, (job_update ?req r ?c)\<lparr>ax_tracker := request_tracker_remove (ax_tracker ?c) (Some slot)\<rparr>, w2)"
    "logged w1 [Wrote fd (wire r)] w2" by auto
  have "live (request_tracker_remove (ax_tracker ?c) (Some slot)) = live (ax_tracker ctx)"
    using conjunct1 [OF tracker.remove_slots [OF live1(2), of slot]] conjunct1 [OF conjunct2 [OF st]]
    unfolding live1(1) by auto
  moreover have "handle_one_line fd ctx l w = (0, ?c, w1)"
    using device_request_line [OF assms(5,4)] assms(7) f by simp
  moreover have "ax_tracker ((job_update ?req r ?c)\<lparr>ax_tracker := request_tracker_remove (ax_tracker ?c) (Some slot)\<rparr>)
      = request_tracker_remove (ax_tracker ?c) (Some slot)" by simp
  ultimately show ?thesis using lg h2 by metis
qed

text \<open>
  C2: The round trip of a request: a client's request for a connected device is written, unchanged,
  to the controller of that device and to nobody else; the controller's response with the same
  sequence and device numbers is written, unchanged, to the client that asked and to nobody else;
  afterwards nothing of the request is left in the tracker.
\<close>

theorem request_reply_relay:
  assumes "tracker_inv (ax_tracker ctx)" and "card (dom (live (ax_tracker ctx))) < REQUEST_TRACKER_MAX"
    and "\<And>j q. live (ax_tracker ctx) j = Some q \<Longrightarrow> \<not> (pr_seq q = m_seq i \<and> pr_dev q = m_dev i)"
    and "line_parse l = Some i" and "device_request i" and "no_measurements i"
    and "serving_fd (ax_pmc_fd ctx) (ax_tmc_fd ctx) (m_dev i) = Some target" and "0 \<le> fd" and "all_writes_ok w"
    and "line_parse l2 = Some r" and "m_role r = ROLE_RESP" and "m_has_seq r \<and> m_seq r = m_seq i"
    and "m_has_dev r \<and> m_dev r = m_dev i" and "no_measurements r"
  shows "\<exists>ctx1 w1 ctx2 w2.
      handle_one_line fd ctx l w = (0, ctx1, w1) \<and> logged w [Wrote target (wire i)] w1
    \<and> handle_one_line target ctx1 l2 w1 = (1, ctx2, w2) \<and> logged w1 [Wrote fd (wire r)] w2
    \<and> live (ax_tracker ctx2) = live (ax_tracker ctx)"
  by (rule relay_round_trip [OF assms])

text \<open>A context for examples: both controllers linked, nothing pending.\<close>

definition sample_ctx :: app_ctx where
  "sample_ctx = \<lparr>ax_dev_mgr = device_manager_init undefined, ax_registry = module_registry_init, ax_pmc_fd = 5,
     ax_tmc_fd = 6, ax_tracker = request_tracker_init, ax_next_seq = 1000, ax_job_state = JOB_IDLE\<rparr>"

lemma sample_ctx_fields [simp]:
  "ax_pmc_fd sample_ctx = 5" "ax_tmc_fd sample_ctx = 6" "ax_tracker sample_ctx = request_tracker_init"
  "ax_registry sample_ctx = module_registry_init" "ax_next_seq sample_ctx = 1000" "ax_job_state sample_ctx = JOB_IDLE"
  by (simp_all add: sample_ctx_def)

theorem request_reply_relay_witness:
  "\<exists>ctx1 w1 ctx2 w2.
      handle_one_line 9 sample_ctx (wire sample_start) (quiet_world 3) = (0, ctx1, w1)
    \<and> handle_one_line 5 ctx1 (wire (resp_base sample_start)) w1 = (1, ctx2, w2)
    \<and> logged w1 [Wrote 9 (wire (resp_base sample_start))] w2"
proof -
  have "serving_fd (ax_pmc_fd sample_ctx) (ax_tmc_fd sample_ctx) (m_dev sample_start) = Some 5"
    by (simp add: serving_fd_def)
  moreover have "card (dom (live (ax_tracker sample_ctx))) < REQUEST_TRACKER_MAX" by simp
  ultimately have "\<exists>ctx1 w1 ctx2 w2.
      handle_one_line 9 sample_ctx (wire sample_start) (quiet_world 3) = (0, ctx1, w1)
    \<and> logged (quiet_world 3) [Wrote 5 (wire sample_start)] w1
    \<and> handle_one_line 5 ctx1 (wire (resp_base sample_start)) w1 = (1, ctx2, w2)
    \<and> logged w1 [Wrote 9 (wire (resp_base sample_start))] w2
    \<and> live (ax_tracker ctx2) = live (ax_tracker sample_ctx)"
    by (intro request_reply_relay [where i = sample_start]) simp_all
  then show ?thesis by blast
qed

section \<open>One line out for each request line\<close>



lemma make_error_fits [simp]:
  "length t < MSG_CAP \<Longrightarrow> NUL \<notin> set t \<Longrightarrow> message_inv (make_error i c (Some t))"
  by (simp add: message_inv_def strncpy_field_id)

lemma resp_base_fits [simp]: "message_inv (resp_base i)"
  by (simp add: message_inv_def)







section \<open>The scheduler round\<close>

text \<open>
  The dormant contexts: no module has a recorded state, the job is in one of three states, the
  sequence counter is untouched and no START of the scheduler is pending.
\<close>

definition dormant :: "app_ctx \<Rightarrow> bool" where
  "dormant ctx \<longleftrightarrow>
     (\<forall>k. \<not> mi_has_state (get_module k (ax_registry ctx)))
   \<and> ax_job_state ctx \<in> {JOB_IDLE, JOB_STOPPED, JOB_ERROR} \<and> ax_next_seq ctx = 1000
   \<and> tracker_inv (ax_tracker ctx)
   \<and> (\<forall>j r. live (ax_tracker ctx) j = Some r \<longrightarrow> \<not> pr_from_scheduler r)"

lemma dormant_line:
  assumes "dormant ctx" and "handle_one_line fd ctx line w = (rc, ctx', w')"
  shows "dormant ctx'"
proof -
  have "line_frame fd ctx ctx'"
    by (rule handle_one_line_frame [OF _ assms(2)]) (use assms(1) in \<open>simp add: dormant_def\<close>)
  with assms(1) show ?thesis unfolding dormant_def line_frame_def
    by (elim conjE, intro conjI allI impI) (simp, fastforce, simp, simp, blast)
qed

lemma run_scheduler_dormant:
  assumes "dormant ctx" and "run_scheduler ctx w = (ctx', w')"
  shows "dormant ctx' \<and> logged w [] w' \<and> ax_pmc_fd ctx' = ax_pmc_fd ctx"
proof -
  obtain reg w1 where r: "refresh_module_health (ax_registry ctx) w = (reg, w1)" by fastforce
  have hs: "\<not> mi_has_state (get_module k reg)" for k
    using refresh_get [of k "ax_registry ctx" w] assms(1) by (simp add: r dormant_def)
  have w1: "logged w [] w1" using r logged_now [of w] by (auto simp: refresh_module_health_def case_prod_beta)
  have "scheduler_tick reg pend (ax_next_seq ctx) (ax_job_state ctx) = (ax_next_seq ctx, ax_job_state ctx, no_action)" for pend
    by (rule tick_stateless) (use hs assms(1) in \<open>auto simp: dormant_def\<close>)
  with assms r hs w1 show ?thesis
    by (auto simp: run_scheduler_def dormant_def Let_def split: if_splits)
qed

lemma start_request_fits [simp]: "message_inv (start_request a)" "no_measurements (start_request a)"
  by (simp_all add: start_request_def message_inv_def no_measurements_def message_zero_def)

text \<open>A round with a command, reduced to the one write: which tracker is left on each outcome.\<close>

lemma run_scheduler_send:
  assumes inv: "tracker_inv (ax_tracker ctx)" and fd: "0 \<le> ax_pmc_fd ctx"
    and empty: "live (ax_tracker ctx) = Map.empty"
    and tick: "scheduler_tick (fst (refresh_module_health (ax_registry ctx) w)) (tracker_has_pending (ax_tracker ctx))
        (ax_next_seq ctx) (ax_job_state ctx) = (seq, job, act)"
    and send: "ac_should_send act"
  obtains slot t q reg w2 where "live t = [slot \<mapsto> q]" "live (request_tracker_remove t (Some slot)) = Map.empty"
    and "pr_from_scheduler q" "pr_seq q = ac_seq act" "logged w [] w2" "w_writes w2 = w_writes w"
    and "run_scheduler ctx w =
     (case os_write (ax_pmc_fd ctx) (wire (start_request act)) w2 of (ok, w3) \<Rightarrow>
        (ctx\<lparr>ax_registry := reg, ax_next_seq := seq, ax_job_state := job,
             ax_tracker := if ok then t else request_tracker_remove t (Some slot)\<rparr>, w3))"
proof -
  have "card (dom (live (ax_tracker ctx))) < REQUEST_TRACKER_MAX" by (simp add: empty)
  with tracker.room_iff [OF inv] obtain slot t1 where al: "request_tracker_alloc (ax_tracker ctx) = Some (slot, t1)"
    by fastforce
  obtain reg w1 where r: "refresh_module_health (ax_registry ctx) w = (reg, w1)" by fastforce
  obtain now w2 where n: "now_ms w1 = (now, w2)" by fastforce
  let ?q = "scheduler_request (start_request act) now"
  note st = tracker.alloc_Some [OF inv al]
  have q: "pr_valid ?q" "pr_from_scheduler ?q" "pr_seq ?q = ac_seq act"
    by (simp_all add: scheduler_request_def start_request_def)
  have l1: "live (t1[slot := ?q]) = [slot \<mapsto> ?q]" "tracker_inv (t1[slot := ?q])" using st q(1) empty by simp_all
  have l2: "live (request_tracker_remove (t1[slot := ?q]) (Some slot)) = Map.empty"
    using tracker.remove_slots [OF l1(2), of slot] by (simp add: l1(1))
  have f: "line_format (start_request act) SCHED_BUF = Some (wire (start_request act))"
    by (rule line_format_control) simp_all
  show thesis
    by (rule that [OF l1(1) l2 q(2,3), of w2 reg])
      (use fd tick send al r n in \<open>auto simp: run_scheduler_def f Let_def logged_def refresh_module_health_def now_ms_def
        split: prod.splits\<close>)
qed

text \<open>
  C34: What a round does when the scheduler decides to command a START: with a controller that takes
  the bytes, exactly that request is written to it and exactly one request is pending; when the
  write fails nothing is pending, but the job has advanced all the same, so the command is not
  tried again.
\<close>

theorem scheduler_round:
  assumes inv: "tracker_inv (ax_tracker ctx)" and fd: "0 \<le> ax_pmc_fd ctx"
    and tick: "scheduler_tick (fst (refresh_module_health (ax_registry ctx) w)) (tracker_has_pending (ax_tracker ctx))
        (ax_next_seq ctx) (ax_job_state ctx) = (seq, job, act)"
    and send: "ac_should_send act" and run: "run_scheduler ctx w = (ctx', w')"
  shows "ax_next_seq ctx' = ax_next_seq ctx + 1 \<and> ax_job_state ctx' = job
    \<and> job \<in> {JOB_PRECLEAN_SENT, JOB_DEPOSITION_SENT}
    \<and> (if w_write_ok w (w_writes w)
       then logged w [Wrote (ax_pmc_fd ctx) (wire (start_request act))] w'
          \<and> (\<exists>r. ran (live (ax_tracker ctx')) = {r} \<and> pr_from_scheduler r \<and> pr_seq r = ac_seq act)
       else logged w [] w' \<and> live (ax_tracker ctx') = Map.empty)"
proof -
  have t: "seq = ax_next_seq ctx + 1" "job \<in> {JOB_PRECLEAN_SENT, JOB_DEPOSITION_SENT}"
    and "\<not> tracker_has_pending (ax_tracker ctx)" using tick_send [OF tick] send by auto
  then have "live (ax_tracker ctx) = Map.empty" using has_pending_iff [OF inv] by blast
  from run_scheduler_send [OF inv fd this tick send] obtain slot tr q reg w2 where
    l: "live tr = [slot \<mapsto> q]" "live (request_tracker_remove tr (Some slot)) = Map.empty"
    and q: "pr_from_scheduler q" "pr_seq q = ac_seq act" and w2: "logged w [] w2" "w_writes w2 = w_writes w"
    and "run_scheduler ctx w =
     (case os_write (ax_pmc_fd ctx) (wire (start_request act)) w2 of (ok, w3) \<Rightarrow>
        (ctx\<lparr>ax_registry := reg, ax_next_seq := seq, ax_job_state := job,
             ax_tracker := if ok then tr else request_tracker_remove tr (Some slot)\<rparr>, w3))" .
  with run have r: "(ctx', w') =
     (case os_write (ax_pmc_fd ctx) (wire (start_request act)) w2 of (ok, w3) \<Rightarrow>
        (ctx\<lparr>ax_registry := reg, ax_next_seq := seq, ax_job_state := job,
             ax_tracker := if ok then tr else request_tracker_remove tr (Some slot)\<rparr>, w3))" by simp
  show ?thesis
    using r t l q w2 by (auto simp: os_write_def Let_def logged_def)
qed

text \<open>A module of this registry was heard of half a second ago.\<close>

definition fresh_ctx :: app_ctx where
  "fresh_ctx = sample_ctx\<lparr>ax_registry := (seen ''IDLE'' ''IDLE'')
     \<lparr>rg_pmc_preclean := (rg_pmc_preclean (seen ''IDLE'' ''IDLE''))\<lparr>mi_last_update_ms := 2500\<rparr>\<rparr>\<rparr>"

theorem scheduler_round_witness:
  "ax_job_state (fst (run_scheduler fresh_ctx (quiet_world 3))) = JOB_PRECLEAN_SENT
   \<and> logged (quiet_world 3) [Wrote 5 (wire (start_request (start_action 1000 1)))] (snd (run_scheduler fresh_ctx (quiet_world 3)))"
proof -
  obtain c w where h: "run_scheduler fresh_ctx (quiet_world 3) = (c, w)" by fastforce
  have "\<not> tracker_has_pending (ax_tracker fresh_ctx)"
    by (simp add: fresh_ctx_def has_pending_iff)
  then have t: "scheduler_tick (fst (refresh_module_health (ax_registry fresh_ctx) (quiet_world 3)))
      (tracker_has_pending (ax_tracker fresh_ctx)) (ax_next_seq fresh_ctx) (ax_job_state fresh_ctx)
      = (1001, JOB_PRECLEAN_SENT, start_action 1000 1)"
    by (simp add: scheduler_tick_eq Let_def fresh_ctx_def refresh_module_health_def now_ms_def ms_of_timespec_def
        quiet_world_def seen_def is_state_def is_done_def is_idle_usable_def module_registry_is_stale_def module_zero_def)
  have "tracker_inv (ax_tracker fresh_ctx)" "0 \<le> ax_pmc_fd fresh_ctx" by (simp_all add: fresh_ctx_def)
  moreover have "ax_pmc_fd fresh_ctx = 5" "w_write_ok (quiet_world 3) n" for n
    by (simp_all add: fresh_ctx_def quiet_world_def)
  ultimately show ?thesis using scheduler_round [OF _ _ t _ h] by (simp add: h)
qed

section \<open>Lines that fail\<close>

text \<open>A request for a connected device when all sixteen slots are taken.\<close>

lemma tracker_full_fails:
  assumes "device_request i" and "line_parse l = Some i"
    and "serving_fd (ax_pmc_fd ctx) (ax_tmc_fd ctx) (m_dev i) = Some target"
    and "request_tracker_alloc (ax_tracker ctx) = None"
  shows "handle_one_line fd ctx l w = (- 1, ctx, w)"
proof -
  have "handle_one_line fd ctx l w = forward_request fd ctx i w"
    using device_request_line [OF assms(1,2)] assms(3) by simp
  then show ?thesis using assms(1,4) serving_resolve [OF assms(3)]
    by (simp add: forward_request_def device_request_def Let_def)
qed

text \<open>
  C38: A response whose client is gone: the failed write to the client makes the line of the
  controller a failure, the context is left as it was, and the request stays pending.
\<close>

theorem dead_client_fails_controller:
  assumes "pending_for fd ctx r = Some slot" and "line_parse l = Some r"
    and "0 \<le> pr_client_fd (ax_tracker ctx ! slot)" and "\<not> w_write_ok w (w_writes w)"
  shows "fst (handle_one_line fd ctx l w) = - 1 \<and> fst (snd (handle_one_line fd ctx l w)) = ctx
     \<and> logged w [] (snd (snd (handle_one_line fd ctx l w)))"
proof -
  have "m_role r = ROLE_RESP" using assms(1) by (simp add: pending_for_def split: if_splits)
  moreover have "\<not> fst (send_line d r w) \<and> logged w [] (snd (send_line d r w))" for d
    using assms(4) by (simp add: send_line_def os_write_def logged_def Let_def split: option.split)
  ultimately show ?thesis
    using assms(1-3) by (simp add: handle_one_line_def relay_response_def Let_def case_prod_beta)
qed

theorem dead_client_fails_controller_witness:
  "fst (handle_one_line 5 (sample_ctx\<lparr>ax_tracker := request_tracker_init[0 := client_request 9 sample_start 0]\<rparr>)
     (wire (resp_base sample_start)) ((quiet_world 3)\<lparr>w_write_ok := \<lambda>_. False\<rparr>)) = - 1"
proof -
  let ?c = "sample_ctx\<lparr>ax_tracker := request_tracker_init[0 := client_request 9 sample_start 0]\<rparr>"
  have "pending_for 5 ?c (resp_base sample_start) = Some 0"
    by (simp add: pending_for_def is_controller_fd_def request_tracker_find_def first_slot.simps [of _ _ 0]
        request_tracker_init_def client_request_def)
  from dead_client_fails_controller [OF this sample_reply_parsed, of "(quiet_world 3)\<lparr>w_write_ok := \<lambda>_. False\<rparr>"]
  show ?thesis by (simp add: request_tracker_init_def client_request_def)
qed

end
