(* ===== verification/Eqd_Main.thy ===== *)
theory Eqd_Main
  imports Eqd_Core
begin

text \<open>
  \<^verbatim>\<open>services/equipmentd/src/main.c\<close>, the sockets: accepting, reading, closing, and the poll loop.
  The daemon's state is the context, the connection table and the C heap.  What the kernel and
  the allocator answer is part of the input of a round: the answers of \<^verbatim>\<open>accept\<close>, \<^verbatim>\<open>fcntl\<close>, \<^verbatim>\<open>malloc\<close>
  and \<^verbatim>\<open>epoll_ctl\<close>, and the answers of the successive \<^verbatim>\<open>read\<close>s (a list that ends is a read that
  would block).
\<close>

record eqd =
  eq_ctx :: app_ctx
  eq_table :: "addr list"
  eq_heap :: heap

section \<open>Closing\<close>

text \<open>Clearing the links of a descriptor that is about to be closed.\<close>

definition forget_links :: "int \<Rightarrow> app_ctx \<Rightarrow> app_ctx" where
  "forget_links fd ctx =
     (let ctx1 = (if fd = ax_pmc_fd ctx then ctx\<lparr>ax_pmc_fd := - 1\<rparr> else ctx)
      in if fd = ax_tmc_fd ctx1 then ctx1\<lparr>ax_tmc_fd := - 1\<rparr> else ctx1)"

definition close_connection :: "addr \<Rightarrow> eqd \<Rightarrow> world \<Rightarrow> c_fault + (eqd \<times> world)" where
  "close_connection p q w =
     (case eq_heap q p of
        None \<Rightarrow> Inl UseAfterFree
      | Some c \<Rightarrow> Inr (q\<lparr>eq_table := unregister_connection p (eq_table q), eq_heap := (eq_heap q)(p := None)\<rparr>,
                       drop_fd (cn_fd c) w))"

section \<open>A readable client\<close>

text \<open>
  The inner loop over the complete lines of the session.  The Boolean is \<open>True\<close> when a line failed;
  the loop then stops.
\<close>

function client_lines :: "int \<Rightarrow> session_t \<Rightarrow> app_ctx \<Rightarrow> world \<Rightarrow> bool \<times> session_t \<times> app_ctx \<times> world" where
  "client_lines fd s ctx w =
     (case session_pop_line s EQD_BUF of
        PopLine line s1 \<Rightarrow>
          (case handle_one_line fd ctx line w of
             (rc, ctx1, w1) \<Rightarrow> if rc < 0 then (True, s1, ctx1, w1) else client_lines fd s1 ctx1 w1)
      | _ \<Rightarrow> (False, s, ctx, w))"
  by pat_completeness auto
termination
  by (relation "measure (\<lambda>(fd, s, ctx, w). s_len s)") (auto dest: session_pop_line_shorter)

declare client_lines.simps [simp del]

text \<open>
  The outer loop over the reads.  After a failed line the C code closes and frees the connection,
  leaves the inner loop and reads \<^verbatim>\<open>conn->state\<close>: the lookup \<open>eq_heap q3 p\<close> below.
\<close>

fun client_reads :: "addr \<Rightarrow> int \<Rightarrow> recv_result list \<Rightarrow> eqd \<Rightarrow> world \<Rightarrow> c_fault + (eqd \<times> world)" where
  "client_reads p fd [] q w = Inr (q, w)"
| "client_reads p fd (RecvAgain # rs) q w = Inr (q, w)"
| "client_reads p fd (RecvClosed # rs) q w = close_connection p (q\<lparr>eq_ctx := forget_links fd (eq_ctx q)\<rparr>) w"
| "client_reads p fd (RecvError # rs) q w = close_connection p (q\<lparr>eq_ctx := forget_links fd (eq_ctx q)\<rparr>) w"
| "client_reads p fd (RecvData bs # rs) q w =
     (case eq_heap q p of
        None \<Rightarrow> Inl UseAfterFree
      | Some c \<Rightarrow>
          (case now_ms w of (now, w1) \<Rightarrow>
             let c1 = c\<lparr>cn_last_active_ms := now\<rparr> in
             case session_feed (cn_session c1) bs of
               None \<Rightarrow> close_connection p (q\<lparr>eq_heap := (eq_heap q)(p \<mapsto> c1)\<rparr>) w1
             | Some s \<Rightarrow>
                 (case client_lines fd s (eq_ctx q) w1 of (bad, s2, ctx2, w2) \<Rightarrow>
                    let q2 = q\<lparr>eq_ctx := ctx2, eq_heap := (eq_heap q)(p \<mapsto> c1\<lparr>cn_session := s2\<rparr>)\<rparr> in
                    case (if bad then close_connection p (q2\<lparr>eq_ctx := forget_links fd ctx2\<rparr>) w2 else Inr (q2, w2)) of
                      Inl e \<Rightarrow> Inl e
                    | Inr (q3, w3) \<Rightarrow>
                        (case eq_heap q3 p of
                           None \<Rightarrow> Inl UseAfterFree
                         | Some c3 \<Rightarrow>
                             if cn_state c3 = CONN_CLOSED then Inr (q3, w3) else client_reads p fd rs q3 w3))))"

definition handle_client_event :: "addr \<Rightarrow> recv_result list \<Rightarrow> eqd \<Rightarrow> world \<Rightarrow> c_fault + (eqd \<times> world)" where
  "handle_client_event p reads q w =
     (case eq_heap q p of None \<Rightarrow> Inl UseAfterFree | Some c \<Rightarrow> client_reads p (cn_fd c) reads q w)"

section \<open>New connections\<close>

text \<open>
  One turn of the accept loop: no more connections, another error, or a descriptor with the
  results of making it non-blocking, of \<^verbatim>\<open>malloc\<close> and of adding it to the poll set.
\<close>

datatype accept_result = AcceptAgain | AcceptError | Accepted int bool "addr option" bool

fun handle_accept_event :: "accept_result list \<Rightarrow> eqd \<Rightarrow> world \<Rightarrow> eqd \<times> world" where
  "handle_accept_event [] q w = (q, w)"
| "handle_accept_event (AcceptAgain # rs) q w = (q, w)"
| "handle_accept_event (AcceptError # rs) q w = (q, w)"
| "handle_accept_event (Accepted fd nonblock mem added # rs) q w =
     (if \<not> nonblock then handle_accept_event rs q (os_log (Closed fd) w)
      else case mem of
             None \<Rightarrow> handle_accept_event rs q (os_log (Closed fd) w)
           | Some p \<Rightarrow>
               (case now_ms w of (now, w1) \<Rightarrow>
                  let c = \<lparr>cn_fd = fd, cn_session = session_init session_zero, cn_last_active_ms = now, cn_state = CONN_OPEN\<rparr>;
                      q1 = q\<lparr>eq_heap := (eq_heap q)(p \<mapsto> c), eq_table := register_connection p (eq_table q)\<rparr>
                  in if added then handle_accept_event rs q1 (os_log (EpollAdd fd) w1)
                     else handle_accept_event rs
                            (q1\<lparr>eq_table := unregister_connection p (eq_table q1), eq_heap := (eq_heap q1)(p := None)\<rparr>)
                            (os_log (Closed fd) w1)))"

section \<open>The poll loop\<close>

datatype eqd_event = AcceptEvent "accept_result list" | ClientEvent addr "recv_result list"

fun dispatch_events :: "eqd_event list \<Rightarrow> eqd \<Rightarrow> world \<Rightarrow> c_fault + (eqd \<times> world)" where
  "dispatch_events [] q w = Inr (q, w)"
| "dispatch_events (AcceptEvent rs # es) q w = (case handle_accept_event rs q w of (q1, w1) \<Rightarrow> dispatch_events es q1 w1)"
| "dispatch_events (ClientEvent p rs # es) q w =
     (case handle_client_event p rs q w of
        Inl e \<Rightarrow> Inl e
      | Inr (q1, w1) \<Rightarrow> dispatch_events es q1 w1)"

datatype poll_result = PollReady "eqd_event list" | PollEintr | PollError

text \<open>One turn of the loop in \<^verbatim>\<open>main\<close>; the Boolean is \<open>False\<close> for the \<^verbatim>\<open>break\<close>.\<close>

definition eqd_iteration :: "poll_result \<Rightarrow> eqd \<Rightarrow> world \<Rightarrow> c_fault + (bool \<times> eqd \<times> world)" where
  "eqd_iteration pr q w =
     (case pr of
        PollEintr \<Rightarrow> Inr (True, q, w)
      | PollError \<Rightarrow> Inr (False, q, w)
      | PollReady evs \<Rightarrow>
          (case dispatch_events evs q w of
             Inl e \<Rightarrow> Inl e
           | Inr (q1, w1) \<Rightarrow>
               (case run_scheduler (eq_ctx q1) w1 of (ctx2, w2) \<Rightarrow>
                case now_ms w2 of (now, w3) \<Rightarrow>
                let ctx3 = ctx2\<lparr>ax_tracker := request_tracker_sweep_timeouts (ax_tracker ctx2) now\<rparr> in
                case now_ms w3 of (now2, w4) \<Rightarrow>
                case scan_connection_timeout now2 (eq_table q1) (eq_heap q1) w4 of
                  Inl e \<Rightarrow> Inl e
                | Inr (tbl, hp, w5) \<Rightarrow> Inr (True, \<lparr>eq_ctx = ctx3, eq_table = tbl, eq_heap = hp\<rparr>, w5))))"

definition eqd_boot :: eqd where
  "eqd_boot =
     \<lparr>eq_ctx = \<lparr>ax_dev_mgr = device_manager_init \<lparr>dm_devices = [], dm_initialized = False\<rparr>,
        ax_registry = module_registry_init, ax_pmc_fd = - 1, ax_tmc_fd = - 1, ax_tracker = request_tracker_init,
        ax_next_seq = 1000, ax_job_state = JOB_IDLE\<rparr>,
      eq_table = [], eq_heap = Map.empty\<rparr>"

section \<open>Invariants\<close>

text \<open>
  The table and the heap agree, every live object is an open connection with a sound session, and
  the context is dormant (which includes that the tracker has its sixteen slots).\<close>

definition eqd_inv :: "eqd \<Rightarrow> bool" where
  "eqd_inv q \<longleftrightarrow> conns_inv (eq_table q) (eq_heap q)
     \<and> (\<forall>p c. eq_heap q p = Some c \<longrightarrow> cn_state c = CONN_OPEN \<and> session_inv (cn_session c))
     \<and> dormant (eq_ctx q)"

lemma eqd_inv_boot [simp]: "eqd_inv eqd_boot"
  by (simp add: eqd_inv_def eqd_boot_def conns_inv_def dormant_def) (simp add: module_zero_def)

lemma forget_links_fields [simp]:
  "ax_registry (forget_links fd ctx) = ax_registry ctx" "ax_tracker (forget_links fd ctx) = ax_tracker ctx"
  "ax_job_state (forget_links fd ctx) = ax_job_state ctx" "ax_next_seq (forget_links fd ctx) = ax_next_seq ctx"
  by (simp_all add: forget_links_def Let_def)

lemma dormant_forget [simp]: "dormant (forget_links fd ctx) = dormant ctx"
  by (simp add: dormant_def)

lemma eqd_inv_ctx: "eqd_inv q \<Longrightarrow> dormant ctx \<Longrightarrow> eqd_inv (q\<lparr>eq_ctx := ctx\<rparr>)"
  by (simp add: eqd_inv_def)

lemma eqd_inv_forget: "eqd_inv q \<Longrightarrow> eqd_inv (q\<lparr>eq_ctx := forget_links fd (eq_ctx q)\<rparr>)"
  by (rule eqd_inv_ctx) (simp_all add: eqd_inv_def)

lemma eqd_inv_heap:
  "eqd_inv q \<Longrightarrow> p \<in> dom (eq_heap q) \<Longrightarrow> cn_state c = CONN_OPEN \<Longrightarrow> session_inv (cn_session c) \<Longrightarrow>
     eqd_inv (q\<lparr>eq_heap := (eq_heap q)(p \<mapsto> c)\<rparr>)"
  by (auto simp: eqd_inv_def conns_inv_def)

lemma eqd_inv_close: "eqd_inv q \<Longrightarrow> close_connection p q w = Inr (q', w') \<Longrightarrow> eqd_inv q'"
  by (auto simp: close_connection_def eqd_inv_def conns_inv_unregister split: option.splits if_splits)

lemma client_lines_keep:
  "client_lines fd s ctx w = (bad, s', ctx', w') \<Longrightarrow> session_inv s \<Longrightarrow> dormant ctx \<Longrightarrow> session_inv s' \<and> dormant ctx'"
proof (induction fd s ctx w arbitrary: bad s' ctx' w' rule: client_lines.induct)
  case (1 fd s ctx w)
  show ?case
  proof (cases "session_pop_line s EQD_BUF")
    case (PopLine line s1)
    obtain rc c1 w1 where h: "handle_one_line fd ctx line w = (rc, c1, w1)" by (metis prod_cases3)
    have s1: "session_inv s1" using session_pop_line_PopLine(1) [OF "1.prems"(2) PopLine] .
    have c1: "dormant c1" using dormant_line [OF "1.prems"(3) h] .
    show ?thesis
    proof (cases "rc < 0")
      case True
      with "1.prems"(1) s1 c1 PopLine h show ?thesis by (simp add: client_lines.simps [of fd s])
    next
      case False
      with "1.prems"(1) PopLine h have "client_lines fd s1 c1 w1 = (bad, s', ctx', w')"
        by (simp add: client_lines.simps [of fd s])
      from "1.IH" [OF PopLine h [symmetric] refl False this s1 c1] show ?thesis .
    qed
  qed (use 1 in \<open>auto simp: client_lines.simps [of fd s]\<close>)
qed

lemma client_reads_keep:
  "client_reads p fd rs q w = Inr (q', w') \<Longrightarrow> eqd_inv q \<Longrightarrow> eqd_inv q'"
proof (induction p fd rs q w arbitrary: q' w' rule: client_reads.induct)
  case (5 p fd bs rs q w)
  from "5.prems"(1) obtain c where c: "eq_heap q p = Some c" by (auto split: option.splits)
  obtain now w1 where n: "now_ms w = (now, w1)" by fastforce
  have ci: "cn_state c = CONN_OPEN" "session_inv (cn_session c)" "dormant (eq_ctx q)"
    using "5.prems"(2) c by (auto simp: eqd_inv_def)
  let ?c1 = "c\<lparr>cn_last_active_ms := now\<rparr>"
  show ?case
  proof (cases "session_feed (cn_session c) bs")
    case None
    have "eqd_inv (q\<lparr>eq_heap := (eq_heap q)(p \<mapsto> ?c1)\<rparr>)" 
      by (rule eqd_inv_heap [OF "5.prems"(2)]) (use c ci in auto)
    moreover have "close_connection p (q\<lparr>eq_heap := (eq_heap q)(p \<mapsto> ?c1)\<rparr>) w1 = Inr (q', w')"
      using "5.prems"(1) c n None by simp
    ultimately show ?thesis by (rule eqd_inv_close)
  next
    case (Some s)
    obtain bad s2 ctx2 w2 where l: "client_lines fd s (eq_ctx q) w1 = (bad, s2, ctx2, w2)" by (metis prod_cases4)
    from client_lines_keep [OF l session_feed_Some(1) [OF ci(2) Some] ci(3)]
    have s2: "session_inv s2" "dormant ctx2" by auto
    let ?q2 = "q\<lparr>eq_ctx := ctx2, eq_heap := (eq_heap q)(p \<mapsto> ?c1\<lparr>cn_session := s2\<rparr>)\<rparr>"
    have q2: "eqd_inv ?q2"
      using eqd_inv_heap [OF eqd_inv_ctx [OF "5.prems"(2) s2(2)], of p "?c1\<lparr>cn_session := s2\<rparr>"] c ci(1) s2(1)
      by (simp add: domI)
    show ?thesis
    proof (cases bad)
      case True
      then show ?thesis using "5.prems"(1) c n Some l by (simp add: close_connection_def)
    next
      case False
      have cs: "eq_heap ?q2 p = Some (?c1\<lparr>cn_session := s2\<rparr>)" by simp
      have "client_reads p fd rs ?q2 w2 = Inr (q', w')"
        using "5.prems"(1) c n Some l False ci by simp
      moreover have "client_reads p fd rs ?q2 w2 = Inr (a, b) \<Longrightarrow> eqd_inv ?q2 \<Longrightarrow> eqd_inv a" for a b
        by (rule "5.IH" [OF c n [symmetric] refl _ l [symmetric] refl refl refl _ refl cs]) (use Some False ci in auto)
      ultimately show ?thesis using q2 by blast
    qed
  qed
qed (auto dest: eqd_inv_close [OF eqd_inv_forget])

text \<open>\<^verbatim>\<open>malloc\<close> returns addresses that are not in use.\<close>

fun fresh_accepts :: "accept_result list \<Rightarrow> addr set \<Rightarrow> bool" where
  "fresh_accepts [] used = True"
| "fresh_accepts (Accepted fd nonblock (Some p) added # rs) used =
     (if nonblock then p \<notin> used \<and> fresh_accepts rs (if added then insert p used else used)
      else fresh_accepts rs used)"
| "fresh_accepts (_ # rs) used = fresh_accepts rs used"

fun fresh_events :: "eqd_event list \<Rightarrow> eqd \<Rightarrow> world \<Rightarrow> bool" where
  "fresh_events [] q w = True"
| "fresh_events (AcceptEvent rs # es) q w =
     (fresh_accepts rs (dom (eq_heap q))
      \<and> fresh_events es (fst (handle_accept_event rs q w)) (snd (handle_accept_event rs q w)))"
| "fresh_events (ClientEvent p rs # es) q w =
     (case handle_client_event p rs q w of Inl e \<Rightarrow> True | Inr (q1, w1) \<Rightarrow> fresh_events es q1 w1)"

definition fresh_poll :: "poll_result \<Rightarrow> eqd \<Rightarrow> world \<Rightarrow> bool" where
  "fresh_poll pr q w = (case pr of PollReady evs \<Rightarrow> fresh_events evs q w | _ \<Rightarrow> True)"

lemma eqd_inv_accept:
  assumes "eqd_inv q" and "p \<notin> dom (eq_heap q)" and "cn_state c = CONN_OPEN" and "session_inv (cn_session c)"
  shows "eqd_inv (q\<lparr>eq_heap := (eq_heap q)(p \<mapsto> c), eq_table := register_connection p (eq_table q)\<rparr>)"
  using assms conns_inv_register [of "eq_table q" "eq_heap q" p c] by (auto simp: eqd_inv_def)

lemma handle_accept_keep:
  "eqd_inv q \<Longrightarrow> fresh_accepts rs (dom (eq_heap q)) \<Longrightarrow> eqd_inv (fst (handle_accept_event rs q w))"
proof (induction rs q w rule: handle_accept_event.induct)
  case (4 fd nonblock mem added rs q w)
  show ?case
  proof (cases "nonblock \<and> mem \<noteq> None")
    case False
    then consider "\<not> nonblock" | "nonblock" "mem = None" by blast
    then show ?thesis
    proof cases
      case 1
      with 4 show ?thesis by (cases mem) simp_all
    next
      case 2
      with 4 show ?thesis by simp
    qed
  next
    case True
    then obtain p where p: "mem = Some p" and nb: "nonblock" by blast
    obtain now w1 where n: "now_ms w = (now, w1)" by fastforce
    let ?c = "\<lparr>cn_fd = fd, cn_session = session_init session_zero, cn_last_active_ms = now, cn_state = CONN_OPEN\<rparr>"
    let ?q1 = "q\<lparr>eq_heap := (eq_heap q)(p \<mapsto> ?c), eq_table := register_connection p (eq_table q)\<rparr>"
    have np: "p \<notin> dom (eq_heap q)" and fr: "fresh_accepts rs (if added then insert p (dom (eq_heap q)) else dom (eq_heap q))"
      using "4.prems"(2) p nb by simp_all
    have q1: "eqd_inv ?q1" by (rule eqd_inv_accept [OF "4.prems"(1) np]) simp_all
    show ?thesis
    proof (cases added)
      case True
      have "dom (eq_heap ?q1) = insert p (dom (eq_heap q))" by simp
      then have "fresh_accepts rs (dom (eq_heap ?q1))" using fr True by (simp only: if_True)
      from "4.IH"(3) [OF _ p n [symmetric] refl refl True q1 this] nb p n True
      show ?thesis by (simp add: Let_def)
    next
      case False
      let ?q2 = "?q1\<lparr>eq_table := unregister_connection p (eq_table ?q1), eq_heap := (eq_heap ?q1)(p := None)\<rparr>"
      have "close_connection p ?q1 w1 = Inr (?q2, drop_fd fd w1)" by (simp add: close_connection_def)
      then have q2: "eqd_inv ?q2" by (rule eqd_inv_close [OF q1])
      have d: "dom (eq_heap ?q2) = dom (eq_heap q)" using np by auto
      have "fresh_accepts rs (dom (eq_heap ?q2))" using fr False by (simp only: d if_False)
      from "4.IH"(4) [OF _ p n [symmetric] refl refl False q2 this] nb p n False
      show ?thesis by (simp add: Let_def)
    qed
  qed
qed simp_all

lemma dispatch_keep:
  "dispatch_events evs q w = Inr (q', w') \<Longrightarrow> eqd_inv q \<Longrightarrow> fresh_events evs q w \<Longrightarrow> eqd_inv q'"
proof (induction evs q w arbitrary: q' w' rule: dispatch_events.induct)
  case (1 q w)
  then show ?case by simp
next
  case (2 rs es q w)
  obtain q1 w1 where a: "handle_accept_event rs q w = (q1, w1)" by fastforce
  have "eqd_inv q1" using handle_accept_keep [of q rs w] 2 by (simp add: a)
  with "2.IH" [OF a [symmetric]] "2.prems" show ?case by (simp add: a)
next
  case (3 p rs es q w)
  from "3.prems"(1) obtain q1 w1 where a: "handle_client_event p rs q w = Inr (q1, w1)"
    by (auto split: sum.splits)
  from a have "eqd_inv q1" using client_reads_keep "3.prems"(2)
    by (auto simp: handle_client_event_def split: option.splits)
  with "3.IH" [OF a refl] "3.prems" show ?case by (simp add: a)
qed

lemma dormant_sweep:
  assumes "dormant ctx"
  shows "dormant (ctx\<lparr>ax_tracker := request_tracker_sweep_timeouts (ax_tracker ctx) now\<rparr>)"
proof -
  have t: "tracker_inv (ax_tracker ctx)" using assms by (simp add: dormant_def)
  show ?thesis using assms tracker.sweep_slots [OF t, of now]
    by (auto simp: dormant_def split: option.splits if_splits)
qed

lemma eqd_iteration_keep:
  assumes "eqd_inv q" and "fresh_poll pr q w"
  shows "(case eqd_iteration pr q w of
      Inl e \<Rightarrow> \<exists>evs. pr = PollReady evs \<and> dispatch_events evs q w = Inl e
    | Inr (go, q', w') \<Rightarrow> eqd_inv q')"
proof (cases pr)
  case (PollReady evs)
  show ?thesis
  proof (cases "dispatch_events evs q w")
    case (Inl e)
    with PollReady show ?thesis by (simp add: eqd_iteration_def)
  next
    case (Inr a)
    obtain q1 w1 where a: "a = (q1, w1)" by fastforce
    have q1: "eqd_inv q1" using dispatch_keep Inr a assms PollReady by (auto simp: fresh_poll_def)
    obtain ctx2 w2 where s: "run_scheduler (eq_ctx q1) w1 = (ctx2, w2)" by fastforce
    have d: "dormant ctx2" using run_scheduler_dormant [OF _ s] q1 by (simp add: eqd_inv_def)
    obtain now w3 where n: "now_ms w2 = (now, w3)" by fastforce
    obtain now2 w4 where n2: "now_ms w3 = (now2, w4)" by fastforce
    have ci: "conns_inv (eq_table q1) (eq_heap q1)" using q1 by (simp add: eqd_inv_def)
    from scan_from_spec [OF ci, of 0 now2 w4] obtain tbl hp w5 where
      sc: "scan_connection_timeout now2 (eq_table q1) (eq_heap q1) w4 = Inr (tbl, hp, w5)" "conns_inv tbl hp"
      and hp: "hp = eq_heap q1 |` (- {p \<in> set (eq_table q1). expired now2 (eq_heap q1) p})"
      unfolding scan_connection_timeout_def by auto
    have "eq_heap q1 p = Some c" if "hp p = Some c" for p c
      using that by (auto simp: hp restrict_map_def split: if_splits)
    with q1 sc(2) dormant_sweep [OF d, of now] have
      "eqd_inv \<lparr>eq_ctx = ctx2\<lparr>ax_tracker := request_tracker_sweep_timeouts (ax_tracker ctx2) now\<rparr>, eq_table = tbl, eq_heap = hp\<rparr>"
      by (auto simp: eqd_inv_def)
    then show ?thesis using PollReady Inr a s n n2 sc(1) by (simp add: eqd_iteration_def Let_def)
  qed
qed (use assms in \<open>simp_all add: eqd_iteration_def\<close>)

section \<open>Every reachable state\<close>

inductive eqd_reach :: "eqd \<Rightarrow> world \<Rightarrow> bool" where
  boot: "eqd_reach eqd_boot w"
| round: "eqd_reach q w \<Longrightarrow> fresh_poll pr q w \<Longrightarrow> eqd_iteration pr q w = Inr (True, q', w') \<Longrightarrow> eqd_reach q' w'"

lemma eqd_reach_inv: "eqd_reach q w \<Longrightarrow> eqd_inv q"
proof (induction rule: eqd_reach.induct)
  case (round q w pr q' w')
  with eqd_iteration_keep [of q pr w] show ?case by simp
qed simp

text \<open>
  C4: In every state the daemon can reach, whatever connects, is sent, fails or times out: the
  connection table lists live connections, each once, every connection object is open and its
  session sound; and the next round either keeps all this or runs into a fault while handling
  a readable client, never in accepting, in the scheduler or in the idle scan.
\<close>

theorem reachable_states_sound:
  assumes "eqd_reach q w"
  shows "conns_inv (eq_table q) (eq_heap q)
    \<and> (\<forall>p c. eq_heap q p = Some c \<longrightarrow> cn_state c = CONN_OPEN \<and> session_inv (cn_session c))
    \<and> tracker_inv (ax_tracker (eq_ctx q))
    \<and> (\<forall>pr e. fresh_poll pr q w \<and> eqd_iteration pr q w = Inl e \<longrightarrow>
         (\<exists>evs. pr = PollReady evs \<and> dispatch_events evs q w = Inl e))"
proof -
  note inv = eqd_reach_inv [OF assms]
  have "\<exists>evs. pr = PollReady evs \<and> dispatch_events evs q w = Inl e"
    if "fresh_poll pr q w" "eqd_iteration pr q w = Inl e" for pr e
    using eqd_iteration_keep [OF inv that(1)] that(2) by simp
  with inv show ?thesis by (auto simp: eqd_inv_def dormant_def)
qed

text \<open>
  C3: The scheduler never starts anything: in every reachable state no module has a recorded state,
  no START of the scheduler is pending, the sequence counter still has its first value, and the
  next scheduler round writes nothing and leaves the job in IDLE, STOPPED or ERROR.  (The handlers
  compare the recorded state of a module but none of them records it.)
\<close>

theorem scheduler_never_starts:
  assumes "eqd_reach q w" and "run_scheduler (eq_ctx q) v = (ctx', v')"
  shows "ax_next_seq (eq_ctx q) = 1000
    \<and> (\<forall>k. \<not> mi_has_state (get_module k (ax_registry (eq_ctx q))))
    \<and> (\<forall>j r. live (ax_tracker (eq_ctx q)) j = Some r \<longrightarrow> \<not> pr_from_scheduler r)
    \<and> logged v [] v' \<and> ax_job_state ctx' \<in> {JOB_IDLE, JOB_STOPPED, JOB_ERROR}"
proof -
  have d: "dormant (eq_ctx q)" using eqd_reach_inv [OF assms(1)] by (simp add: eqd_inv_def)
  from run_scheduler_dormant [OF d assms(2)] d show ?thesis unfolding dormant_def by blast
qed

text \<open>The state after a round in which a client was accepted on descriptor 9 at address 7.\<close>

lemma one_client_reachable:
  obtains q w where "eqd_reach q w" and "eq_table q = [7]" and "\<exists>c. eq_heap q 7 = Some c"
proof -
  let ?pr = "PollReady [AcceptEvent [Accepted 9 True (Some 7) True]]" and ?w = "quiet_world 3 :: world"
  have f: "fresh_poll ?pr eqd_boot ?w" by (simp add: fresh_poll_def eqd_boot_def)
  obtain q w where r: "eqd_iteration ?pr eqd_boot ?w = Inr (True, q, w)"
    and q: "eq_table q = [7]" "\<exists>c. eq_heap q 7 = Some c"
    by (simp add: eqd_iteration_def eqd_boot_def register_connection_def run_scheduler_def refresh_module_health_def
        now_ms_def ms_of_timespec_def quiet_world_def os_log_def scan_connection_timeout_def scan_from.simps [of 0]
        scan_from.simps [of "Suc 0"] Let_def)
  have "eqd_reach q w" by (rule eqd_reach.round [OF eqd_reach.boot f r])
  with q that show thesis by blast
qed

theorem reachable_states_sound_witness:
  "\<exists>q w c. eqd_reach q w \<and> eq_heap q 7 = Some c \<and> cn_state c = CONN_OPEN \<and> 7 \<in> set (eq_table q)"
proof -
  obtain q w where r: "eqd_reach q w" "eq_table q = [7]" "\<exists>c. eq_heap q 7 = Some c" by (rule one_client_reachable)
  with reachable_states_sound [OF r(1)] show ?thesis by fastforce
qed

theorem scheduler_never_starts_witness:
  "\<exists>q w. eqd_reach q w \<and> eq_table q = [7]
     \<and> ax_job_state (fst (run_scheduler (eq_ctx q) w)) \<in> {JOB_IDLE, JOB_STOPPED, JOB_ERROR}"
proof -
  obtain q w where r: "eqd_reach q w" "eq_table q = [7]" by (rule one_client_reachable)
  obtain c v where h: "run_scheduler (eq_ctx q) w = (c, v)" by fastforce
  from scheduler_never_starts [OF r(1) h] have "ax_job_state (fst (run_scheduler (eq_ctx q) w)) \<in> {JOB_IDLE, JOB_STOPPED, JOB_ERROR}"
    by (simp only: h fst_conv)
  with r show ?thesis by blast
qed

section \<open>Use after free\<close>

lemma client_reads_one:
  assumes "eq_heap q p = Some c" and "cn_state c = CONN_OPEN"
  shows "client_reads p fd [RecvData bs] q w = Inl e \<longleftrightarrow>
    (\<exists>s. session_feed (cn_session c) bs = Some s \<and> fst (client_lines fd s (eq_ctx q) (snd (now_ms w))))"
proof (cases "session_feed (cn_session c) bs")
  case None
  with assms show ?thesis by (simp add: close_connection_def case_prod_beta Let_def)
next
  case (Some s)
  obtain bad s2 ctx2 w2 where l: "client_lines fd s (eq_ctx q) (snd (now_ms w)) = (bad, s2, ctx2, w2)"
    by (metis prod_cases4)
  obtain now w1 where n: "now_ms w = (now, w1)" by fastforce
  show ?thesis
    by (cases bad; cases e) (use assms Some l n in \<open>simp_all add: close_connection_def Let_def\<close>)
qed

text \<open>
  C10: The freed connection: when data arrives on an open connection, the daemon reads the memory of
  a connection it has freed exactly when some line of that data fails (a write that fails, a
  message too long to format, or a full tracker).
\<close>

theorem failed_line_reads_freed_connection:
  assumes "eq_heap q p = Some c" and "cn_state c = CONN_OPEN"
  shows "handle_client_event p [RecvData bs] q w = Inl UseAfterFree \<longleftrightarrow>
    (\<exists>s. session_feed (cn_session c) bs = Some s \<and> fst (client_lines (cn_fd c) s (eq_ctx q) (snd (now_ms w))))"
  using client_reads_one [OF assms, of "cn_fd c" bs w UseAfterFree] assms(1) by (simp add: handle_client_event_def)

lemma client_lines_first_fails:
  assumes "session_inv s" and "pending s = l @ LF # r" and "LF \<notin> set l" and "length l + 1 < EQD_BUF"
    and "handle_one_line fd ctx (l @ [LF]) w = (rc, ctx', w')" and "rc < 0"
  shows "fst (client_lines fd s ctx w)"
proof -
  from session_pop_line_short [OF assms(1-4)] obtain s' where "session_pop_line s EQD_BUF = PopLine (l @ [LF]) s'" by blast
  with assms(5,6) show ?thesis by (simp add: client_lines.simps [of fd s])
qed

lemma wire_line:
  assumes "carriable m" and "no_measurements m"
  shows "LF \<notin> set (line_body m)" and "length (line_body m) + 1 < EQD_BUF"
proof -
  have "message_inv m" using assms(1) by (simp add: carriable_def)
  from length_line_body [OF this assms(2)] show "length (line_body m) + 1 < EQD_BUF" by simp
  show "LF \<notin> set (line_body m)" using line_body_clean [OF assms(1)] by blast
qed

text \<open>
  C13: The seventeenth request: while sixteen requests are pending, any further well-formed request
  for a connected device, from any client with an empty buffer, makes the daemon read freed
  memory.
\<close>

theorem seventeenth_request_faults:
  assumes "eqd_inv q" and "eq_heap q p = Some c" and "pending (cn_session c) = []"
    and "dom (live (ax_tracker (eq_ctx q))) = {..< REQUEST_TRACKER_MAX}"
    and "device_request i" and "carriable i" and "parsed_ok i" and "no_measurements i"
    and "serving_fd (ax_pmc_fd (eq_ctx q)) (ax_tmc_fd (eq_ctx q)) (m_dev i) = Some target"
  shows "handle_client_event p [RecvData (wire i)] q w = Inl UseAfterFree"
proof -
  have c: "cn_state c = CONN_OPEN" "session_inv (cn_session c)" and d: "dormant (eq_ctx q)"
    using assms(1,2) by (auto simp: eqd_inv_def)
  note l = wire_line [OF assms(6,8)]
  have "session_feed (cn_session c) (wire i) \<noteq> None"
    using session_feed_ok_iff [OF c(2), of "wire i"] assms(3) l(2) by (simp add: wire_def)
  then obtain s where s: "session_feed (cn_session c) (wire i) = Some s" by blast
  have sp: "session_inv s" "pending s = line_body i @ LF # []"
    using session_feed_Some [OF c(2) s] assms(3) by (simp_all add: wire_def)
  have "tracker_inv (ax_tracker (eq_ctx q))" using d by (simp add: dormant_def)
  then have "request_tracker_alloc (ax_tracker (eq_ctx q)) = None" using tracker.alloc_None assms(4) by blast
  from tracker_full_fails [OF assms(5) line_parse_wire [OF assms(6-8)] assms(9) this]
  have "handle_one_line (cn_fd c) (eq_ctx q) (line_body i @ [LF]) v = (- 1, eq_ctx q, v)" for v by (simp add: wire_def)
  then have "fst (client_lines (cn_fd c) s (eq_ctx q) (snd (now_ms w)))"
    using client_lines_first_fails [OF sp l] by fastforce
  then show ?thesis using client_reads_one [OF assms(2) c(1), of "cn_fd c" "wire i" w UseAfterFree] s assms(2)
    by (simp add: handle_client_event_def)
qed

text \<open>A daemon for examples: one client on descriptor 9, both controllers linked, a given tracker.\<close>

definition sample_eqd :: "request_tracker \<Rightarrow> session_t \<Rightarrow> eqd" where
  "sample_eqd t s = \<lparr>eq_ctx = sample_ctx\<lparr>ax_tracker := t\<rparr>, eq_table = [7],
     eq_heap = [7 \<mapsto> (idle_conn 9 0)\<lparr>cn_session := s\<rparr>]\<rparr>"

lemma sample_eqd_fields [simp]:
  "eq_heap (sample_eqd t s) 7 = Some ((idle_conn 9 0)\<lparr>cn_session := s\<rparr>)" "eq_ctx (sample_eqd t s) = sample_ctx\<lparr>ax_tracker := t\<rparr>"
  "cn_state (idle_conn fd l) = CONN_OPEN" "cn_fd (idle_conn fd l) = fd" "cn_session (idle_conn fd l) = session_zero"
  by (simp_all add: sample_eqd_def idle_conn_def)

lemma sample_eqd_inv:
  assumes "tracker_inv t" and "session_inv s" and "\<forall>r \<in> set t. \<not> pr_from_scheduler r"
  shows "eqd_inv (sample_eqd t s)"
  using assms by (auto simp: sample_eqd_def eqd_inv_def conns_inv_def dormant_def idle_conn_def live_def module_zero_def
      split: if_splits)

theorem seventeenth_request_faults_witness:
  "handle_client_event 7 [RecvData (wire sample_start)]
     (sample_eqd (replicate 16 (client_request 9 sample_start 0)) session_zero) (quiet_world 3) = Inl UseAfterFree"
proof (rule seventeenth_request_faults)
  let ?t = "replicate 16 (client_request 9 sample_start 0)"
  show "eqd_inv (sample_eqd ?t session_zero)"
    by (rule sample_eqd_inv) (simp_all add: tracker_inv_def client_request_def)
  show "dom (live (ax_tracker (eq_ctx (sample_eqd ?t session_zero)))) = {..< REQUEST_TRACKER_MAX}"
    by (auto simp: live_def client_request_def split: if_splits)
  show "serving_fd (ax_pmc_fd (eq_ctx (sample_eqd ?t session_zero))) (ax_tmc_fd (eq_ctx (sample_eqd ?t session_zero)))
      (m_dev sample_start) = Some 5"
    by (simp add: serving_fd_def)
  show "eq_heap (sample_eqd ?t session_zero) 7 = Some ((idle_conn 9 0)\<lparr>cn_session := session_zero\<rparr>)" by simp
qed simp_all

theorem failed_line_reads_freed_connection_witness:
  "handle_client_event 7 [RecvData [CHR ''X'', LF]] (sample_eqd request_tracker_init session_zero)
     ((quiet_world 3)\<lparr>w_write_ok := \<lambda>_. False\<rparr>) = Inl UseAfterFree"
proof -
  let ?q = "sample_eqd request_tracker_init session_zero" and ?w = "(quiet_world 3)\<lparr>w_write_ok := \<lambda>_. False\<rparr>"
  have "session_feed session_zero [CHR ''X'', LF] \<noteq> None" using session_feed_ok_iff [of session_zero] by simp
  then obtain s where s: "session_feed session_zero [CHR ''X'', LF] = Some s" by blast
  from session_feed_Some [OF session_inv_zero s] have sp: "session_inv s" "pending s = ''X'' @ LF # []" by simp_all
  have "handle_one_line 9 (eq_ctx ?q) (''X'' @ [LF]) v = (- 1, eq_ctx ?q, snd (send_line 9 make_parse_error v))"
    if "\<not> w_write_ok v (w_writes v)" for v
  proof -
    have "line_parse (''X'' @ [LF]) = None" by code_simp
    then show ?thesis using that
      by (simp add: handle_one_line_def send_line_def os_write_def Let_def split: option.split)
  qed
  then have h: "handle_one_line 9 (eq_ctx ?q) (''X'' @ [LF]) (snd (now_ms ?w))
      = (- 1, eq_ctx ?q, snd (send_line 9 make_parse_error (snd (now_ms ?w))))"
    by (simp add: now_ms_def)
  have "fst (client_lines 9 s (eq_ctx ?q) (snd (now_ms ?w)))"
    by (rule client_lines_first_fails [OF sp _ _ h]) simp_all
  with failed_line_reads_freed_connection [of ?q 7 "(idle_conn 9 0)\<lparr>cn_session := session_zero\<rparr>" "[CHR ''X'', LF]" ?w] s
  show ?thesis by simp
qed

section \<open>Stale links\<close>

text \<open>
  The stale link: when the receive buffer of the process controller's connection overflows, its
  descriptor is closed and its connection freed, but the link keeps the closed descriptor, so
  requests go on being written to a descriptor that is no longer the controller's.
\<close>

theorem overflow_leaves_stale_link:
  assumes "eq_heap q p = Some c" and "cn_fd c = ax_pmc_fd (eq_ctx q)"
    and "session_feed (cn_session c) bs = None"
  shows "\<exists>q' w'. handle_client_event p (RecvData bs # rs) q w = Inr (q', w')
     \<and> logged w [EpollDel (cn_fd c), Closed (cn_fd c)] w' \<and> eq_heap q' p = None
     \<and> ax_pmc_fd (eq_ctx q') = cn_fd c"
  using assms by (simp add: handle_client_event_def close_connection_def now_ms_def logged_def drop_fd_def os_log_def)

theorem overflow_leaves_stale_link_witness:
  "\<exists>q' w'. handle_client_event 7 [RecvData [LF]]
       ((sample_eqd request_tracker_init \<lparr>s_buf = replicate 4096 NUL, s_len = 4096\<rparr>)
          \<lparr>eq_ctx := sample_ctx\<lparr>ax_pmc_fd := 9\<rparr>\<rparr>) (quiet_world 3) = Inr (q', w')
     \<and> ax_pmc_fd (eq_ctx q') = 9"
proof -
  let ?s = "\<lparr>s_buf = replicate 4096 NUL, s_len = 4096\<rparr> :: session_t"
  let ?q = "(sample_eqd request_tracker_init ?s)\<lparr>eq_ctx := sample_ctx\<lparr>ax_pmc_fd := 9\<rparr>\<rparr>"
  let ?c = "(idle_conn 9 0)\<lparr>cn_session := ?s\<rparr>"
  have "eq_heap ?q 7 = Some ?c" "cn_fd ?c = ax_pmc_fd (eq_ctx ?q)" "session_feed (cn_session ?c) [LF] = None"
    by (simp_all add: session_feed_def)
  from overflow_leaves_stale_link [OF this, of "[]" "quiet_world 3"] show ?thesis by auto
qed

section \<open>A descriptor that is used again\<close>

text \<open>
  A client leaves and another one is accepted on the same descriptor: the tracker is not told, so
  the requests of the first are still pending under the number of the second.
\<close>

lemma descriptor_passes_on:
  assumes "eq_heap q p = Some c" and "cn_fd c \<noteq> ax_pmc_fd (eq_ctx q)" and "cn_fd c \<noteq> ax_tmc_fd (eq_ctx q)"
  obtains q1 w1 c' where "dispatch_events [ClientEvent p [RecvClosed], AcceptEvent [Accepted (cn_fd c) True (Some p') True]] q w
      = Inr (q1, w1)"
    and "eq_ctx q1 = eq_ctx q" and "eq_heap q1 p' = Some c'" and "cn_fd c' = cn_fd c" and "pending (cn_session c') = []"
    and "logged w [EpollDel (cn_fd c), Closed (cn_fd c), EpollAdd (cn_fd c)] w1"
proof -
  obtain now w1 where n: "now_ms (drop_fd (cn_fd c) w) = (now, w1)" by fastforce
  let ?c = "\<lparr>cn_fd = cn_fd c, cn_session = session_init session_zero, cn_last_active_ms = now, cn_state = CONN_OPEN\<rparr>"
  let ?q = "q\<lparr>eq_table := register_connection p' (unregister_connection p (eq_table q)),
      eq_heap := (eq_heap q)(p := None, p' \<mapsto> ?c)\<rparr>"
  have f: "forget_links (cn_fd c) (eq_ctx q) = eq_ctx q" using assms(2,3) by (simp add: forget_links_def)
  show thesis
    by (rule that [of ?q "os_log (EpollAdd (cn_fd c)) w1" ?c])
      (use assms(1) n in \<open>auto simp: handle_client_event_def close_connection_def f Let_def logged_def drop_fd_def
        os_log_def now_ms_def\<close>)
qed

text \<open>
  C11: An answer that reaches a stranger: when a client leaves while its request is pending and the
  next client is given the same descriptor, the controller's response to the first client's
  request is written to the second one, which has sent nothing.
\<close>

theorem answer_reaches_successor:
  assumes "eq_heap q p = Some c" and "cn_fd c \<noteq> ax_pmc_fd (eq_ctx q)" and "cn_fd c \<noteq> ax_tmc_fd (eq_ctx q)"
    and "0 \<le> cn_fd c" and "pending_for fd (eq_ctx q) r = Some slot" and "pr_client_fd (ax_tracker (eq_ctx q) ! slot) = cn_fd c"
    and "line_parse l = Some r" and "no_measurements r" and "all_writes_ok w"
  shows "\<exists>q1 w1 c' ctx2 w2.
      dispatch_events [ClientEvent p [RecvClosed], AcceptEvent [Accepted (cn_fd c) True (Some p') True]] q w = Inr (q1, w1)
    \<and> eq_heap q1 p' = Some c' \<and> cn_fd c' = cn_fd c \<and> pending (cn_session c') = []
    \<and> handle_one_line fd (eq_ctx q1) l w1 = (1, ctx2, w2) \<and> logged w1 [Wrote (cn_fd c') (wire r)] w2"
proof -
  from descriptor_passes_on [OF assms(1-3), of p' w] obtain q1 w1 c' where
    d: "dispatch_events [ClientEvent p [RecvClosed], AcceptEvent [Accepted (cn_fd c) True (Some p') True]] q w = Inr (q1, w1)"
      "eq_ctx q1 = eq_ctx q" "eq_heap q1 p' = Some c'" "cn_fd c' = cn_fd c" "pending (cn_session c') = []"
    and lg: "logged w [EpollDel (cn_fd c), Closed (cn_fd c), EpollAdd (cn_fd c)] w1" .
  have "all_writes_ok w1" using logged_writes_ok [OF lg] assms(9) by simp
  from relay_ok [OF assms(5,7) refl _ assms(8) this] assms(4,6) obtain w2 where
    "handle_one_line fd (eq_ctx q) l w1 = (1, (job_update (ax_tracker (eq_ctx q) ! slot) r (eq_ctx q))
        \<lparr>ax_tracker := request_tracker_remove (ax_tracker (eq_ctx q)) (Some slot)\<rparr>, w2)"
    "logged w1 [Wrote (cn_fd c) (wire r)] w2" by auto
  with d show ?thesis by (metis (no_types, lifting))
qed

theorem answer_reaches_successor_witness:
  "\<exists>q1 w1 ctx2 w2. dispatch_events [ClientEvent 7 [RecvClosed], AcceptEvent [Accepted 9 True (Some 8) True]]
       (sample_eqd (request_tracker_init[0 := client_request 9 sample_start 0]) session_zero) (quiet_world 3) = Inr (q1, w1)
     \<and> handle_one_line 5 (eq_ctx q1) (wire (resp_base sample_start)) w1 = (1, ctx2, w2)
     \<and> logged w1 [Wrote 9 (wire (resp_base sample_start))] w2"
proof -
  let ?q = "sample_eqd (request_tracker_init[0 := client_request 9 sample_start 0]) session_zero"
  have p: "pending_for 5 (eq_ctx ?q) (resp_base sample_start) = Some 0"
    by (simp add: pending_for_def is_controller_fd_def request_tracker_find_def first_slot.simps [of _ _ 0]
        request_tracker_init_def client_request_def)
  have c: "eq_heap ?q 7 = Some ((idle_conn 9 0)\<lparr>cn_session := session_zero\<rparr>)"
    "pr_client_fd (ax_tracker (eq_ctx ?q) ! 0) = cn_fd ((idle_conn 9 0)\<lparr>cn_session := session_zero\<rparr>)"
    by (simp_all add: request_tracker_init_def client_request_def)
  from answer_reaches_successor [OF c(1) _ _ _ p c(2) sample_reply_parsed _ quiet_world_ok, of 8 3]
  show ?thesis by auto
qed

end
