(* ===== verification/Pmc_Serial.thy ===== *)
theory Pmc_Serial
  imports CDouble Os
begin

text \<open>
  \<^verbatim>\<open>nodes/pmc/src/serial_transport.c\<close> and \<^verbatim>\<open>pico_device.c\<close>: the serial line to the heater board.
  A \<open>port\<close> is the outside of the line: the answers still to come of \<^verbatim>\<open>open\<close>, and of \<^verbatim>\<open>select\<close>
  and \<^verbatim>\<open>read\<close> (one \<open>ser_event\<close> per turn of the read loop; a line that stays silent times out), and
  the world that takes what is written.
\<close>

datatype ser_event = SelError | SelEintr | SelTimeout | RdError | RdEintr | RdEof | RdByte char

record port =
  po_opens :: "int option list"
  po_input :: "ser_event list"
  po_world :: world

record serial_link =
  sl_fd :: int
  sl_path :: string
  sl_baudrate :: int
  sl_is_open :: bool

abbreviation PATH_CAP :: nat where "PATH_CAP \<equiv> 128"
abbreviation WRITE_CAP :: nat where "WRITE_CAP \<equiv> 256"

definition link_zero :: serial_link where
  "link_zero = \<lparr>sl_fd = 0, sl_path = [], sl_baudrate = 0, sl_is_open = False\<rparr>"

text \<open>
  Opening: \<open>None\<close> stands for a failure of \<^verbatim>\<open>open\<close>, \<^verbatim>\<open>tcgetattr\<close> or \<^verbatim>\<open>tcsetattr\<close>.  The terminal settings and
  the flush of what the driver had buffered are outside the model.
\<close>

definition serial_link_open :: "string \<Rightarrow> int \<Rightarrow> port \<Rightarrow> int \<times> serial_link \<times> port" where
  "serial_link_open path baud po =
     (case po_opens po of
        Some fd # os \<Rightarrow>
          (0, link_zero\<lparr>sl_fd := fd, sl_baudrate := baud, sl_is_open := True, sl_path := strncpy_field PATH_CAP path\<rparr>,
           po\<lparr>po_opens := os\<rparr>)
      | None # os \<Rightarrow> (- 1, link_zero, po\<lparr>po_opens := os\<rparr>)
      | [] \<Rightarrow> (- 1, link_zero, po))"

definition serial_link_close :: "serial_link \<Rightarrow> port \<Rightarrow> serial_link \<times> port" where
  "serial_link_close l po =
     (link_zero\<lparr>sl_fd := - 1\<rparr>,
      if sl_is_open l \<and> 0 \<le> sl_fd l then po\<lparr>po_world := os_log (Closed (sl_fd l)) (po_world po)\<rparr> else po)"

text \<open>Whether the result is non-negative.\<close>

definition serial_link_write_line :: "serial_link \<Rightarrow> string \<Rightarrow> port \<Rightarrow> bool \<times> port" where
  "serial_link_write_line l line po =
     (if \<not> sl_is_open l \<or> WRITE_CAP \<le> length line + 1 then (False, po)
      else case os_write (sl_fd l) (line @ [LF]) (po_world po) of (ok, w) \<Rightarrow> (ok, po\<lparr>po_world := w\<rparr>))"

text \<open>The read loop: the result code, the bytes stored so far, the events left.\<close>

fun read_loop :: "nat \<Rightarrow> bytes \<Rightarrow> ser_event list \<Rightarrow> int \<times> bytes \<times> ser_event list" where
  "read_loop cap used [] = (if length used + 1 < cap then (0, used, []) else (1, used, []))"
| "read_loop cap used (e # es) =
     (if length used + 1 < cap
      then (case e of
              SelError \<Rightarrow> (- 1, used, es)
            | SelEintr \<Rightarrow> read_loop cap used es
            | SelTimeout \<Rightarrow> (0, used, es)
            | RdError \<Rightarrow> (- 1, used, es)
            | RdEintr \<Rightarrow> read_loop cap used es
            | RdEof \<Rightarrow> (0, used, es)
            | RdByte ch \<Rightarrow>
                if ch = CR then read_loop cap used es
                else if ch = LF then (1, used, es)
                else read_loop cap (used @ [ch]) es)
      else (1, used, e # es))"

text \<open>The string in the caller's buffer afterwards is the stored bytes up to the first NUL.\<close>

definition serial_link_read_line :: "serial_link \<Rightarrow> string \<Rightarrow> nat \<Rightarrow> port \<Rightarrow> int \<times> string \<times> port" where
  "serial_link_read_line l out cap po =
     (if \<not> sl_is_open l \<or> cap = 0 then (- 1, out, po)
      else case read_loop cap [] (po_input po) of (rc, used, es) \<Rightarrow> (rc, cstr used, po\<lparr>po_input := es\<rparr>))"

section \<open>The board\<close>

record pico_device =
  pd_link :: serial_link
  pd_connected :: bool

definition pico_device_open :: "string \<Rightarrow> int \<Rightarrow> port \<Rightarrow> int \<times> pico_device \<times> port" where
  "pico_device_open path baud po =
     (case serial_link_open path baud po of
        (rc, l, po1) \<Rightarrow>
          if rc \<noteq> 0 then (- 1, \<lparr>pd_link = l, pd_connected = False\<rparr>, po1)
          else (0, \<lparr>pd_link = l, pd_connected = True\<rparr>, po1))"

definition pico_device_close :: "pico_device \<Rightarrow> port \<Rightarrow> pico_device \<times> port" where
  "pico_device_close d po =
     (case serial_link_close (pd_link d) po of (l, po1) \<Rightarrow> (\<lparr>pd_link = l, pd_connected = False\<rparr>, po1))"

text \<open>The retry loop: up to \<open>n\<close> lines are read until one is not empty.\<close>

fun pico_wait :: "nat \<Rightarrow> serial_link \<Rightarrow> string \<Rightarrow> nat \<Rightarrow> port \<Rightarrow> int \<times> string \<times> port" where
  "pico_wait 0 l reply cap po = (- 1, reply, po)"
| "pico_wait (Suc n) l reply cap po =
     (case serial_link_read_line l reply cap po of
        (rc, reply1, po1) \<Rightarrow>
          if rc \<le> 0 then (- 1, reply1, po1)
          else if reply1 = [] then pico_wait n l reply1 cap po1
          else (0, reply1, po1))"

definition pico_send_and_wait :: "pico_device \<Rightarrow> string \<Rightarrow> string \<Rightarrow> nat \<Rightarrow> port \<Rightarrow> int \<times> string \<times> port" where
  "pico_send_and_wait d cmd reply cap po =
     (if \<not> pd_connected d \<or> cap = 0 then (- 1, reply, po)
      else case serial_link_write_line (pd_link d) cmd po of
             (ok, po1) \<Rightarrow> if \<not> ok then (- 1, reply, po1) else pico_wait 5 (pd_link d) reply cap po1)"

definition pico_device_ping :: "pico_device \<Rightarrow> string \<Rightarrow> nat \<Rightarrow> port \<Rightarrow> int \<times> string \<times> port" where
  "pico_device_ping d reply cap po = pico_send_and_wait d ''PING'' reply cap po"

definition pico_device_read_temp :: "pico_device \<Rightarrow> string \<Rightarrow> nat \<Rightarrow> port \<Rightarrow> int \<times> string \<times> port" where
  "pico_device_read_temp d reply cap po = pico_send_and_wait d ''READ TEMP'' reply cap po"

definition pico_device_read_heater :: "pico_device \<Rightarrow> string \<Rightarrow> nat \<Rightarrow> port \<Rightarrow> int \<times> string \<times> port" where
  "pico_device_read_heater d reply cap po = pico_send_and_wait d ''READ HEATER'' reply cap po"

definition heater_command :: "bool \<Rightarrow> string" where
  "heater_command on = (if on then ''SET HEATER ON'' else ''SET HEATER OFF'')"

definition pico_device_set_heater :: "pico_device \<Rightarrow> bool \<Rightarrow> string \<Rightarrow> nat \<Rightarrow> port \<Rightarrow> int \<times> string \<times> port" where
  "pico_device_set_heater d on reply cap po = pico_send_and_wait d (heater_command on) reply cap po"

section \<open>Bounds and effects\<close>

lemma read_loop_fits: "read_loop cap used es = (rc, u, es') \<Longrightarrow> length used < cap \<Longrightarrow> length u < cap"
  by (induction cap used es rule: read_loop.induct) (auto split: if_splits ser_event.splits)

lemma cstr_length: "length (cstr s) \<le> length s"
  by (simp add: cstr_def length_takeWhile_le)

lemma read_line_fits:
  assumes "serial_link_read_line l out cap po = (rc, u, po')" and "0 < rc"
  shows "length u < cap" and "NUL \<notin> set u"
proof -
  from assms obtain used es where r: "read_loop cap [] (po_input po) = (rc, used, es)" "cap \<noteq> 0" and u: "u = cstr used"
    by (auto simp: serial_link_read_line_def split: if_splits prod.splits)
  from read_loop_fits [OF r(1)] r(2) cstr_length [of used] show "length u < cap" by (simp add: u)
  show "NUL \<notin> set u" by (simp add: u cstr_no_NUL)
qed

lemma read_line_world: "serial_link_read_line l out cap po = (rc, u, po') \<Longrightarrow> po_world po' = po_world po \<and> po_opens po' = po_opens po"
  by (auto simp: serial_link_read_line_def split: if_splits prod.splits)

lemma pico_wait_spec:
  "pico_wait n l reply cap po = (rc, reply', po') \<Longrightarrow>
     po_world po' = po_world po \<and> po_opens po' = po_opens po \<and> (rc = 0 \<or> rc = - 1)
   \<and> (rc = 0 \<longrightarrow> reply' \<noteq> [] \<and> length reply' < cap \<and> NUL \<notin> set reply')"
proof (induction n arbitrary: reply po)
  case (Suc n)
  obtain rc1 r1 po1 where r: "serial_link_read_line l reply cap po = (rc1, r1, po1)" by (metis prod_cases3)
  consider "rc1 \<le> 0" | "0 < rc1" "r1 = []" | "0 < rc1" "r1 \<noteq> []" by linarith
  then show ?case
  proof cases
    case 2
    with Suc.prems r have "pico_wait n l r1 cap po1 = (rc, reply', po')" by simp
    from Suc.IH [OF this] read_line_world [OF r] show ?thesis by simp
  qed (use Suc.prems r read_line_fits [OF r] read_line_world [OF r] in auto)
qed simp

text \<open>
  One exchange with the board: at most one write, of the command and its newline; a success comes
  with a non-empty reply that fits the buffer.
\<close>

lemma pico_send_and_wait_spec:
  assumes "pico_send_and_wait d cmd reply cap po = (rc, reply', po')"
  shows "(rc = 0 \<or> rc = - 1) \<and> po_opens po' = po_opens po
   \<and> (rc = 0 \<longrightarrow> reply' \<noteq> [] \<and> length reply' < cap \<and> NUL \<notin> set reply'
        \<and> logged (po_world po) [Wrote (sl_fd (pd_link d)) (cmd @ [LF])] (po_world po'))
   \<and> (logged (po_world po) [] (po_world po') \<or> logged (po_world po) [Wrote (sl_fd (pd_link d)) (cmd @ [LF])] (po_world po'))"
proof (cases "pd_connected d \<and> cap \<noteq> 0")
  case False
  with assms show ?thesis by (auto simp: pico_send_and_wait_def)
next
  case True
  obtain ok po1 where w: "serial_link_write_line (pd_link d) cmd po = (ok, po1)" by fastforce
  have po1: "po_opens po1 = po_opens po" "ok \<Longrightarrow> logged (po_world po) [Wrote (sl_fd (pd_link d)) (cmd @ [LF])] (po_world po1)"
    "\<not> ok \<Longrightarrow> logged (po_world po) [] (po_world po1)"
    using w by (auto simp: serial_link_write_line_def os_write_def logged_def Let_def split: if_splits)
  show ?thesis
  proof (cases ok)
    case False
    with assms w True po1 show ?thesis by (auto simp: pico_send_and_wait_def)
  next
    case ok: True
    with assms w True have "pico_wait 5 (pd_link d) reply cap po1 = (rc, reply', po')"
      by (simp add: pico_send_and_wait_def)
    from pico_wait_spec [OF this] po1 ok show ?thesis by simp
  qed
qed

end
