(* ===== verification/Pmc_Aux.thy ===== *)
theory Pmc_Aux
  imports Pmc_Serial Message
begin

text \<open>
  \<^verbatim>\<open>nodes/pmc/src/io_manager.c\<close>, the part that drives the heater board: the static configuration
  \<^verbatim>\<open>g_uart_aux_cfg\<close>, reconnecting, the four exchanges with one retry, what is done to the heater
  before a command goes to a device, and the snapshot for the status response.  A reply buffer
  is the C string in it; operations return the code, the buffer, the configuration and the port.
\<close>

record aux_cfg =
  au_enabled :: bool
  au_path :: string
  au_baud :: int
  au_dev :: pico_device
  au_ready :: bool

definition aux_zero :: aux_cfg where
  "aux_zero = \<lparr>au_enabled = False, au_path = [], au_baud = 0, au_dev = \<lparr>pd_link = link_zero, pd_connected = False\<rparr>,
     au_ready = False\<rparr>"

text \<open>\<^verbatim>\<open>strncmp (got, prefix, strlen (prefix)) == 0\<close>.\<close>

definition pmc_aux_reply_is :: "string \<Rightarrow> string \<Rightarrow> bool" where
  "pmc_aux_reply_is got pre \<longleftrightarrow> take (length pre) got = pre"

fun drain_lines :: "nat \<Rightarrow> serial_link \<Rightarrow> port \<Rightarrow> port" where
  "drain_lines 0 l po = po"
| "drain_lines (Suc n) l po =
     (case serial_link_read_line l [] 128 po of (rc, line, po1) \<Rightarrow> if rc \<le> 0 then po1 else drain_lines n l po1)"

definition pmc_aux_drain_boot_lines :: "aux_cfg \<Rightarrow> port \<Rightarrow> port" where
  "pmc_aux_drain_boot_lines cfg po = (if \<not> au_ready cfg then po else drain_lines 4 (pd_link (au_dev cfg)) po)"

definition pmc_aux_reconnect :: "aux_cfg \<Rightarrow> port \<Rightarrow> int \<times> aux_cfg \<times> port" where
  "pmc_aux_reconnect cfg po =
     (if \<not> au_enabled cfg \<or> au_path cfg = [] then (- 1, cfg, po)
      else case (if pd_connected (au_dev cfg) then pico_device_close (au_dev cfg) po else (au_dev cfg, po)) of
        (d, po1) \<Rightarrow>
          let d1 = \<lparr>pd_link = (pd_link d)\<lparr>sl_fd := - 1\<rparr>, pd_connected = False\<rparr>;
              cfg1 = cfg\<lparr>au_dev := d1, au_ready := False\<rparr> in
          case pico_device_open (au_path cfg1) (au_baud cfg1) po1 of
            (rc, d2, po2) \<Rightarrow>
              if rc \<noteq> 0 then (- 1, cfg1\<lparr>au_dev := d2\<rparr>, po2)
              else let cfg2 = cfg1\<lparr>au_dev := d2, au_ready := True\<rparr> in (0, cfg2, pmc_aux_drain_boot_lines cfg2 po2))"

text \<open>
  The common shape of the four exchanges: try, reconnect once when that failed, try again.  A second
  failure marks the session as not ready.
\<close>

type_synonym exchange = "pico_device \<Rightarrow> string \<Rightarrow> nat \<Rightarrow> port \<Rightarrow> int \<times> string \<times> port"

definition aux_retry :: "exchange \<Rightarrow> string \<Rightarrow> string \<Rightarrow> aux_cfg \<Rightarrow> string \<Rightarrow> nat \<Rightarrow> port \<Rightarrow> int \<times> string \<times> aux_cfg \<times> port" where
  "aux_retry ex no_reconnect failed cfg reply cap po =
     (case ex (au_dev cfg) reply cap po of
        (rc, reply1, po1) \<Rightarrow>
          if rc = 0 then (0, reply1, cfg, po1)
          else (case pmc_aux_reconnect cfg po1 of
                  (rc2, cfg2, po2) \<Rightarrow>
                    if rc2 \<noteq> 0 then (- 1, strncpy_field cap no_reconnect, cfg2, po2)
                    else (case ex (au_dev cfg2) reply1 cap po2 of
                            (rc3, reply3, po3) \<Rightarrow>
                              if rc3 \<noteq> 0 then (- 1, strncpy_field cap failed, cfg2\<lparr>au_ready := False\<rparr>, po3)
                              else (0, reply3, cfg2, po3))))"

definition pmc_aux_ping_with_retry :: "aux_cfg \<Rightarrow> string \<Rightarrow> nat \<Rightarrow> port \<Rightarrow> int \<times> string \<times> aux_cfg \<times> port" where
  "pmc_aux_ping_with_retry = aux_retry pico_device_ping ''AUX_RECONNECT_FAILED'' ''AUX_PING_FAILED_AFTER_RECONNECT''"

definition pmc_aux_set_heater_with_retry ::
  "bool \<Rightarrow> aux_cfg \<Rightarrow> string \<Rightarrow> nat \<Rightarrow> port \<Rightarrow> int \<times> string \<times> aux_cfg \<times> port" where
  "pmc_aux_set_heater_with_retry on =
     aux_retry (\<lambda>d. pico_device_set_heater d on)
       (if on then ''AUX_RECONNECT_FAILED_ON'' else ''AUX_RECONNECT_FAILED_OFF'')
       (if on then ''AUX_HEATER_ON_FAILED_AFTER_RECONNECT'' else ''AUX_HEATER_OFF_FAILED_AFTER_RECONNECT'')"

definition pmc_aux_read_temp_with_retry :: "aux_cfg \<Rightarrow> string \<Rightarrow> nat \<Rightarrow> port \<Rightarrow> int \<times> string \<times> aux_cfg \<times> port" where
  "pmc_aux_read_temp_with_retry =
     aux_retry pico_device_read_temp ''AUX_RECONNECT_FAILED_TEMP'' ''AUX_TEMP_FAILED_AFTER_RECONNECT''"

definition pmc_aux_read_heater_with_retry :: "aux_cfg \<Rightarrow> string \<Rightarrow> nat \<Rightarrow> port \<Rightarrow> int \<times> string \<times> aux_cfg \<times> port" where
  "pmc_aux_read_heater_with_retry =
     aux_retry pico_device_read_heater ''AUX_RECONNECT_FAILED_HEATER'' ''AUX_HEATER_FAILED_AFTER_RECONNECT''"

section \<open>Configuration\<close>

definition pmc_io_uart_aux_clear :: "aux_cfg \<Rightarrow> port \<Rightarrow> aux_cfg \<times> port" where
  "pmc_io_uart_aux_clear cfg po =
     (aux_zero\<lparr>au_dev := \<lparr>pd_link = link_zero\<lparr>sl_fd := - 1\<rparr>, pd_connected = False\<rparr>\<rparr>,
      if pd_connected (au_dev cfg) then snd (pico_device_close (au_dev cfg) po) else po)"

definition pmc_io_uart_aux_shutdown :: "aux_cfg \<Rightarrow> port \<Rightarrow> aux_cfg \<times> port" where
  "pmc_io_uart_aux_shutdown cfg po = pmc_io_uart_aux_clear cfg po"

definition pmc_io_uart_aux_configure :: "string \<Rightarrow> int \<Rightarrow> aux_cfg \<Rightarrow> port \<Rightarrow> int \<times> aux_cfg \<times> port" where
  "pmc_io_uart_aux_configure path baud cfg po =
     (if path = [] then (- 1, cfg, po)
      else case pmc_io_uart_aux_clear cfg po of
        (cfg1, po1) \<Rightarrow>
          let cfg2 = cfg1\<lparr>au_path := strncpy_field PATH_CAP path, au_baud := baud, au_enabled := True\<rparr> in
          case pico_device_open path baud po1 of
            (rc, d, po2) \<Rightarrow>
              if rc \<noteq> 0 then (- 1, cfg2\<lparr>au_dev := d, au_ready := False\<rparr>, po2)
              else let cfg3 = cfg2\<lparr>au_dev := d, au_ready := True\<rparr> in (0, cfg3, pmc_aux_drain_boot_lines cfg3 po2))"

text \<open>The three one-shot helpers open a board of their own, do one exchange and close it.\<close>

definition uart_one_shot :: "exchange \<Rightarrow> string \<Rightarrow> int \<Rightarrow> string \<Rightarrow> nat \<Rightarrow> port \<Rightarrow> int \<times> string \<times> port" where
  "uart_one_shot ex path baud reply cap po =
     (case pico_device_open path baud po of
        (rc, d, po1) \<Rightarrow>
          if rc \<noteq> 0 then (- 1, reply, po1)
          else case ex d reply cap po1 of (rc2, reply2, po2) \<Rightarrow> (rc2, reply2, snd (pico_device_close d po2)))"

definition pmc_io_uart_ping :: "string \<Rightarrow> int \<Rightarrow> string \<Rightarrow> nat \<Rightarrow> port \<Rightarrow> int \<times> string \<times> port" where
  "pmc_io_uart_ping = uart_one_shot pico_device_ping"

definition pmc_io_uart_read_temp :: "string \<Rightarrow> int \<Rightarrow> string \<Rightarrow> nat \<Rightarrow> port \<Rightarrow> int \<times> string \<times> port" where
  "pmc_io_uart_read_temp = uart_one_shot pico_device_read_temp"

definition pmc_io_uart_set_heater :: "string \<Rightarrow> int \<Rightarrow> bool \<Rightarrow> string \<Rightarrow> nat \<Rightarrow> port \<Rightarrow> int \<times> string \<times> port" where
  "pmc_io_uart_set_heater path baud on = uart_one_shot (\<lambda>d. pico_device_set_heater d on) path baud"

section \<open>Before a command\<close>

definition pmc_io_apply_aux_for_command ::
  "i32 \<Rightarrow> message \<Rightarrow> nat \<Rightarrow> aux_cfg \<Rightarrow> port \<Rightarrow> int \<times> string \<times> aux_cfg \<times> port" where
  "pmc_io_apply_aux_for_command dev_id msg cap cfg po =
     (if \<not> au_enabled cfg then (0, [], cfg, po)
      else case (if \<not> au_ready cfg then pmc_aux_reconnect cfg po else (0, cfg, po)) of
        (rc, cfg1, po1) \<Rightarrow>
          if rc \<noteq> 0 then (- 1, strncpy_field cap ''AUX_SESSION_NOT_READY'', cfg1, po1)
          else if dev_id \<noteq> 1 then (0, [], cfg1, po1)
          else if m_type msg = TYPE_START
          then (case pmc_aux_ping_with_retry cfg1 [] cap po1 of
                  (rc2, reply2, cfg2, po2) \<Rightarrow>
                    if rc2 \<noteq> 0 then (- 1, strncpy_field cap ''AUX_PING_FAILED'', cfg2, po2)
                    else if \<not> pmc_aux_reply_is reply2 ''OK PONG''
                    then (- 1, strncpy_field cap ''AUX_PING_BAD_REPLY'', cfg2, po2)
                    else (case pmc_aux_set_heater_with_retry True cfg2 reply2 cap po2 of
                            (rc3, reply3, cfg3, po3) \<Rightarrow>
                              if rc3 \<noteq> 0 then (- 1, strncpy_field cap ''AUX_HEATER_ON_FAILED'', cfg3, po3)
                              else if \<not> pmc_aux_reply_is reply3 ''OK HEATER ON''
                              then (- 1, strncpy_field cap ''AUX_HEATER_ON_BAD_REPLY'', cfg3, po3)
                              else (0, reply3, cfg3, po3)))
          else if m_type msg = TYPE_STOP \<or> m_type msg = TYPE_RESET \<or> m_type msg = TYPE_FAULT
          then (case pmc_aux_set_heater_with_retry False cfg1 [] cap po1 of
                  (rc2, reply2, cfg2, po2) \<Rightarrow>
                    if rc2 \<noteq> 0 then (- 1, strncpy_field cap ''AUX_HEATER_OFF_FAILED'', cfg2, po2)
                    else if \<not> pmc_aux_reply_is reply2 ''OK HEATER OFF''
                    then (- 1, strncpy_field cap ''AUX_HEATER_OFF_BAD_REPLY'', cfg2, po2)
                    else (0, reply2, cfg2, po2))
          else (0, [], cfg1, po1))"

section \<open>The snapshot\<close>

record aux_snapshot =
  as_valid :: bool
  as_heater_known :: bool
  as_heater_on :: bool
  as_temp_known :: bool
  as_temp_c :: cdouble
  as_heater_raw :: string
  as_temp_raw :: string

definition snapshot_zero :: aux_snapshot where
  "snapshot_zero = \<lparr>as_valid = False, as_heater_known = False, as_heater_on = False, as_temp_known = False,
     as_temp_c = DFin False 0, as_heater_raw = [], as_temp_raw = []\<rparr>"

text \<open>
  The conversion \<^verbatim>\<open>%f\<close> of \<^verbatim>\<open>sscanf\<close> into a \<^verbatim>\<open>float\<close> (24 bits of precision, least exponent -149), as glibc
  does it: \<open>None\<close> when no number is there.
\<close>

definition float_round :: "bool \<Rightarrow> rat \<Rightarrow> cdouble" where
  "float_round neg q =
     (let r = fround 24 (- 149) q in if 2 ^ 128 \<le> r then DInf neg else DFin neg r)"

definition scan_float :: "string \<Rightarrow> cdouble option" where
  "scan_float s =
     (case scan_sign (dropWhile is_space s) of (neg, u) \<Rightarrow>
        if map lower (take 3 u) = ''inf''
        then (if map lower (take 4 u) = ''infi'' \<and> map lower (take 8 u) \<noteq> ''infinity'' then None else Some (DInf neg))
        else if map lower (take 3 u) = ''nan'' then Some (DNaN neg)
        else if map lower (take 2 u) = ''0x''
        then (case scan_mantissa is_xdigit (drop 2 u) of (i, f, rest) \<Rightarrow>
                if i = [] \<and> f = [] then None
                else Some (float_round neg (of_nat (base_val 16 xdigit_val 0 (i @ f)) / 16 ^ length f
                             * pow2 (scan_exponent CHR ''p'' rest))))
        else (case scan_mantissa is_digit u of (i, f, rest) \<Rightarrow>
                if i = [] \<and> f = [] then None
                else Some (float_round neg (scale10 (of_nat (digits_val 0 (i @ f)) / 10 ^ length f)
                             (scan_exponent CHR ''e'' rest)))))"

text \<open>\<^verbatim>\<open>sscanf (s, "TEMP %f", \<dots>)\<close>: the blank of the format matches any white space, also none.\<close>

definition scan_temp :: "string \<Rightarrow> cdouble option" where
  "scan_temp s = (if take 4 s = ''TEMP'' then scan_float (drop 4 s) else None)"

abbreviation SNAP_CAP :: nat where "SNAP_CAP \<equiv> 64"
abbreviation RAW_CAP :: nat where "RAW_CAP \<equiv> 32"

definition snap_heater :: "string \<Rightarrow> aux_snapshot \<Rightarrow> aux_snapshot" where
  "snap_heater reply s =
     (let s1 = s\<lparr>as_heater_raw := strncpy_field RAW_CAP reply, as_heater_known := True\<rparr>
      in if reply = ''HEATER ON'' then s1\<lparr>as_heater_on := True\<rparr>
         else if reply = ''HEATER OFF'' then s1\<lparr>as_heater_on := False\<rparr>
         else s1\<lparr>as_heater_known := False\<rparr>)"

definition snap_temp :: "string \<Rightarrow> aux_snapshot \<Rightarrow> aux_snapshot" where
  "snap_temp reply s =
     (let s1 = s\<lparr>as_temp_raw := strncpy_field RAW_CAP reply\<rparr>
      in case scan_temp reply of None \<Rightarrow> s1 | Some t \<Rightarrow> s1\<lparr>as_temp_known := True, as_temp_c := t\<rparr>)"

definition pmc_io_read_aux_snapshot :: "i32 \<Rightarrow> aux_cfg \<Rightarrow> port \<Rightarrow> int \<times> aux_snapshot \<times> aux_cfg \<times> port" where
  "pmc_io_read_aux_snapshot dev_id cfg po =
     (if dev_id \<noteq> 1 \<or> \<not> au_enabled cfg then (0, snapshot_zero, cfg, po)
      else case (if \<not> au_ready cfg then pmc_aux_reconnect cfg po else (0, cfg, po)) of
        (rc, cfg1, po1) \<Rightarrow>
          if rc \<noteq> 0 then (- 1, snapshot_zero, cfg1, po1)
          else (case pmc_aux_read_heater_with_retry cfg1 [] SNAP_CAP po1 of
                  (rc2, hr, cfg2, po2) \<Rightarrow>
                    let s2 = (if rc2 = 0 then snap_heater hr snapshot_zero else snapshot_zero) in
                    case pmc_aux_read_temp_with_retry cfg2 [] SNAP_CAP po2 of
                      (rc3, tr, cfg3, po3) \<Rightarrow>
                        let s3 = (if rc3 = 0 then snap_temp tr s2 else s2) in
                        (0, s3\<lparr>as_valid := (as_heater_known s3 \<or> as_temp_known s3)\<rparr>, cfg3, po3)))"

section \<open>What an exchange sends\<close>

text \<open>The payloads written, in order, to whatever descriptor.\<close>

fun writes :: "os_event list \<Rightarrow> bytes list" where
  "writes [] = []"
| "writes (Wrote fd bs # es) = bs # writes es"
| "writes (_ # es) = writes es"

lemma writes_append [simp]: "writes (xs @ ys) = writes xs @ writes ys"
  by (induction xs rule: writes.induct) auto

text \<open>
  \<open>sends po ps po'\<close>: from \<open>po\<close> to \<open>po'\<close> exactly the payloads \<open>ps\<close> were written.
\<close>

definition sends :: "port \<Rightarrow> bytes list \<Rightarrow> port \<Rightarrow> bool" where
  "sends po ps po' \<longleftrightarrow> (\<exists>es. logged (po_world po) es (po_world po') \<and> writes es = ps)"

lemma sends_trans: "sends a ps b \<Longrightarrow> sends b qs c \<Longrightarrow> sends a (ps @ qs) c"
  by (auto simp: sends_def) (metis logged_trans writes_append)

lemma sends_refl [simp]: "sends po [] po"
  by (auto simp: sends_def intro: exI [of _ "[]"])

lemma sends_same_world: "po_world po' = po_world po \<Longrightarrow> sends po [] po'"
  by (auto simp: sends_def intro: exI [of _ "[]"])

lemma close_sends: "sends po [] (snd (pico_device_close d po))"
  by (auto simp: sends_def pico_device_close_def serial_link_close_def os_log_def logged_def
      intro: exI [of _ "[]"] exI [of _ "[Closed (sl_fd (pd_link d))]"])

lemma open_sends: "pico_device_open path baud po = (rc, d, po') \<Longrightarrow> sends po [] po' \<and> (rc = 0 \<longrightarrow> pd_connected d)"
  by (auto simp: pico_device_open_def serial_link_open_def intro!: sends_same_world
      split: prod.splits if_splits list.splits option.splits)

lemma drain_sends: "sends po [] (drain_lines n l po)"
proof (induction n arbitrary: po)
  case (Suc n)
  obtain rc line po1 where r: "serial_link_read_line l [] 128 po = (rc, line, po1)" by (metis prod_cases3)
  have "sends po [] po1" using read_line_world [OF r] by (simp add: sends_same_world)
  with sends_trans [OF this Suc.IH [of po1]] r show ?case by simp
qed simp

lemma boot_lines_sends: "sends po [] (pmc_aux_drain_boot_lines cfg po)"
  by (simp add: pmc_aux_drain_boot_lines_def drain_sends)

lemma reconnect_spec:
  assumes "pmc_aux_reconnect cfg po = (rc, cfg', po')"
  shows "sends po [] po' \<and> au_enabled cfg' = au_enabled cfg \<and> (rc = 0 \<or> rc = - 1) \<and> (rc = 0 \<longrightarrow> au_ready cfg')"
proof (cases "\<not> au_enabled cfg \<or> au_path cfg = []")
  case True
  with assms show ?thesis by (auto simp: pmc_aux_reconnect_def)
next
  case False
  obtain d po1 where d: "(if pd_connected (au_dev cfg) then pico_device_close (au_dev cfg) po else (au_dev cfg, po)) = (d, po1)"
    by fastforce
  have s1: "sends po [] po1" using d close_sends [of po "au_dev cfg"] by (cases "pd_connected (au_dev cfg)") auto
  obtain rc2 d2 po2 where o: "pico_device_open (au_path cfg) (au_baud cfg) po1 = (rc2, d2, po2)" by (metis prod_cases3)
  have s2: "sends po [] po2" using sends_trans [OF s1 conjunct1 [OF open_sends [OF o]]] by simp
  have "sends po [] (pmc_aux_drain_boot_lines c po2)" for c
    using sends_trans [OF s2 boot_lines_sends] by simp
  with assms False d o s2 show ?thesis
    by (auto simp: pmc_aux_reconnect_def Let_def split: if_splits)
qed

text \<open>
  What the retry wrapper relies on: an exchange writes its command at most once, and when it
  succeeds it has written it once and left a non-empty reply that fits the buffer.
\<close>

locale board_exchange =
  fixes ex :: exchange and cmd :: string
  assumes ex_code: "ex d reply cap po = (rc, reply', po') \<Longrightarrow> rc = 0 \<or> rc = - 1"
    and ex_sends: "ex d reply cap po = (rc, reply', po') \<Longrightarrow> sends po [] po' \<or> sends po [cmd @ [LF]] po'"
    and ex_ok: "ex d reply cap po = (0, reply', po') \<Longrightarrow>
          sends po [cmd @ [LF]] po' \<and> reply' \<noteq> [] \<and> length reply' < cap \<and> NUL \<notin> set reply'"
begin

lemma retry_spec:
  assumes "aux_retry ex a b cfg reply cap po = (rc, reply', cfg', po')"
  shows "\<exists>n \<le> 2. sends po (replicate n (cmd @ [LF])) po' \<and> (rc = 0 \<or> rc = - 1) \<and> au_enabled cfg' = au_enabled cfg
     \<and> (rc = 0 \<longrightarrow> 0 < n \<and> reply' \<noteq> [] \<and> length reply' < cap \<and> NUL \<notin> set reply')"
proof -
  obtain rc1 r1 po1 where e1: "ex (au_dev cfg) reply cap po = (rc1, r1, po1)" by (metis prod_cases3)
  obtain k where k: "k \<le> 1" "sends po (replicate k (cmd @ [LF])) po1"
    using ex_sends [OF e1] by (metis le_numeral_extra(3,4) replicate.simps(1) replicate_Suc One_nat_def zero_le)
  show ?thesis
  proof (cases "rc1 = 0")
    case True
    with ex_ok [of "au_dev cfg" reply cap po r1 po1] e1 assms show ?thesis
      by (intro exI [of _ 1]) (simp add: aux_retry_def)
  next
    case False
    obtain rc2 c2 po2 where r: "pmc_aux_reconnect cfg po1 = (rc2, c2, po2)" by (metis prod_cases3)
    note rs = reconnect_spec [OF r]
    have s2: "sends po (replicate k (cmd @ [LF])) po2" using sends_trans [OF k(2) conjunct1 [OF rs]] by simp
    show ?thesis
    proof (cases "rc2 = 0")
      case False
      with assms e1 r \<open>rc1 \<noteq> 0\<close> s2 k(1) rs show ?thesis
        by (intro exI [of _ k]) (auto simp: aux_retry_def)
    next
      case True
      obtain rc3 r3 po3 where e3: "ex (au_dev c2) r1 cap po2 = (rc3, r3, po3)" by (metis prod_cases3)
      obtain j where j: "j \<le> 1" "sends po2 (replicate j (cmd @ [LF])) po3" and j0: "rc3 = 0 \<Longrightarrow> j = 1"
        using ex_sends [OF e3] ex_ok [of "au_dev c2" r1 cap po2 r3 po3] e3
        by (metis le_numeral_extra(3,4) replicate.simps(1) replicate_Suc One_nat_def zero_le)
      have "sends po (replicate (k + j) (cmd @ [LF])) po3"
        using sends_trans [OF s2 j(2)] by (simp add: replicate_add)
      with assms e1 r e3 \<open>rc1 \<noteq> 0\<close> True k(1) j(1) j0 rs ex_ok [of "au_dev c2" r1 cap po2 r3 po3] show ?thesis
        by (intro exI [of _ "k + j"]) (auto simp: aux_retry_def split: if_splits)
    qed
  qed
qed

end

lemma sends_logged: "logged (po_world po) [Wrote fd bs] (po_world po') \<Longrightarrow> sends po [bs] po'"
  by (auto simp: sends_def intro: exI [of _ "[Wrote fd bs]"])

lemma board_exchange_pico: "board_exchange (\<lambda>d. pico_send_and_wait d cmd) cmd"
proof unfold_locales
  fix d reply cap po rc reply' po'
  show "rc = 0 \<or> rc = - 1" if "pico_send_and_wait d cmd reply cap po = (rc, reply', po')"
    using pico_send_and_wait_spec [OF that] by blast
  show "sends po [] po' \<or> sends po [cmd @ [LF]] po'" if "pico_send_and_wait d cmd reply cap po = (rc, reply', po')"
    using pico_send_and_wait_spec [OF that] sends_logged by (auto simp: sends_def)
  show "sends po [cmd @ [LF]] po' \<and> reply' \<noteq> [] \<and> length reply' < cap \<and> NUL \<notin> set reply'"
    if "pico_send_and_wait d cmd reply cap po = (0, reply', po')"
    using pico_send_and_wait_spec [OF that] sends_logged by blast
qed

interpretation ping: board_exchange pico_device_ping "''PING''"
  using board_exchange_pico [of "''PING''"] by (simp add: pico_device_ping_def [abs_def])

interpretation read_temp: board_exchange pico_device_read_temp "''READ TEMP''"
  using board_exchange_pico [of "''READ TEMP''"] by (simp add: pico_device_read_temp_def [abs_def])

interpretation read_heater: board_exchange pico_device_read_heater "''READ HEATER''"
  using board_exchange_pico [of "''READ HEATER''"] by (simp add: pico_device_read_heater_def [abs_def])

interpretation set_heater: board_exchange "\<lambda>d. pico_device_set_heater d on" "heater_command on" for on
  using board_exchange_pico [of "heater_command on"] by (simp add: pico_device_set_heater_def [abs_def])

section \<open>The heater before a command\<close>

abbreviation PING_LINE :: bytes where "PING_LINE \<equiv> ''PING'' @ [LF]"
abbreviation HEATER_LINE :: "bool \<Rightarrow> bytes" where "HEATER_LINE on \<equiv> heater_command on @ [LF]"

lemma session_ready_spec:
  assumes "(if \<not> au_ready cfg then pmc_aux_reconnect cfg po else (0, cfg, po)) = (rc, cfg', po')"
  shows "sends po [] po' \<and> au_enabled cfg' = au_enabled cfg"
  using assms reconnect_spec [of cfg po rc cfg' po'] by (auto split: if_splits)

lemma start_heater_spec:
  assumes assms: "pmc_io_apply_aux_for_command 1 msg cap cfg po = (rc, reply, cfg', po')"
      "au_enabled cfg" "m_type msg = TYPE_START"
    and s: "(if \<not> au_ready cfg then pmc_aux_reconnect cfg po else (0, cfg, po)) = (rc1, c1, po1)"
    and p: "pmc_aux_ping_with_retry c1 [] cap po1 = (rc2, r2, c2, po2)"
  shows "\<exists>a b. a \<le> 2 \<and> b \<le> 2 \<and> sends po (replicate a PING_LINE @ replicate b (HEATER_LINE True)) po'
     \<and> (rc = 0 \<or> rc = - 1) \<and> (rc = 0 \<longrightarrow> 0 < a \<and> 0 < b \<and> pmc_aux_reply_is reply ''OK HEATER ON'')
     \<and> (0 < b \<longrightarrow> 0 < a \<and> rc1 = 0 \<and> rc2 = 0 \<and> take 7 r2 = ''OK PONG'')"
proof -
  note s1 = conjunct1 [OF session_ready_spec [OF s]]
  from ping.retry_spec [OF p [unfolded pmc_aux_ping_with_retry_def]] obtain a where
    a: "a \<le> 2" "sends po1 (replicate a PING_LINE) po2" "rc2 = 0 \<longrightarrow> 0 < a" by blast
  have sp: "sends po (replicate a PING_LINE) po2" using sends_trans [OF s1 a(2)] by simp
  obtain rc3 r3 c3 po3 where h: "pmc_aux_set_heater_with_retry True c2 r2 cap po2 = (rc3, r3, c3, po3)" by (metis prod_cases4)
  from set_heater.retry_spec [OF h [unfolded pmc_aux_set_heater_with_retry_def]] obtain b where
    b: "b \<le> 2" "sends po2 (replicate b (HEATER_LINE True)) po3" "rc3 = 0 \<longrightarrow> 0 < b" by blast
  have sh: "sends po (replicate a PING_LINE @ replicate b (HEATER_LINE True)) po3" by (rule sends_trans [OF sp b(2)])
  show ?thesis
  proof (cases "rc1 = 0")
    case False
    with assms s s1 show ?thesis
      by (intro exI [of _ 0]) (simp add: pmc_io_apply_aux_for_command_def)
  next
    case r1: True
    show ?thesis
    proof (cases "rc2 = 0 \<and> pmc_aux_reply_is r2 ''OK PONG''")
      case False
      with assms s p r1 a sp show ?thesis
        by - (rule exI [of _ a], rule exI [of _ 0], auto simp: pmc_io_apply_aux_for_command_def split: if_splits)
    next
      case r2: True
      from assms s p r1 r2 h have "(rc, reply, cfg', po') =
          (if rc3 \<noteq> 0 then (- 1, strncpy_field cap ''AUX_HEATER_ON_FAILED'', c3, po3)
           else if \<not> pmc_aux_reply_is r3 ''OK HEATER ON''
           then (- 1, strncpy_field cap ''AUX_HEATER_ON_BAD_REPLY'', c3, po3) else (0, r3, c3, po3))"
        by (simp add: pmc_io_apply_aux_for_command_def)
      moreover have "take 7 r2 = ''OK PONG''" using r2 by (simp add: pmc_aux_reply_is_def eval_nat_numeral)
      ultimately show ?thesis using a b r1 r2 sh
        by - (rule exI [of _ a], rule exI [of _ b], auto split: if_splits)
    qed
  qed
qed

text \<open>
  C8: A START for the preclean module gets past the heater only when the board has answered a PING
  with \<open>OK PONG\<close> and then a heater-on command with \<open>OK HEATER ON\<close>.  The session is taken as it is
  or reopened (\<open>rc1\<close>), then the PINGs are exchanged on it (\<open>rc2\<close>, \<open>reply2\<close>): unless both succeed
  and the reply to the PING starts with \<open>OK PONG\<close>, no heater-on command is written and the START
  is refused.  Each command is written at most twice, the heater-on commands after the PINGs, and
  no heater-off command at all, whether the START is then accepted or refused.
\<close>

theorem start_waits_for_heater:
  assumes "pmc_io_apply_aux_for_command 1 msg cap cfg po = (rc, reply, cfg', po')"
    and "au_enabled cfg" and "m_type msg = TYPE_START"
    and "(if \<not> au_ready cfg then pmc_aux_reconnect cfg po else (0, cfg, po)) = (rc1, cfg1, po1)"
    and "pmc_aux_ping_with_retry cfg1 [] cap po1 = (rc2, reply2, cfg2, po2)"
  shows "\<exists>a b. a \<le> 2 \<and> b \<le> 2 \<and> sends po (replicate a PING_LINE @ replicate b (HEATER_LINE True)) po'
     \<and> (rc = 0 \<or> rc = - 1) \<and> (rc = 0 \<longrightarrow> 0 < a \<and> 0 < b \<and> pmc_aux_reply_is reply ''OK HEATER ON'')
     \<and> (0 < b \<longrightarrow> 0 < a \<and> rc1 = 0 \<and> rc2 = 0 \<and> take 7 reply2 = ''OK PONG'')"
  by (rule start_heater_spec [OF assms])

text \<open>A board for examples: it is open and answers with the given lines.\<close>

definition board_says :: "string list \<Rightarrow> port" where
  "board_says ls = \<lparr>po_opens = [], po_input = map RdByte (concat (map (\<lambda>l. l @ [LF]) ls)), po_world = quiet_world 1\<rparr>"

definition ready_aux :: aux_cfg where
  "ready_aux = \<lparr>au_enabled = True, au_path = ''/dev/ttyACM0'', au_baud = 115200,
     au_dev = \<lparr>pd_link = link_zero\<lparr>sl_fd := 8, sl_is_open := True\<rparr>, pd_connected = True\<rparr>, au_ready = True\<rparr>"

definition command :: "msg_type \<Rightarrow> message" where
  "command t = message_zero\<lparr>m_role := ROLE_REQ, m_type := t, m_dev := 1, m_has_dev := True, m_seq := 3, m_has_seq := True\<rparr>"

lemma command_fields [simp]:
  "m_role (command t) = ROLE_REQ" "m_type (command t) = t" "m_dev (command t) = 1" "m_has_dev (command t)"
  "au_enabled ready_aux"
  by (simp_all add: command_def ready_aux_def)

theorem start_waits_for_heater_witness:
  "pmc_aux_reply_is (fst (snd (pmc_io_apply_aux_for_command 1 (command TYPE_START) 128 ready_aux
     (board_says [''OK PONG'', ''OK HEATER ON''])))) ''OK HEATER ON''"
proof -
  let ?r = "pmc_io_apply_aux_for_command 1 (command TYPE_START) 128 ready_aux (board_says [''OK PONG'', ''OK HEATER ON''])"
  let ?po = "board_says [''OK PONG'', ''OK HEATER ON'']"
  obtain rc reply cfg po where h: "?r = (rc, reply, cfg, po)" by (metis prod_cases4)
  have "fst ?r = 0" by code_simp
  moreover obtain rc2 r2 c2 po2 where p: "pmc_aux_ping_with_retry ready_aux [] 128 ?po = (rc2, r2, c2, po2)"
    by (metis prod_cases4)
  have s: "(if \<not> au_ready ready_aux then pmc_aux_reconnect ready_aux ?po else (0, ready_aux, ?po)) = (0, ready_aux, ?po)"
    by (simp add: ready_aux_def)
  ultimately show ?thesis using start_waits_for_heater [OF h _ _ s p] h by auto
qed

text \<open>
  C25: STOP, RESET and FAULT for the preclean module get past the heater only when the board has
  answered a heater-off command with \<open>OK HEATER OFF\<close>; nothing else is written to the board.
\<close>

theorem stop_waits_for_heater:
  assumes "pmc_io_apply_aux_for_command 1 msg cap cfg po = (rc, reply, cfg', po')"
    and "au_enabled cfg" and "m_type msg \<in> {TYPE_STOP, TYPE_RESET, TYPE_FAULT}"
  shows "\<exists>b \<le> 2. sends po (replicate b (HEATER_LINE False)) po'
     \<and> (rc = 0 \<or> rc = - 1) \<and> (rc = 0 \<longrightarrow> 0 < b \<and> pmc_aux_reply_is reply ''OK HEATER OFF'')"
proof -
  obtain rc1 c1 po1 where s: "(if \<not> au_ready cfg then pmc_aux_reconnect cfg po else (0, cfg, po)) = (rc1, c1, po1)"
    by (metis prod_cases3)
  note s1 = conjunct1 [OF session_ready_spec [OF s]]
  obtain rc3 r3 c3 po3 where h: "pmc_aux_set_heater_with_retry False c1 [] cap po1 = (rc3, r3, c3, po3)" by (metis prod_cases4)
  from set_heater.retry_spec [OF h [unfolded pmc_aux_set_heater_with_retry_def]] obtain b where
    b: "b \<le> 2" "sends po1 (replicate b (HEATER_LINE False)) po3" "rc3 = 0 \<longrightarrow> 0 < b" by blast
  have sh: "sends po (replicate b (HEATER_LINE False)) po3" using sends_trans [OF s1 b(2)] by simp
  have ty: "m_type msg \<noteq> TYPE_START" "m_type msg = TYPE_STOP \<or> m_type msg = TYPE_RESET \<or> m_type msg = TYPE_FAULT"
    using assms(3) by auto
  show ?thesis
  proof (cases "rc1 = 0")
    case False
    with assms s s1 show ?thesis
      by (intro exI [of _ 0]) (simp add: pmc_io_apply_aux_for_command_def)
  next
    case True
    from assms(1,2) s h True ty have "(rc, reply, cfg', po') =
        (if rc3 \<noteq> 0 then (- 1, strncpy_field cap ''AUX_HEATER_OFF_FAILED'', c3, po3)
         else if \<not> pmc_aux_reply_is r3 ''OK HEATER OFF''
         then (- 1, strncpy_field cap ''AUX_HEATER_OFF_BAD_REPLY'', c3, po3) else (0, r3, c3, po3))"
      by (simp add: pmc_io_apply_aux_for_command_def)
    with b sh show ?thesis by (intro exI [of _ b]) (auto split: if_splits)
  qed
qed

theorem stop_waits_for_heater_witness:
  "pmc_aux_reply_is (fst (snd (pmc_io_apply_aux_for_command 1 (command TYPE_STOP) 128 ready_aux
     (board_says [[], ''OK HEATER OFF''])))) ''OK HEATER OFF''"
proof -
  let ?r = "pmc_io_apply_aux_for_command 1 (command TYPE_STOP) 128 ready_aux (board_says [[], ''OK HEATER OFF''])"
  obtain rc reply cfg po where h: "?r = (rc, reply, cfg, po)" by (metis prod_cases4)
  have "fst ?r = 0" by code_simp
  with stop_waits_for_heater [OF h] h show ?thesis by auto
qed

end
