(* ===== verification/Pmc_Core.thy ===== *)
theory Pmc_Core
  imports Pmc_Aux Line_Codec Session "HOL-Library.AList"
begin

text \<open>
  The process module controller above its sockets: \<^verbatim>\<open>nodes/pmc/src/pmc_connection.c\<close>,
  \<^verbatim>\<open>alarm_manager.c\<close>, \<^verbatim>\<open>interlock.c\<close>, \<^verbatim>\<open>sequence_manager.c\<close>, \<^verbatim>\<open>pmc_router.c\<close> and the sending part of
  \<^verbatim>\<open>io_manager.c\<close>.  The C program keeps its connections in a linked list of heap objects which are
  in the list from their creation to their release; here the list is \<open>pm_conns\<close>, each object with
  its address, head first (the \<^verbatim>\<open>next\<close> pointers are the order of the list).
\<close>

datatype peer_type = PEER_UNKNOWN | PEER_EQD | PEER_SIM

record pmc_connection =
  pc_fd :: int
  pc_type :: peer_type
  pc_registered :: bool
  pc_dev_id :: i32
  pc_state :: string
  pc_has_state :: bool
  pc_session :: session_t

datatype pmc_alarm_code =
    PMC_ALARM_NONE | PMC_ALARM_MISSING_DEV | PMC_ALARM_SIM_NOT_FOUND | PMC_ALARM_INTERLOCK_BLOCKED
  | PMC_ALARM_IO_SEND_FAILED | PMC_ALARM_AUX_IO_FAILED

record pmc_alarm_state =
  al_code :: pmc_alarm_code
  al_dev_id :: i32
  al_detail :: string

type_synonym pmc_addr = nat

record pmc =
  pm_conns :: "(pmc_addr \<times> pmc_connection) list"
  pm_alarm :: pmc_alarm_state
  pm_aux :: aux_cfg

section \<open>The connection list\<close>

definition pmc_conn_add :: "pmc_addr \<Rightarrow> pmc_connection \<Rightarrow> pmc \<Rightarrow> pmc" where
  "pmc_conn_add p c pm = pm\<lparr>pm_conns := (p, c) # pm_conns pm\<rparr>"

fun unlink_conn :: "pmc_addr \<Rightarrow> (pmc_addr \<times> pmc_connection) list \<Rightarrow> (pmc_addr \<times> pmc_connection) list" where
  "unlink_conn p [] = []"
| "unlink_conn p (x # xs) = (if fst x = p then xs else x # unlink_conn p xs)"

definition pmc_conn_remove :: "pmc_addr \<Rightarrow> pmc \<Rightarrow> pmc" where
  "pmc_conn_remove p pm = pm\<lparr>pm_conns := unlink_conn p (pm_conns pm)\<rparr>"

text \<open>The two searches walk the list from its head and return the first match.\<close>

fun first_conn :: "(pmc_connection \<Rightarrow> bool) \<Rightarrow> (pmc_addr \<times> pmc_connection) list \<Rightarrow> (pmc_addr \<times> pmc_connection) option" where
  "first_conn P [] = None"
| "first_conn P (x # xs) = (if P (snd x) then Some x else first_conn P xs)"

definition pmc_find_eqd :: "pmc \<Rightarrow> (pmc_addr \<times> pmc_connection) option" where
  "pmc_find_eqd pm = first_conn (\<lambda>c. pc_registered c \<and> pc_type c = PEER_EQD) (pm_conns pm)"

definition pmc_find_sim :: "i32 \<Rightarrow> pmc \<Rightarrow> (pmc_addr \<times> pmc_connection) option" where
  "pmc_find_sim dev pm = first_conn (\<lambda>c. pc_registered c \<and> pc_type c = PEER_SIM \<and> pc_dev_id c = dev) (pm_conns pm)"

text \<open>Reading and writing an object through its address.\<close>

definition conn_at :: "pmc_addr \<Rightarrow> pmc \<Rightarrow> pmc_connection option" where
  "conn_at p pm = map_of (pm_conns pm) p"

definition write_conn :: "pmc_addr \<Rightarrow> pmc_connection \<Rightarrow> pmc \<Rightarrow> pmc" where
  "write_conn p c pm = pm\<lparr>pm_conns := AList.update p c (pm_conns pm)\<rparr>"

section \<open>Alarms\<close>

abbreviation DETAIL_CAP :: nat where "DETAIL_CAP \<equiv> 128"

definition pmc_alarm_init :: "pmc \<Rightarrow> pmc" where
  "pmc_alarm_init pm = pm\<lparr>pm_alarm := \<lparr>al_code = PMC_ALARM_NONE, al_dev_id = - 1, al_detail = []\<rparr>\<rparr>"

definition pmc_alarm_clear :: "pmc \<Rightarrow> pmc" where
  "pmc_alarm_clear pm = pm\<lparr>pm_alarm := \<lparr>al_code = PMC_ALARM_NONE, al_dev_id = - 1, al_detail = []\<rparr>\<rparr>"

definition pmc_alarm_raise :: "i32 \<Rightarrow> pmc_alarm_code \<Rightarrow> string option \<Rightarrow> pmc \<Rightarrow> pmc" where
  "pmc_alarm_raise dev code detail pm =
     pm\<lparr>pm_alarm := \<lparr>al_code = code, al_dev_id = dev,
        al_detail = (case detail of Some d \<Rightarrow> strncpy_field DETAIL_CAP d | None \<Rightarrow> [])\<rparr>\<rparr>"

definition pmc_alarm_last_code :: "pmc \<Rightarrow> pmc_alarm_code" where
  "pmc_alarm_last_code pm = al_code (pm_alarm pm)"

definition pmc_alarm_last_dev :: "pmc \<Rightarrow> i32" where
  "pmc_alarm_last_dev pm = al_dev_id (pm_alarm pm)"

definition pmc_alarm_last_detail :: "pmc \<Rightarrow> string" where
  "pmc_alarm_last_detail pm = al_detail (pm_alarm pm)"

section \<open>Interlock and decision\<close>

definition pmc_interlock_check :: "pmc_connection option \<Rightarrow> message \<Rightarrow> int" where
  "pmc_interlock_check sim msg =
     (case sim of
        None \<Rightarrow> - 1
      | Some c \<Rightarrow>
          if \<not> pc_has_state c then - 1
          else (case m_type msg of
                  TYPE_START \<Rightarrow> (if pc_state c = ''IDLE'' then 0 else - 1)
                | TYPE_STOP \<Rightarrow> (if pc_state c = ''PROCESSING'' then 0 else - 1)
                | TYPE_RESET \<Rightarrow> (if pc_state c = ''FAULT'' then 0 else - 1)
                | _ \<Rightarrow> 0))"

datatype pmc_seq_action =
    PMC_SEQ_ACTION_ROUTE_TO_SIM | PMC_SEQ_ACTION_RESPOND_CACHED_STATUS | PMC_SEQ_ACTION_REJECT_MISSING_DEV
  | PMC_SEQ_ACTION_REJECT_SIM_NOT_FOUND | PMC_SEQ_ACTION_REJECT_INTERLOCK

definition pmc_sequence_decide_eqd_request :: "pmc_connection option \<Rightarrow> message \<Rightarrow> pmc_seq_action" where
  "pmc_sequence_decide_eqd_request sim msg =
     (if \<not> m_has_dev msg then PMC_SEQ_ACTION_REJECT_MISSING_DEV
      else if sim = None then PMC_SEQ_ACTION_REJECT_SIM_NOT_FOUND
      else if m_type msg = TYPE_STATUS then PMC_SEQ_ACTION_RESPOND_CACHED_STATUS
      else if pmc_interlock_check sim msg \<noteq> 0 then PMC_SEQ_ACTION_REJECT_INTERLOCK
      else PMC_SEQ_ACTION_ROUTE_TO_SIM)"

section \<open>Sending\<close>

abbreviation PMC_OUT :: nat where "PMC_OUT \<equiv> 512"

definition pmc_io_send_message :: "pmc_connection \<Rightarrow> message \<Rightarrow> port \<Rightarrow> int \<times> port" where
  "pmc_io_send_message target msg po =
     (case line_format msg PMC_OUT of
        None \<Rightarrow> (- 1, po)
      | Some bs \<Rightarrow>
          if bs = [] then (- 1, po)
          else (case os_write (pc_fd target) bs (po_world po) of
                  (ok, w) \<Rightarrow> (if ok then 0 else - 1, po\<lparr>po_world := w\<rparr>)))"

definition pmc_error :: "message \<Rightarrow> i32 \<Rightarrow> string option \<Rightarrow> message" where
  "pmc_error req code text =
     (let e = message_zero\<lparr>m_role := ROLE_RESP, m_type := TYPE_ERROR\<rparr>;
          e = (if m_has_dev req then e\<lparr>m_dev := m_dev req, m_has_dev := True\<rparr> else e);
          e = (if m_has_seq req then e\<lparr>m_seq := m_seq req, m_has_seq := True\<rparr> else e);
          e = e\<lparr>m_ok := 0, m_has_ok := True, m_code := code, m_has_code := True\<rparr>
      in case text of None \<Rightarrow> e | Some t \<Rightarrow> e\<lparr>m_msg := strncpy_field MSG_CAP t, m_has_msg := True\<rparr>)"

definition pmc_io_send_error :: "pmc_connection \<Rightarrow> message \<Rightarrow> i32 \<Rightarrow> string option \<Rightarrow> port \<Rightarrow> int \<times> port" where
  "pmc_io_send_error target req code text po = pmc_io_send_message target (pmc_error req code text) po"

text \<open>The note on the heater in a status response: present when the snapshot knows something.\<close>

definition aux_note :: "aux_snapshot \<Rightarrow> string option" where
  "aux_note aux =
     (let on_off = (if as_heater_on aux then ''ON'' else ''OFF'') in
      if \<not> as_valid aux then None
      else if as_heater_known aux \<and> as_temp_known aux
      then Some (''aux_'' @ on_off @ ''_'' @ fmt2 (as_temp_c aux) @ ''C'')
      else if as_heater_known aux then Some (''aux_'' @ on_off)
      else if as_temp_known aux then Some (''aux_temp_'' @ fmt2 (as_temp_c aux) @ ''C'')
      else None)"

definition cached_status :: "message \<Rightarrow> pmc_connection \<Rightarrow> aux_snapshot \<Rightarrow> message" where
  "cached_status req sim aux =
     (let r = message_zero\<lparr>m_role := ROLE_RESP, m_type := TYPE_STATUS\<rparr>;
          r = (if m_has_dev req then r\<lparr>m_dev := m_dev req, m_has_dev := True\<rparr> else r);
          r = (if m_has_seq req then r\<lparr>m_seq := m_seq req, m_has_seq := True\<rparr> else r);
          r = r\<lparr>m_ok := 1, m_has_ok := True,
                m_state := strncpy_field STATE_CAP (if pc_has_state sim then pc_state sim else ''UNKNOWN''),
                m_has_state := True\<rparr>
      in case aux_note aux of None \<Rightarrow> r | Some t \<Rightarrow> r\<lparr>m_msg := strncpy_field MSG_CAP t, m_has_msg := True\<rparr>)"

definition pmc_io_send_status_cached ::
  "pmc_connection \<Rightarrow> message \<Rightarrow> pmc_connection \<Rightarrow> aux_snapshot \<Rightarrow> port \<Rightarrow> int \<times> port" where
  "pmc_io_send_status_cached eqd req sim aux po = pmc_io_send_message eqd (cached_status req sim aux) po"

section \<open>Routing\<close>

definition pmc_handle_register :: "pmc_connection \<Rightarrow> message \<Rightarrow> int \<times> pmc_connection" where
  "pmc_handle_register c msg =
     (if m_type msg \<noteq> TYPE_REGISTER then (- 1, c)
      else if m_role msg = ROLE_REQ
      then (1, c\<lparr>pc_type := PEER_EQD, pc_registered := True, pc_dev_id := - 1\<rparr>)
      else if m_role msg = ROLE_EVT
      then (if \<not> m_has_dev msg then (- 1, c)
            else (1, c\<lparr>pc_type := PEER_SIM, pc_registered := True, pc_dev_id := m_dev msg\<rparr>))
      else (- 1, c))"

text \<open>An alarm and an error response, the shape of the refusing branches.\<close>

definition refuse_request ::
  "pmc_connection \<Rightarrow> message \<Rightarrow> i32 \<Rightarrow> pmc_alarm_code \<Rightarrow> i32 \<Rightarrow> string \<Rightarrow> pmc \<Rightarrow> port \<Rightarrow> int \<times> pmc \<times> port" where
  "refuse_request from msg dev alarm code text pm po =
     (case pmc_io_send_error from msg code (Some text) po of
        (rc, po1) \<Rightarrow> (rc, pmc_alarm_raise dev alarm (Some text) pm, po1))"

abbreviation AUX_REPLY_CAP :: nat where "AUX_REPLY_CAP \<equiv> 128"

definition route_to_sim :: "pmc_connection \<Rightarrow> pmc_connection \<Rightarrow> message \<Rightarrow> pmc \<Rightarrow> port \<Rightarrow> int \<times> pmc \<times> port" where
  "route_to_sim from target msg pm po =
     (case pmc_io_apply_aux_for_command (m_dev msg) msg AUX_REPLY_CAP (pm_aux pm) po of
        (rc, reply, cfg, po1) \<Rightarrow>
          let pm1 = pm\<lparr>pm_aux := cfg\<rparr> in
          if rc \<noteq> 0
          then refuse_request from msg (m_dev msg) PMC_ALARM_AUX_IO_FAILED 502
                 (if reply \<noteq> [] then reply else ''PICO_IO_FAILED'') pm1 po1
          else (case pmc_io_send_message target msg po1 of
                  (rc2, po2) \<Rightarrow>
                    if rc2 \<noteq> 0
                    then refuse_request from msg (m_dev msg) PMC_ALARM_IO_SEND_FAILED 500 ''SIM_CMD_FAILED'' pm1 po2
                    else (0, pm1, po2)))"

definition route_from_eqd :: "pmc_connection \<Rightarrow> message \<Rightarrow> pmc \<Rightarrow> port \<Rightarrow> int \<times> pmc \<times> port" where
  "route_from_eqd from msg pm po =
     (let target = (if m_has_dev msg then map_option snd (pmc_find_sim (m_dev msg) pm) else None) in
      case (pmc_sequence_decide_eqd_request target msg, target) of
        (PMC_SEQ_ACTION_REJECT_MISSING_DEV, _) \<Rightarrow>
          refuse_request from msg (- 1) PMC_ALARM_MISSING_DEV 400 ''MISSING_DEV'' pm po
      | (PMC_SEQ_ACTION_REJECT_SIM_NOT_FOUND, _) \<Rightarrow>
          refuse_request from msg (if m_has_dev msg then m_dev msg else - 1) PMC_ALARM_SIM_NOT_FOUND 404 ''SIM_NOT_FOUND'' pm po
      | (PMC_SEQ_ACTION_REJECT_INTERLOCK, _) \<Rightarrow>
          refuse_request from msg (m_dev msg) PMC_ALARM_INTERLOCK_BLOCKED 409 ''PMC_INTERLOCK_BLOCKED'' pm po
      | (PMC_SEQ_ACTION_RESPOND_CACHED_STATUS, Some sim) \<Rightarrow>
          (case pmc_io_read_aux_snapshot (pc_dev_id sim) (pm_aux pm) po of
             (_, aux, cfg, po1) \<Rightarrow>
               (case pmc_io_send_status_cached from msg sim aux po1 of (rc, po2) \<Rightarrow> (rc, pm\<lparr>pm_aux := cfg\<rparr>, po2)))
      | (PMC_SEQ_ACTION_ROUTE_TO_SIM, Some sim) \<Rightarrow> route_to_sim from sim msg pm po
      | (_, None) \<Rightarrow> (- 1, pm, po))"

definition route_from_sim :: "pmc_addr \<Rightarrow> pmc_connection \<Rightarrow> message \<Rightarrow> pmc \<Rightarrow> port \<Rightarrow> int \<times> pmc \<times> port" where
  "route_from_sim p from msg pm po =
     (let pm1 = (if m_type msg = TYPE_STATUS \<and> m_has_state msg
                 then write_conn p (from\<lparr>pc_state := strncpy_field STATE_CAP (m_state msg), pc_has_state := True\<rparr>) pm
                 else pm) in
      case pmc_find_eqd pm1 of
        None \<Rightarrow> (- 1, pm1, po)
      | Some (_, eqd) \<Rightarrow> (case pmc_io_send_message eqd msg po of (rc, po1) \<Rightarrow> (rc, pm1, po1)))"

definition pmc_route_message :: "pmc_addr \<Rightarrow> pmc_connection \<Rightarrow> message \<Rightarrow> pmc \<Rightarrow> port \<Rightarrow> int \<times> pmc \<times> port" where
  "pmc_route_message p from msg pm po =
     (if m_type msg = TYPE_REGISTER then (0, pm, po)
      else if \<not> pc_registered from then (- 1, pm, po)
      else case pc_type from of
        PEER_EQD \<Rightarrow> route_from_eqd from msg pm po
      | PEER_SIM \<Rightarrow> route_from_sim p from msg pm po
      | PEER_UNKNOWN \<Rightarrow> (- 1, pm, po))"

section \<open>Requests from the control server\<close>

text \<open>The shape of every message of the controller: no measurements, and it fits its arrays.\<close>

lemma pmc_error_fits [simp]: "message_inv (pmc_error req c t)" "no_measurements (pmc_error req c t)"
proof -
  have "m_state (pmc_error req c t) = []" "no_measurements (pmc_error req c t)"
    by (simp_all add: pmc_error_def message_zero_def no_measurements_def Let_def split: option.split)
  moreover have "m_msg (pmc_error req c t) = (case t of None \<Rightarrow> [] | Some u \<Rightarrow> strncpy_field MSG_CAP u)"
    by (simp add: pmc_error_def message_zero_def Let_def split: option.split)
  ultimately show "message_inv (pmc_error req c t)" "no_measurements (pmc_error req c t)"
    by (auto simp: message_inv_def strncpy_field_less strncpy_field_no_NUL split: option.split)
qed

lemma cached_status_fits [simp]: "message_inv (cached_status req sim aux)" "no_measurements (cached_status req sim aux)"
proof -
  let ?s = "if pc_has_state sim then pc_state sim else ''UNKNOWN''"
  have "m_state (cached_status req sim aux) = strncpy_field STATE_CAP ?s"
    "m_msg (cached_status req sim aux) = (case aux_note aux of None \<Rightarrow> [] | Some u \<Rightarrow> strncpy_field MSG_CAP u)"
    "no_measurements (cached_status req sim aux)"
    by (simp_all add: cached_status_def message_zero_def no_measurements_def Let_def split: option.split)
  then show "message_inv (cached_status req sim aux)" "no_measurements (cached_status req sim aux)"
    by (auto simp: message_inv_def strncpy_field_less strncpy_field_no_NUL split: option.split)
qed

lemma wire_nonempty [simp]: "wire m \<noteq> []"
  by (simp add: wire_def)

text \<open>Sending: one line to the target when the write succeeds, nothing when it fails.\<close>

lemma pmc_send_spec:
  assumes "message_inv m" and "no_measurements m"
  shows "pmc_io_send_message target m po =
     (let (ok, w) = os_write (pc_fd target) (wire m) (po_world po) in (if ok then 0 else - 1, po\<lparr>po_world := w\<rparr>))"
  using line_format_control [OF assms, of PMC_OUT] by (simp add: pmc_io_send_message_def Let_def)

definition delivers :: "port \<Rightarrow> int \<Rightarrow> message \<Rightarrow> port \<Rightarrow> bool" where
  "delivers po fd m po' \<longleftrightarrow> logged (po_world po) [Wrote fd (wire m)] (po_world po')"

lemma pmc_send_ok:
  assumes "message_inv m" and "no_measurements m" and "all_writes_ok (po_world po)"
  shows "\<exists>po'. pmc_io_send_message target m po = (0, po') \<and> delivers po (pc_fd target) m po'"
  using assms(3) by (simp add: pmc_send_spec [OF assms(1,2)] delivers_def logged_def)

lemma pmc_send_fails:
  assumes "message_inv m" and "no_measurements m" and "\<not> w_write_ok (po_world po) (w_writes (po_world po))"
  shows "\<exists>po'. pmc_io_send_message target m po = (- 1, po') \<and> sends po [] po'"
  using assms(3) by (auto simp: pmc_send_spec [OF assms(1,2)] os_write_def Let_def sends_def logged_def
      intro!: exI [of _ "[]"])

text \<open>
  The interface as text, stated over the bytes on the wire and independently of how the router finds
  them: the numbers every answer repeats, the commands a device state admits, and for each
  message of the control server the line that goes out and the descriptor it goes to.
\<close>

definition request_tags :: "message \<Rightarrow> string" where
  "request_tags m =
     (if m_has_dev m then '' dev='' @ show_nat (unat (m_dev m)) else [])
   @ (if m_has_seq m then '' seq='' @ show_nat (unat (m_seq m)) else [])"

definition command_admitted :: "pmc_connection \<Rightarrow> msg_type \<Rightarrow> bool" where
  "command_admitted sim t \<longleftrightarrow> pc_has_state sim
     \<and> (t = TYPE_START \<longrightarrow> pc_state sim = ''IDLE'') \<and> (t = TYPE_STOP \<longrightarrow> pc_state sim = ''PROCESSING'')
     \<and> (t = TYPE_RESET \<longrightarrow> pc_state sim = ''FAULT'')"

definition eqd_line :: "pmc_connection \<Rightarrow> message \<Rightarrow> pmc \<Rightarrow> int \<times> bytes" where
  "eqd_line from msg pm =
     (let refusal = (\<lambda>code text. (pc_fd from,
            ''RESP ERROR'' @ request_tags msg @ '' ok=0 code='' @ code @ '' msg='' @ text @ [LF])) in
      if \<not> m_has_dev msg then refusal ''400'' ''MISSING_DEV''
      else case List.find (\<lambda>(q, c). pc_registered c \<and> pc_type c = PEER_SIM \<and> pc_dev_id c = m_dev msg) (pm_conns pm) of
        None \<Rightarrow> refusal ''404'' ''SIM_NOT_FOUND''
      | Some (q, sim) \<Rightarrow>
          if m_type msg = TYPE_STATUS
          then (pc_fd from, ''RESP STATUS'' @ request_tags msg @ '' ok=1 state=''
                  @ (if pc_has_state sim then strncpy_field STATE_CAP (pc_state sim) else ''UNKNOWN'') @ [LF])
          else if \<not> command_admitted sim (m_type msg) then refusal ''409'' ''PMC_INTERLOCK_BLOCKED''
          else if 510 < length (line_body msg) then refusal ''500'' ''SIM_CMD_FAILED''
          else (pc_fd sim, wire msg))"

lemma first_conn_Some: "first_conn P xs = Some (p, c) \<Longrightarrow> P c \<and> (p, c) \<in> set xs"
  by (induction xs) (auto split: if_splits)

lemma first_conn_find: "first_conn P xs = List.find (\<lambda>(q, c). P c) xs"
  by (induction xs) auto

lemma interlock_admits: "pmc_interlock_check (Some sim) msg = 0 \<longleftrightarrow> command_admitted sim (m_type msg)"
  by (cases "m_type msg") (simp_all add: pmc_interlock_check_def command_admitted_def)

lemma code_text:
  "show_int (sint (400 :: i32)) = ''400''" "show_int (sint (404 :: i32)) = ''404''"
  "show_int (sint (409 :: i32)) = ''409''" "show_int (sint (500 :: i32)) = ''500''"
  "show_int 0 = ''0''" "show_int 1 = ''1''"
  by (code_simp, code_simp, code_simp, code_simp, code_simp, code_simp)

lemma error_wire:
  assumes "length text < MSG_CAP" and "NUL \<notin> set text"
  shows "wire (pmc_error msg code (Some text)) =
     ''RESP ERROR'' @ request_tags msg @ '' ok=0 code='' @ show_int (sint code) @ '' msg='' @ text @ [LF]"
  using strncpy_field_id [OF assms(2,1)]
  by (simp add: wire_def line_body_def kv_tokens_def pmc_error_def message_zero_def request_tags_def Let_def
      code_text)

lemma status_wire:
  "wire (cached_status msg sim snapshot_zero) =
     ''RESP STATUS'' @ request_tags msg @ '' ok=1 state=''
       @ (if pc_has_state sim then strncpy_field STATE_CAP (pc_state sim) else ''UNKNOWN'') @ [LF]"
proof -
  have "strncpy_field STATE_CAP ''UNKNOWN'' = ''UNKNOWN''" by (rule strncpy_field_id) simp_all
  then show ?thesis
    by (simp add: wire_def line_body_def kv_tokens_def cached_status_def aux_note_def snapshot_zero_def message_zero_def
        request_tags_def Let_def code_text)
qed

lemma pmc_send_any:
  assumes "all_writes_ok (po_world po)"
  shows "if 510 < length (line_body msg) then pmc_io_send_message target msg po = (- 1, po)
     else \<exists>po'. pmc_io_send_message target msg po = (0, po') \<and> delivers po (pc_fd target) msg po'"
proof (cases "510 < length (line_body msg)")
  case True
  then show ?thesis by (simp add: pmc_io_send_message_def line_format_eq fits_def)
next
  case False
  then have "line_format msg PMC_OUT = Some (wire msg)" by (simp add: line_format_eq fits_def wire_def)
  with False assms show ?thesis by (simp add: pmc_io_send_message_def delivers_def logged_def)
qed

lemma refuse_ok:
  assumes "all_writes_ok (po_world po)"
  shows "\<exists>po'. refuse_request from msg dev alarm code text pm po = (0, pmc_alarm_raise dev alarm (Some text) pm, po')
     \<and> delivers po (pc_fd from) (pmc_error msg code (Some text)) po'"
  using pmc_send_ok [OF pmc_error_fits assms, of "from" msg code "Some text"]
  by (auto simp: refuse_request_def pmc_io_send_error_def)

lemma alarm_conns [simp]: "pm_conns (pmc_alarm_raise d c t pm) = pm_conns pm" "pm_aux (pmc_alarm_raise d c t pm) = pm_aux pm"
  by (simp_all add: pmc_alarm_raise_def)

lemma refuse_line:
  assumes "all_writes_ok (po_world po)" and "show_int (sint code) = digits"
    and "length text < MSG_CAP" and "NUL \<notin> set text"
  shows "\<exists>pm' po'. refuse_request from msg dev alarm code text pm po = (0, pm', po')
     \<and> logged (po_world po) [Wrote (pc_fd from)
          (''RESP ERROR'' @ request_tags msg @ '' ok=0 code='' @ digits @ '' msg='' @ text @ [LF])] (po_world po')
     \<and> pm_conns pm' = pm_conns pm \<and> pm_aux pm' = pm_aux pm"
  using refuse_ok [OF assms(1), of "from" msg dev alarm code "text" pm] assms(2)
  by (auto simp: delivers_def error_wire [OF assms(3,4)])

lemma status_request_line:
  assumes "pc_type from = PEER_EQD" and "pc_registered from" and "m_type msg = TYPE_STATUS" and "m_has_dev msg"
    and "pmc_find_sim (m_dev msg) pm = Some (q, sim)" and "m_dev msg \<noteq> 1 \<or> \<not> au_enabled (pm_aux pm)"
    and "all_writes_ok (po_world po)"
  shows "\<exists>po'. pmc_route_message p from msg pm po = (0, pm, po')
     \<and> logged (po_world po) [Wrote (pc_fd from) (''RESP STATUS'' @ request_tags msg @ '' ok=1 state=''
          @ (if pc_has_state sim then strncpy_field STATE_CAP (pc_state sim) else ''UNKNOWN'') @ [LF])] (po_world po')"
proof -
  have "pc_dev_id sim = m_dev msg"
    using first_conn_Some [OF assms(5) [unfolded pmc_find_sim_def]] by simp
  with pmc_send_ok [OF cached_status_fits assms(7), of "from" msg sim snapshot_zero] assms(1-6) show ?thesis
    by (auto simp: pmc_route_message_def route_from_eqd_def pmc_sequence_decide_eqd_request_def
        pmc_io_read_aux_snapshot_def pmc_io_send_status_cached_def delivers_def status_wire)
qed

lemma forward_line:
  assumes "all_writes_ok (po_world po)" and "\<not> au_enabled (pm_aux pm)"
  shows "\<exists>pm' po'. route_to_sim from sim msg pm po = (0, pm', po')
     \<and> logged (po_world po) [if 510 < length (line_body msg)
          then Wrote (pc_fd from) (''RESP ERROR'' @ request_tags msg @ '' ok=0 code=500 msg=SIM_CMD_FAILED'' @ [LF])
          else Wrote (pc_fd sim) (wire msg)] (po_world po')
     \<and> pm_conns pm' = pm_conns pm \<and> pm_aux pm' = pm_aux pm"
  using pmc_send_any [OF assms(1), of msg sim] assms(2)
    refuse_line [OF assms(1) code_text(4), of "''SIM_CMD_FAILED''" "from" msg "m_dev msg" PMC_ALARM_IO_SEND_FAILED pm]
  by (auto simp: route_to_sim_def pmc_io_apply_aux_for_command_def delivers_def Let_def split: if_splits)

lemma route_eqd_line:
  assumes "pc_type from = PEER_EQD" and "pc_registered from" and "m_type msg \<noteq> TYPE_REGISTER"
    and "\<not> au_enabled (pm_aux pm)" and "all_writes_ok (po_world po)"
  shows "\<exists>pm' po'. pmc_route_message p from msg pm po = (0, pm', po')
     \<and> logged (po_world po) [Wrote (fst (eqd_line from msg pm)) (snd (eqd_line from msg pm))] (po_world po')
     \<and> pm_conns pm' = pm_conns pm \<and> pm_aux pm' = pm_aux pm"
proof -
  have r: "pmc_route_message p from msg pm po = route_from_eqd from msg pm po"
    using assms(1-3) by (simp add: pmc_route_message_def)
  have fs: "pmc_find_sim (m_dev msg) pm
      = List.find (\<lambda>(q, c). pc_registered c \<and> pc_type c = PEER_SIM \<and> pc_dev_id c = m_dev msg) (pm_conns pm)"
    by (simp add: pmc_find_sim_def first_conn_find)
  note d = r route_from_eqd_def pmc_sequence_decide_eqd_request_def eqd_line_def Let_def
  show ?thesis
  proof (cases "m_has_dev msg")
    case False
    with refuse_line [OF assms(5) code_text(1), of "''MISSING_DEV''" "from" msg "- 1" PMC_ALARM_MISSING_DEV pm]
    show ?thesis by (simp add: d)
  next
    case dev: True
    show ?thesis
    proof (cases "pmc_find_sim (m_dev msg) pm")
      case None
      with dev refuse_line [OF assms(5) code_text(2), of "''SIM_NOT_FOUND''" "from" msg "m_dev msg" PMC_ALARM_SIM_NOT_FOUND pm]
      show ?thesis by (simp add: d fs [symmetric])
    next
      case (Some a)
      obtain q sim where a: "a = (q, sim)" by fastforce
      consider "m_type msg = TYPE_STATUS" | "m_type msg \<noteq> TYPE_STATUS" "\<not> command_admitted sim (m_type msg)"
        | "m_type msg \<noteq> TYPE_STATUS" "command_admitted sim (m_type msg)" by blast
      then show ?thesis
      proof cases
        case 1
        from status_request_line [OF assms(1,2) 1 dev Some [unfolded a] disjI2 [OF assms(4)] assms(5), of p] 1 dev Some a
        show ?thesis by (auto simp: eqd_line_def Let_def fs [symmetric])
      next
        case 2
        with dev Some a interlock_admits [of sim msg] refuse_line [OF assms(5) code_text(3), of "''PMC_INTERLOCK_BLOCKED''"
            "from" msg "m_dev msg" PMC_ALARM_INTERLOCK_BLOCKED pm]
        show ?thesis by (simp add: d fs [symmetric])
      next
        case 3
        with dev Some a interlock_admits [of sim msg] forward_line [OF assms(5,4), of "from" sim msg]
        show ?thesis by (cases "510 < length (line_body msg)") (simp_all add: d fs [symmetric])
      qed
    qed
  qed
qed

text \<open>
  C7: What every message of the control server causes while no heater board is configured and the
  writes succeed: a REGISTER message causes nothing; any other message, whatever its fields, makes
  exactly one line go out.  That line is, byte for byte: to the control server an error with the
  numbers of the message and code 400 when it names no device, 404 when no such device is
  connected, 409 when the device has reported no state or START, STOP or RESET is not for a module
  in IDLE, PROCESSING or FAULT, 500 when it is too long for the output buffer; the reported
  state for a STATUS; and otherwise the message itself, to the device it names.  The connections
  stay as they are.
\<close>

theorem eqd_request_answer:
  assumes "pc_type from = PEER_EQD" and "pc_registered from"
    and "\<not> au_enabled (pm_aux pm)" and "all_writes_ok (po_world po)"
  shows "\<exists>pm' po'. pmc_route_message p from msg pm po = (0, pm', po')
     \<and> logged (po_world po)
         (if m_type msg = TYPE_REGISTER then [] else case eqd_line from msg pm of (fd, line) \<Rightarrow> [Wrote fd line]) (po_world po')
     \<and> pm_conns pm' = pm_conns pm \<and> pm_aux pm' = pm_aux pm"
proof (cases "m_type msg = TYPE_REGISTER")
  case True
  then show ?thesis by (simp add: pmc_route_message_def)
next
  case False
  from route_eqd_line [OF assms(1,2) False assms(3,4)] False show ?thesis by (simp add: case_prod_beta)
qed

section \<open>The heater and the forwarded command\<close>

text \<open>
  C14: The heater is left on: when a START has switched the heater on and the device then does not
  take the command, the controller answers 500 and nothing switches the heater off again.
\<close>

theorem failed_start_leaves_heater_on:
  assumes aux: "pmc_io_apply_aux_for_command (m_dev msg) msg AUX_REPLY_CAP (pm_aux pm) po = (0, reply, cfg, po1)"
    and "m_dev msg = 1" and "m_type msg = TYPE_START" and "au_enabled (pm_aux pm)"
    and "message_inv msg" and "no_measurements msg" and "\<not> w_write_ok (po_world po1) (w_writes (po_world po1))"
    and "route_to_sim from sim msg pm po = (rc, pm', po')"
  shows "\<exists>ps. sends po ps po' \<and> HEATER_LINE True \<in> set ps \<and> HEATER_LINE False \<notin> set ps
     \<and> al_code (pm_alarm pm') = PMC_ALARM_IO_SEND_FAILED"
proof -
  obtain rc1 c1 q1 where s: "(if \<not> au_ready (pm_aux pm) then pmc_aux_reconnect (pm_aux pm) po else (0, pm_aux pm, po)) = (rc1, c1, q1)"
    by (metis prod_cases3)
  obtain rc2 r2 c2 q2 where p: "pmc_aux_ping_with_retry c1 [] AUX_REPLY_CAP q1 = (rc2, r2, c2, q2)" by (metis prod_cases4)
  obtain a b where ab: "sends po (replicate a PING_LINE @ replicate b (HEATER_LINE True)) po1" "0 < b"
    using start_heater_spec [OF aux [unfolded assms(2)] assms(4,3) s p] by auto
  from pmc_send_fails [OF assms(5-7), of sim] obtain po2 where
    f: "pmc_io_send_message sim msg po1 = (- 1, po2)" "sends po1 [] po2" by blast
  let ?e = "pmc_error msg 500 (Some ''SIM_CMD_FAILED'')"
  obtain rc3 po3 where e: "pmc_io_send_message from ?e po2 = (rc3, po3)" by fastforce
  have s3: "sends po2 [] po3 \<or> sends po2 [wire ?e] po3"
  proof (cases "fst (os_write (pc_fd from) (wire ?e) (po_world po2))")
    case True
    have "logged (po_world po2) [Wrote (pc_fd from) (wire ?e)] (po_world po3)"
      using e True by (auto simp: pmc_send_spec os_write_def logged_def Let_def split: if_splits)
    then show ?thesis using sends_logged by blast
  next
    case False
    then show ?thesis using e
      by (auto simp: pmc_send_spec os_write_def logged_def Let_def sends_def split: if_splits intro!: exI [of _ "[]"])
  qed
  have r: "pm' = pmc_alarm_raise (m_dev msg) PMC_ALARM_IO_SEND_FAILED (Some ''SIM_CMD_FAILED'') (pm\<lparr>pm_aux := cfg\<rparr>)"
    "po' = po3"
    using assms(8) aux f e by (simp_all add: route_to_sim_def refuse_request_def pmc_io_send_error_def)
  have nw: "wire ?e \<noteq> HEATER_LINE False"
    by (simp add: wire_def line_body_def pmc_error_def message_zero_def heater_command_def Let_def)
  have "sends po (replicate a PING_LINE @ replicate b (HEATER_LINE True) @ ps) po3" if "sends po2 ps po3" for ps
    using sends_trans [OF sends_trans [OF ab(1) f(2)] that] by simp
  with s3 obtain ps where ps: "sends po (replicate a PING_LINE @ replicate b (HEATER_LINE True) @ ps) po3" "set ps \<subseteq> {wire ?e}"
    by (metis empty_subsetI list.set(1) list.simps(15) order_refl)
  have "HEATER_LINE False \<noteq> HEATER_LINE True" "HEATER_LINE False \<noteq> PING_LINE" by (simp_all add: heater_command_def)
  then have "HEATER_LINE True \<in> set (replicate a PING_LINE @ replicate b (HEATER_LINE True) @ ps)"
    "HEATER_LINE False \<notin> set (replicate a PING_LINE @ replicate b (HEATER_LINE True) @ ps)"
    using ab(2) ps(2) nw by (auto simp: set_replicate_conv_if)
  with ps(1) r show ?thesis by (auto simp: pmc_alarm_raise_def)
qed

text \<open>
  C24: A missing board blocks every module: when a configured board cannot be reopened, a command for
  any device, not only the one with the heater, is refused with 502 and not forwarded.
\<close>

theorem missing_board_blocks_every_device:
  assumes "au_enabled (pm_aux pm)" and "\<not> au_ready (pm_aux pm)"
    and "fst (pmc_aux_reconnect (pm_aux pm) po) \<noteq> 0" and "all_writes_ok (po_world po)"
  shows "\<exists>pm' po'. route_to_sim from sim msg pm po = (0, pm', po')
     \<and> sends po [wire (pmc_error msg 502 (Some ''AUX_SESSION_NOT_READY''))] po'
     \<and> al_code (pm_alarm pm') = PMC_ALARM_AUX_IO_FAILED"
proof -
  obtain rc cfg po1 where r: "pmc_aux_reconnect (pm_aux pm) po = (rc, cfg, po1)" by (metis prod_cases3)
  have rc: "rc \<noteq> 0" using assms(3) r by simp
  have s1: "sends po [] po1" using reconnect_spec [OF r] by blast
  then have w: "all_writes_ok (po_world po1)" using assms(4) logged_writes_ok by (auto simp: sends_def)
  have t: "strncpy_field AUX_REPLY_CAP ''AUX_SESSION_NOT_READY'' = ''AUX_SESSION_NOT_READY''"
    by (rule strncpy_field_id) simp_all
  have a: "pmc_io_apply_aux_for_command (m_dev msg) msg AUX_REPLY_CAP (pm_aux pm) po = (- 1, ''AUX_SESSION_NOT_READY'', cfg, po1)"
    using assms(1,2) r rc by (simp add: pmc_io_apply_aux_for_command_def t)
  from refuse_ok [OF w, of "from" msg "m_dev msg" PMC_ALARM_AUX_IO_FAILED 502 "''AUX_SESSION_NOT_READY''" "pm\<lparr>pm_aux := cfg\<rparr>"]
  obtain po' where "refuse_request from msg (m_dev msg) PMC_ALARM_AUX_IO_FAILED 502 ''AUX_SESSION_NOT_READY''
        (pm\<lparr>pm_aux := cfg\<rparr>) po1
      = (0, pmc_alarm_raise (m_dev msg) PMC_ALARM_AUX_IO_FAILED (Some ''AUX_SESSION_NOT_READY'') (pm\<lparr>pm_aux := cfg\<rparr>), po')"
    and d: "delivers po1 (pc_fd from) (pmc_error msg 502 (Some ''AUX_SESSION_NOT_READY'')) po'" by blast
  moreover have "sends po [wire (pmc_error msg 502 (Some ''AUX_SESSION_NOT_READY''))] po'"
    using sends_trans [OF s1 sends_logged [OF d [unfolded delivers_def]]] by simp
  ultimately show ?thesis using a by (simp add: route_to_sim_def pmc_alarm_raise_def)
qed

text \<open>
  C23: A finished module can only be stopped by a FAULT: once a device has reported DONE, a START, STOP
  or RESET for it is answered with 409, the heater is not touched and the device is told nothing.
\<close>

theorem finished_module_refuses:
  assumes "pc_type from = PEER_EQD" and "pc_registered from" and "m_has_dev msg"
    and "pmc_find_sim (m_dev msg) pm = Some (q, sim)" and "pc_has_state sim" and "pc_state sim = ''DONE''"
    and "m_type msg \<in> {TYPE_START, TYPE_STOP, TYPE_RESET}" and "all_writes_ok (po_world po)"
  shows "\<exists>pm' po'. pmc_route_message p from msg pm po = (0, pm', po')
     \<and> delivers po (pc_fd from) (pmc_error msg 409 (Some ''PMC_INTERLOCK_BLOCKED'')) po' \<and> pm_aux pm' = pm_aux pm"
proof -
  have t: "m_type msg \<noteq> TYPE_REGISTER" "m_type msg \<noteq> TYPE_STATUS" "pmc_interlock_check (Some sim) msg \<noteq> 0"
    using assms(5-7) by (auto simp: pmc_interlock_check_def)
  from refuse_ok [OF assms(8), of "from" msg "m_dev msg" PMC_ALARM_INTERLOCK_BLOCKED 409 "''PMC_INTERLOCK_BLOCKED''" pm]
    t assms(1-4) show ?thesis
    by (auto simp: pmc_route_message_def route_from_eqd_def pmc_sequence_decide_eqd_request_def)
qed

section \<open>Messages from a device\<close>

lemma first_conn_update:
  "first_conn P xs = Some (p, c) \<Longrightarrow> distinct (map fst xs) \<Longrightarrow> P c' \<Longrightarrow> first_conn P (AList.update p c' xs) = Some (p, c')"
  by (induction xs) (auto split: if_splits dest: first_conn_Some simp: rev_image_eqI)

lemma first_conn_update_other:
  "map_of xs p = Some c \<Longrightarrow> \<not> P c \<Longrightarrow> \<not> P c' \<Longrightarrow> first_conn P (AList.update p c' xs) = first_conn P xs"
  by (induction xs) (auto split: if_splits)

lemma find_sim_fields:
  assumes "pmc_find_sim d pm = Some (p, c)" and "distinct (map fst (pm_conns pm))"
  shows "conn_at p pm = Some c" and "pc_registered c" and "pc_type c = PEER_SIM" and "pc_dev_id c = d"
  using first_conn_Some [OF assms(1) [unfolded pmc_find_sim_def]] assms(2)
  by (auto simp: conn_at_def)

text \<open>
  C19: What a device reports is what the control server is told: a STATUS event with a state is passed
  on, unchanged, and the status request that the control server then makes for that device is
  answered, by the router and in one line, with that state and the numbers of the request.  For
  device 1 no heater board is configured; with one the line also carries a note on the heater.
\<close>

theorem reported_state_is_answered:
  assumes "distinct (map fst (pm_conns pm))" and "pmc_find_sim d pm = Some (p, c)" and "pmc_find_eqd pm = Some (q, eqd)"
    and "m_type evt = TYPE_STATUS" and "m_has_state evt" and "message_inv evt" and "no_measurements evt"
    and "all_writes_ok (po_world po)"
    and "m_type req = TYPE_STATUS" and "m_has_dev req" and "m_dev req = d" and "d \<noteq> 1 \<or> \<not> au_enabled (pm_aux pm)"
  shows "\<exists>pm' po' po''. pmc_route_message p c evt pm po = (0, pm', po') \<and> delivers po (pc_fd eqd) evt po'
     \<and> pmc_route_message q eqd req pm' po' = (0, pm', po'')
     \<and> logged (po_world po') [Wrote (pc_fd eqd)
         (''RESP STATUS'' @ request_tags req @ '' ok=1 state='' @ m_state evt @ [LF])] (po_world po'')"
proof -
  note c = find_sim_fields [OF assms(2,1)]
  have st: "strncpy_field STATE_CAP (m_state evt) = m_state evt"
    using assms(6) by (simp add: message_inv_def strncpy_field_id)
  let ?c = "c\<lparr>pc_state := m_state evt, pc_has_state := True\<rparr>"
  let ?pm = "write_conn p ?c pm"
  have fe: "pmc_find_eqd ?pm = Some (q, eqd)"
    using first_conn_update_other [of "pm_conns pm" p c "\<lambda>c. pc_registered c \<and> pc_type c = PEER_EQD" ?c] c assms(3)
    by (simp add: pmc_find_eqd_def write_conn_def conn_at_def)
  have fs: "pmc_find_sim (m_dev req) ?pm = Some (p, ?c)"
    using first_conn_update [OF assms(2) [unfolded pmc_find_sim_def] assms(1), of ?c] c assms(11)
    by (simp add: pmc_find_sim_def write_conn_def)
  have e: "pc_type eqd = PEER_EQD" "pc_registered eqd"
    using first_conn_Some [OF assms(3) [unfolded pmc_find_eqd_def]] by simp_all
  from pmc_send_ok [OF assms(6-8), of eqd] obtain po' where
    s: "pmc_io_send_message eqd evt po = (0, po')" "delivers po (pc_fd eqd) evt po'" by blast
  have w: "all_writes_ok (po_world po')" using s(2) assms(8) logged_writes_ok by (auto simp: delivers_def)
  have "pmc_route_message p c evt pm po = (0, ?pm, po')"
    using c assms(4,5) fe s(1) by (simp add: pmc_route_message_def route_from_sim_def st Let_def)
  moreover have "m_dev req \<noteq> 1 \<or> \<not> au_enabled (pm_aux ?pm)" using assms(11,12) by (auto simp: write_conn_def)
  from status_request_line [OF e assms(9,10) fs this w, of q]
  have "\<exists>po''. pmc_route_message q eqd req ?pm po' = (0, ?pm, po'')
     \<and> logged (po_world po') [Wrote (pc_fd eqd)
         (''RESP STATUS'' @ request_tags req @ '' ok=1 state='' @ m_state evt @ [LF])] (po_world po'')" by (simp add: st)
  ultimately show ?thesis using s(2) by blast
qed

section \<open>Examples\<close>

definition peer :: "peer_type \<Rightarrow> int \<Rightarrow> i32 \<Rightarrow> string \<Rightarrow> pmc_connection" where
  "peer t fd d st = \<lparr>pc_fd = fd, pc_type = t, pc_registered = True, pc_dev_id = d, pc_state = st, pc_has_state = True,
     pc_session = session_zero\<rparr>"

lemma peer_fields [simp]:
  "pc_fd (peer t fd d st) = fd" "pc_type (peer t fd d st) = t" "pc_registered (peer t fd d st)"
  "pc_dev_id (peer t fd d st) = d" "pc_state (peer t fd d st) = st" "pc_has_state (peer t fd d st)"
  by (simp_all add: peer_def)

definition sample_pmc :: "string \<Rightarrow> aux_cfg \<Rightarrow> pmc" where
  "sample_pmc st cfg = \<lparr>pm_conns = [(2, peer PEER_SIM 6 1 st), (1, peer PEER_EQD 5 (- 1) [])],
     pm_alarm = \<lparr>al_code = PMC_ALARM_NONE, al_dev_id = - 1, al_detail = []\<rparr>, pm_aux = cfg\<rparr>"

lemma sample_pmc_finds [simp]:
  "pmc_find_sim 1 (sample_pmc st cfg) = Some (2, peer PEER_SIM 6 1 st)"
  "pmc_find_eqd (sample_pmc st cfg) = Some (1, peer PEER_EQD 5 (- 1) [])"
  "pm_aux (sample_pmc st cfg) = cfg" "map fst (pm_conns (sample_pmc st cfg)) = [2, 1]"
  by (simp_all add: sample_pmc_def pmc_find_sim_def pmc_find_eqd_def)

lemma command_fits [simp]: "message_inv (command t)" "no_measurements (command t)"
  by (simp_all add: command_def message_inv_def no_measurements_def message_zero_def)

definition quiet_port :: port where
  "quiet_port = \<lparr>po_opens = [], po_input = [], po_world = quiet_world 1\<rparr>"

lemma quiet_port_ok [simp]: "all_writes_ok (po_world quiet_port)"
  by (simp add: quiet_port_def)

theorem eqd_request_answer_witness:
  "\<exists>pm' po'. pmc_route_message 1 (peer PEER_EQD 5 (- 1) []) (command TYPE_START) (sample_pmc ''IDLE'' aux_zero) quiet_port
      = (0, pm', po') \<and> logged (po_world quiet_port) [Wrote 6 (wire (command TYPE_START))] (po_world po')"
proof -
  have "length (line_body (command TYPE_START)) \<le> 246" by (rule length_line_body) simp_all
  then have "eqd_line (peer PEER_EQD 5 (- 1) []) (command TYPE_START) (sample_pmc ''IDLE'' aux_zero) = (6, wire (command TYPE_START))"
    by (simp add: eqd_line_def command_admitted_def sample_pmc_def)
  with eqd_request_answer [of "peer PEER_EQD 5 (- 1) []" "sample_pmc ''IDLE'' aux_zero" quiet_port 1 "command TYPE_START"]
  show ?thesis by (auto simp: aux_zero_def)
qed

theorem failed_start_leaves_heater_on_witness:
  "\<exists>ps po'. sends ((board_says [''OK PONG'', ''OK HEATER ON''])\<lparr>po_world := (quiet_world 1)\<lparr>w_write_ok := \<lambda>n. n < 2\<rparr>\<rparr>) ps po'
     \<and> HEATER_LINE True \<in> set ps \<and> HEATER_LINE False \<notin> set ps"
proof -
  let ?po = "(board_says [''OK PONG'', ''OK HEATER ON''])\<lparr>po_world := (quiet_world 1)\<lparr>w_write_ok := \<lambda>n. n < 2\<rparr>\<rparr>"
  let ?r = "pmc_io_apply_aux_for_command 1 (command TYPE_START) AUX_REPLY_CAP ready_aux ?po"
  obtain rc reply cfg po1 where h: "?r = (rc, reply, cfg, po1)" by (metis prod_cases4)
  have "fst ?r = 0" "\<not> w_write_ok (po_world (snd (snd (snd ?r)))) (w_writes (po_world (snd (snd (snd ?r)))))"
    by (code_simp, code_simp)
  with h have a: "pmc_io_apply_aux_for_command (m_dev (command TYPE_START)) (command TYPE_START) AUX_REPLY_CAP
      (pm_aux (sample_pmc ''IDLE'' ready_aux)) ?po = (0, reply, cfg, po1)"
    and w: "\<not> w_write_ok (po_world po1) (w_writes (po_world po1))" by simp_all
  obtain rc2 pm' po' where r: "route_to_sim (peer PEER_EQD 5 (- 1) []) (peer PEER_SIM 6 1 ''IDLE'') (command TYPE_START)
      (sample_pmc ''IDLE'' ready_aux) ?po = (rc2, pm', po')" by (metis prod_cases3)
  from failed_start_leaves_heater_on [OF a _ _ _ _ _ w r] show ?thesis by auto
qed

theorem missing_board_blocks_every_device_witness:
  "\<exists>pm' po'. route_to_sim (peer PEER_EQD 5 (- 1) []) (peer PEER_SIM 7 2 ''IDLE'') ((command TYPE_START)\<lparr>m_dev := 2\<rparr>)
      (sample_pmc ''IDLE'' (ready_aux\<lparr>au_ready := False\<rparr>)) quiet_port = (0, pm', po')
    \<and> al_code (pm_alarm pm') = PMC_ALARM_AUX_IO_FAILED"
proof -
  let ?pm = "sample_pmc ''IDLE'' (ready_aux\<lparr>au_ready := False\<rparr>)"
  have "fst (pmc_aux_reconnect (pm_aux ?pm) quiet_port) \<noteq> 0" by code_simp
  moreover have "au_enabled (pm_aux ?pm)" "\<not> au_ready (pm_aux ?pm)" by (simp_all add: ready_aux_def)
  ultimately show ?thesis using missing_board_blocks_every_device [of ?pm quiet_port] quiet_port_ok by blast
qed

theorem finished_module_refuses_witness:
  "\<exists>pm' po'. pmc_route_message 1 (peer PEER_EQD 5 (- 1) []) (command TYPE_STOP) (sample_pmc ''DONE'' ready_aux) quiet_port
      = (0, pm', po') \<and> pm_aux pm' = ready_aux"
  using finished_module_refuses [of "peer PEER_EQD 5 (- 1) []" "command TYPE_STOP" "sample_pmc ''DONE'' ready_aux" 2
      "peer PEER_SIM 6 1 ''DONE''" quiet_port 1] by auto

theorem reported_state_is_answered_witness:
  "\<exists>pm' po' po''. pmc_route_message 2 (peer PEER_SIM 6 1 ''IDLE'')
      ((command TYPE_STATUS)\<lparr>m_role := ROLE_EVT, m_state := ''READY'', m_has_state := True\<rparr>) (sample_pmc ''IDLE'' aux_zero) quiet_port
      = (0, pm', po')
    \<and> pmc_route_message 1 (peer PEER_EQD 5 (- 1) []) (command TYPE_STATUS) pm' po' = (0, pm', po'')
    \<and> logged (po_world po') [Wrote 5 (''RESP STATUS dev=1 seq=3 ok=1 state=READY'' @ [LF])] (po_world po'')"
proof -
  let ?e = "(command TYPE_STATUS)\<lparr>m_role := ROLE_EVT, m_state := ''READY'', m_has_state := True\<rparr>"
  have f: "message_inv ?e" "no_measurements ?e" "m_type ?e = TYPE_STATUS" "m_has_state ?e" "m_state ?e = ''READY''"
    by (simp_all add: command_def message_inv_def no_measurements_def message_zero_def)
  have d: "distinct (map fst (pm_conns (sample_pmc ''IDLE'' aux_zero)))" by simp
  have n: "1 \<noteq> (1 :: i32) \<or> \<not> au_enabled (pm_aux (sample_pmc ''IDLE'' aux_zero))" by (simp add: aux_zero_def)
  have t: "''RESP STATUS'' @ request_tags (command TYPE_STATUS) @ '' ok=1 state='' @ m_state ?e @ [LF]
      = ''RESP STATUS dev=1 seq=3 ok=1 state=READY'' @ [LF]" by code_simp
  from reported_state_is_answered [OF d sample_pmc_finds(1,2) f(3,4,1,2) quiet_port_ok command_fields(2,4,3) n]
  show ?thesis unfolding t peer_fields command_fields by blast
qed

end
