(* ===== verification/Pmc_Main.thy ===== *)
theory Pmc_Main
  imports Pmc_Core
begin

text \<open>
  \<^verbatim>\<open>nodes/pmc/src/main.c\<close>: connecting to the control server, accepting devices, reading from a peer,
  and the poll loop.  What the kernel, the allocator and the environment variables answer is
  input, as in the control server's model; a pointer to a released connection is the error
  \<open>PmcUseAfterFree\<close>.
\<close>

datatype pmc_fault = PmcUseAfterFree

abbreviation PMC_BUF :: nat where "PMC_BUF \<equiv> 1024"

definition pmc_close_connection :: "pmc_addr \<Rightarrow> pmc_connection \<Rightarrow> pmc \<Rightarrow> port \<Rightarrow> pmc \<times> port" where
  "pmc_close_connection p c pm po =
     (pmc_conn_remove p pm, po\<lparr>po_world := os_log (Closed (pc_fd c)) (os_log (EpollDel (pc_fd c)) (po_world po))\<rparr>)"

definition new_connection :: "int \<Rightarrow> pmc_connection" where
  "new_connection fd = \<lparr>pc_fd = fd, pc_type = PEER_UNKNOWN, pc_registered = False, pc_dev_id = - 1,
     pc_state = [], pc_has_state = False, pc_session = session_init session_zero\<rparr>"

definition eqd_register_req :: message where
  "eqd_register_req = message_zero\<lparr>m_role := ROLE_REQ, m_type := TYPE_REGISTER, m_seq := 1, m_has_seq := True\<rparr>"

text \<open>
  \<^verbatim>\<open>connect_to_eqd\<close>: the descriptor of the connected socket or \<open>None\<close>, the results of making it
  non-blocking, of \<^verbatim>\<open>malloc\<close> and of adding it to the poll set.  The result of the final write is
  ignored.
\<close>

definition connect_to_eqd :: "int option \<Rightarrow> bool \<Rightarrow> pmc_addr option \<Rightarrow> bool \<Rightarrow> pmc \<Rightarrow> port \<Rightarrow> int \<times> pmc \<times> port" where
  "connect_to_eqd sock nonblock mem added pm po =
     (case sock of
        None \<Rightarrow> (- 1, pm, po)
      | Some fd \<Rightarrow>
          (let closed = po\<lparr>po_world := os_log (Closed fd) (po_world po)\<rparr> in
           if \<not> nonblock then (- 1, pm, closed)
           else case mem of
             None \<Rightarrow> (- 1, pm, closed)
           | Some p \<Rightarrow>
               let c = new_connection fd; pm1 = pmc_conn_add p c pm in
               if \<not> added then (- 1, pmc_conn_remove p pm1, closed)
               else let pm2 = write_conn p (c\<lparr>pc_type := PEER_EQD, pc_registered := True, pc_dev_id := - 1\<rparr>) pm1;
                        w = os_log (EpollAdd fd) (po_world po) in
                    case line_format eqd_register_req 256 of
                      None \<Rightarrow> (0, pm2, po\<lparr>po_world := w\<rparr>)
                    | Some bs \<Rightarrow> (0, pm2, po\<lparr>po_world := snd (os_write fd bs w)\<rparr>)))"

section \<open>A readable peer\<close>

text \<open>What one parsed message does.\<close>

definition peer_message :: "pmc_addr \<Rightarrow> message \<Rightarrow> pmc \<Rightarrow> port \<Rightarrow> pmc_fault + (pmc \<times> port)" where
  "peer_message p msg pm po =
     (case conn_at p pm of
        None \<Rightarrow> Inl PmcUseAfterFree
      | Some c \<Rightarrow>
          if \<not> pc_registered c then Inr (write_conn p (snd (pmc_handle_register c msg)) pm, po)
          else if m_type msg = TYPE_REGISTER then Inr (pm, po)
          else (case pmc_route_message p c msg pm po of (rc, pm1, po1) \<Rightarrow> Inr (pm1, po1)))"

text \<open>The loop over the complete lines; the session is written back to the object afterwards.\<close>

function peer_lines :: "pmc_addr \<Rightarrow> session_t \<Rightarrow> pmc \<Rightarrow> port \<Rightarrow> pmc_fault + (session_t \<times> pmc \<times> port)" where
  "peer_lines p s pm po =
     (case session_pop_line s PMC_BUF of
        PopLine line s1 \<Rightarrow>
          (case line_parse line of
             None \<Rightarrow> peer_lines p s1 pm po
           | Some msg \<Rightarrow>
               (case peer_message p msg pm po of
                  Inl e \<Rightarrow> Inl e
                | Inr (pm1, po1) \<Rightarrow> peer_lines p s1 pm1 po1))
      | _ \<Rightarrow> Inr (s, pm, po))"
  by pat_completeness auto
termination
  by (relation "measure (\<lambda>(p, s, pm, po). s_len s)") (auto dest: session_pop_line_shorter)

declare peer_lines.simps [simp del]

definition store_session :: "pmc_addr \<Rightarrow> session_t \<Rightarrow> pmc \<Rightarrow> pmc" where
  "store_session p s pm =
     (case conn_at p pm of None \<Rightarrow> pm | Some c \<Rightarrow> write_conn p (c\<lparr>pc_session := s\<rparr>) pm)"

fun handle_connected_peer :: "pmc_addr \<Rightarrow> recv_result list \<Rightarrow> pmc \<Rightarrow> port \<Rightarrow> pmc_fault + (pmc \<times> port)" where
  "handle_connected_peer p [] pm po = Inr (pm, po)"
| "handle_connected_peer p (r # rs) pm po =
     (case conn_at p pm of
        None \<Rightarrow> Inl PmcUseAfterFree
      | Some c \<Rightarrow>
          (case r of
             RecvAgain \<Rightarrow> Inr (pm, po)
           | RecvClosed \<Rightarrow> Inr (pmc_close_connection p c pm po)
           | RecvError \<Rightarrow> Inr (pmc_close_connection p c pm po)
           | RecvData bs \<Rightarrow>
               (case session_feed (pc_session c) bs of
                  None \<Rightarrow> Inr (pmc_close_connection p c pm po)
                | Some s \<Rightarrow>
                    (case peer_lines p s pm po of
                       Inl e \<Rightarrow> Inl e
                     | Inr (s1, pm1, po1) \<Rightarrow> handle_connected_peer p rs (store_session p s1 pm1) po1))))"

section \<open>The poll loop\<close>

datatype pmc_accept = PmcAcceptAgain | PmcAcceptError | PmcAccepted int bool "pmc_addr option" bool

fun pmc_accept_loop :: "pmc_accept list \<Rightarrow> pmc \<Rightarrow> port \<Rightarrow> pmc \<times> port" where
  "pmc_accept_loop [] pm po = (pm, po)"
| "pmc_accept_loop (PmcAcceptAgain # rs) pm po = (pm, po)"
| "pmc_accept_loop (PmcAcceptError # rs) pm po = (pm, po)"
| "pmc_accept_loop (PmcAccepted fd nonblock mem added # rs) pm po =
     (let closed = po\<lparr>po_world := os_log (Closed fd) (po_world po)\<rparr> in
      if \<not> nonblock then pmc_accept_loop rs pm closed
      else case mem of
             None \<Rightarrow> pmc_accept_loop rs pm closed
           | Some p \<Rightarrow>
               let pm1 = pmc_conn_add p (new_connection fd) pm in
               if \<not> added then pmc_accept_loop rs (pmc_conn_remove p pm1) closed
               else pmc_accept_loop rs pm1 (po\<lparr>po_world := os_log (EpollAdd fd) (po_world po)\<rparr>))"

datatype pmc_event = PmcAcceptEvent "pmc_accept list" | PmcPeerEvent pmc_addr "recv_result list"

fun pmc_dispatch :: "pmc_event list \<Rightarrow> pmc \<Rightarrow> port \<Rightarrow> pmc_fault + (pmc \<times> port)" where
  "pmc_dispatch [] pm po = Inr (pm, po)"
| "pmc_dispatch (PmcAcceptEvent rs # es) pm po = (case pmc_accept_loop rs pm po of (pm1, po1) \<Rightarrow> pmc_dispatch es pm1 po1)"
| "pmc_dispatch (PmcPeerEvent p rs # es) pm po =
     (case handle_connected_peer p rs pm po of Inl e \<Rightarrow> Inl e | Inr (pm1, po1) \<Rightarrow> pmc_dispatch es pm1 po1)"

text \<open>
  One turn of the endless loop: an interrupted wait is repeated, a failed one ends the process, which
  shuts the board down.
\<close>

datatype pmc_poll = PmcReady "pmc_event list" | PmcEintr | PmcPollError

definition pmc_iteration :: "pmc_poll \<Rightarrow> pmc \<Rightarrow> port \<Rightarrow> pmc_fault + (bool \<times> pmc \<times> port)" where
  "pmc_iteration r pm po =
     (case r of
        PmcEintr \<Rightarrow> Inr (True, pm, po)
      | PmcPollError \<Rightarrow> (case pmc_io_uart_aux_shutdown (pm_aux pm) po of (cfg, po1) \<Rightarrow> Inr (False, pm\<lparr>pm_aux := cfg\<rparr>, po1))
      | PmcReady evs \<Rightarrow> (case pmc_dispatch evs pm po of Inl e \<Rightarrow> Inl e | Inr (pm1, po1) \<Rightarrow> Inr (True, pm1, po1)))"

text \<open>\<^verbatim>\<open>atoi\<close>, which glibc defines as \<^verbatim>\<open>strtol\<close> cut to an \<^verbatim>\<open>int\<close>.\<close>

definition atoi :: "string \<Rightarrow> int" where
  "atoi s = sint (of_int (strtol s) :: i32)"

text \<open>
  The board named by the environment: each of the two variables has an older name that is used when
  the newer one is unset or empty; without a path there is no board, without a speed 115200.
\<close>

definition env_var :: "(string \<Rightarrow> string option) \<Rightarrow> string \<Rightarrow> string \<Rightarrow> string option" where
  "env_var getenv name old = (if getenv name = None \<or> getenv name = Some [] then getenv old else getenv name)"

definition aux_from_env :: "(string \<Rightarrow> string option) \<Rightarrow> (string \<times> int) option" where
  "aux_from_env getenv =
     (let port = env_var getenv ''PMC_AUX_PORT'' ''PMC_PICO_PORT'';
          baud = env_var getenv ''PMC_AUX_BAUD'' ''PMC_PICO_BAUD'' in
      case port of
        None \<Rightarrow> None
      | Some path \<Rightarrow>
          if path = [] then None
          else Some (path, case baud of None \<Rightarrow> 115200 | Some s \<Rightarrow> if s = [] then 115200 else atoi s))"

text \<open>The start of \<^verbatim>\<open>main\<close>: alarms, the board when the environment names one, the control server.\<close>

definition pmc_zero :: pmc where
  "pmc_zero = \<lparr>pm_conns = [], pm_alarm = \<lparr>al_code = PMC_ALARM_NONE, al_dev_id = 0, al_detail = []\<rparr>, pm_aux = aux_zero\<rparr>"

definition pmc_boot ::
  "(string \<Rightarrow> string option) \<Rightarrow> int option \<Rightarrow> bool \<Rightarrow> pmc_addr option \<Rightarrow> bool \<Rightarrow> port \<Rightarrow> int \<times> pmc \<times> port" where
  "pmc_boot getenv sock nonblock mem added po =
     (let pm = pmc_alarm_init pmc_zero in
      case pmc_io_uart_aux_clear (pm_aux pm) po of
        (cfg, po1) \<Rightarrow>
          case (case aux_from_env getenv of
                  None \<Rightarrow> (cfg, po1)
                | Some (path, baud) \<Rightarrow> snd (pmc_io_uart_aux_configure path baud cfg po1)) of
            (cfg2, po2) \<Rightarrow> connect_to_eqd sock nonblock mem added (pm\<lparr>pm_aux := cfg2\<rparr>) po2)"

section \<open>Memory safety\<close>

text \<open>
  The invariant of the connection list: every object is in it once, with a sound session.  \<open>keeps\<close>
  adds that no object but those of \<open>gone\<close> has been released.
\<close>

definition pmc_inv :: "pmc \<Rightarrow> bool" where
  "pmc_inv pm \<longleftrightarrow> distinct (map fst (pm_conns pm)) \<and> (\<forall>p c. conn_at p pm = Some c \<longrightarrow> session_inv (pc_session c))"

definition keeps :: "pmc_addr set \<Rightarrow> pmc \<Rightarrow> pmc \<Rightarrow> bool" where
  "keeps gone pm pm' \<longleftrightarrow> pmc_inv pm' \<and> (\<forall>q. q \<notin> gone \<longrightarrow> conn_at q pm \<noteq> None \<longrightarrow> conn_at q pm' \<noteq> None)"

lemma keeps_refl [simp]: "keeps X pm pm \<longleftrightarrow> pmc_inv pm"
  by (simp add: keeps_def)

lemma keeps_trans: "keeps X a b \<Longrightarrow> keeps X b c \<Longrightarrow> keeps X a c"
  by (auto simp: keeps_def)

lemma keeps_mono: "keeps X a b \<Longrightarrow> X \<subseteq> Y \<Longrightarrow> keeps Y a b"
  by (auto simp: keeps_def)

lemma conn_at_write [simp]: "conn_at q (write_conn p c pm) = (if q = p then Some c else conn_at q pm)"
  by (simp add: conn_at_def write_conn_def update_conv')

lemma inv_same_conns: "pm_conns pm' = pm_conns pm \<Longrightarrow> pmc_inv pm \<Longrightarrow> keeps X pm pm'"
  by (simp add: keeps_def pmc_inv_def conn_at_def)

lemma keeps_write: "pmc_inv pm \<Longrightarrow> session_inv (pc_session c) \<Longrightarrow> keeps X pm (write_conn p c pm)"
  by (auto simp: keeps_def pmc_inv_def) (simp add: write_conn_def distinct_update)

lemma inv_session: "pmc_inv pm \<Longrightarrow> conn_at p pm = Some c \<Longrightarrow> session_inv (pc_session c)"
  by (simp add: pmc_inv_def)

lemma unlink_map_of: "distinct (map fst xs) \<Longrightarrow> map_of (unlink_conn p xs) q = (if q = p then None else map_of xs q)"
  by (induction xs) (auto simp: map_of_eq_None_iff, force)

lemma unlink_distinct: "set (unlink_conn p xs) \<subseteq> set xs \<and> (distinct (map fst xs) \<longrightarrow> distinct (map fst (unlink_conn p xs)))"
  by (induction xs) auto

lemma keeps_remove: "pmc_inv pm \<Longrightarrow> keeps {p} pm (pmc_conn_remove p pm)"
  using unlink_distinct [of p "pm_conns pm"]
  by (auto simp: keeps_def pmc_inv_def conn_at_def pmc_conn_remove_def unlink_map_of split: if_splits)

lemma keeps_add:
  "pmc_inv pm \<Longrightarrow> conn_at p pm = None \<Longrightarrow> keeps X pm (pmc_conn_add p (new_connection fd) pm)"
  by (auto simp: keeps_def pmc_inv_def conn_at_def pmc_conn_add_def new_connection_def map_of_eq_None_iff)

text \<open>No message adds or removes a connection.\<close>

lemma refuse_conns: "refuse_request from msg dev alarm code text pm po = (rc, pm', po') \<Longrightarrow> pm_conns pm' = pm_conns pm"
  by (auto simp: refuse_request_def split: prod.splits)

lemma route_to_sim_conns: "route_to_sim from sim msg pm po = (rc, pm', po') \<Longrightarrow> pm_conns pm' = pm_conns pm"
  by (auto simp: route_to_sim_def Let_def split: prod.splits if_splits dest!: refuse_conns)

lemma route_from_eqd_conns: "route_from_eqd from msg pm po = (rc, pm', po') \<Longrightarrow> pm_conns pm' = pm_conns pm"
  by (auto simp: route_from_eqd_def Let_def split: pmc_seq_action.splits option.splits prod.splits
      dest!: refuse_conns route_to_sim_conns)

lemma route_from_sim_keeps:
  "route_from_sim p from msg pm po = (rc, pm', po') \<Longrightarrow> pmc_inv pm \<Longrightarrow> session_inv (pc_session from) \<Longrightarrow> keeps X pm pm'"
  by (auto simp: route_from_sim_def Let_def keeps_write split: option.splits prod.splits if_splits)

lemma peer_message_keeps:
  assumes "conn_at p pm = Some c" and inv: "pmc_inv pm"
  shows "\<exists>pm' po'. peer_message p msg pm po = Inr (pm', po') \<and> keeps {} pm pm'"
proof -
  obtain rc pm1 po1 where r: "pmc_route_message p c msg pm po = (rc, pm1, po1)" by (metis prod_cases3)
  note s = inv_session [OF inv assms(1)]
  have "keeps {} pm pm1"
    using r inv route_from_sim_keeps [OF _ inv s] inv_same_conns [OF route_from_eqd_conns inv]
    by (auto simp: pmc_route_message_def split: if_splits peer_type.splits)
  moreover have "pc_session (snd (pmc_handle_register c msg)) = pc_session c" by (simp add: pmc_handle_register_def)
  ultimately show ?thesis using assms r s by (auto simp: peer_message_def keeps_write)
qed

lemma peer_lines_keeps:
  "conn_at p pm \<noteq> None \<Longrightarrow> pmc_inv pm \<Longrightarrow> session_inv s \<Longrightarrow>
     \<exists>s' pm' po'. peer_lines p s pm po = Inr (s', pm', po') \<and> session_inv s' \<and> keeps {} pm pm'"
proof (induction p s pm po rule: peer_lines.induct)
  case (1 p s pm po)
  show ?case
  proof (cases "session_pop_line s PMC_BUF")
    case (PopLine line s1)
    note s1 = session_pop_line_PopLine(1) [OF "1.prems"(3) PopLine]
    show ?thesis
    proof (cases "line_parse line")
      case None
      with "1.IH"(1) [OF PopLine None "1.prems"(1,2) s1] PopLine show ?thesis by (simp add: peer_lines.simps [of p s])
    next
      case (Some msg)
      obtain pm1 po1 where m: "peer_message p msg pm po = Inr (pm1, po1)" "keeps {} pm pm1"
        using peer_message_keeps "1.prems"(1,2) by blast
      have "conn_at p pm1 \<noteq> None" "pmc_inv pm1" using m(2) "1.prems"(1) by (auto simp: keeps_def)
      from "1.IH"(2) [OF PopLine Some m(1) refl this s1] PopLine Some m show ?thesis
        by (auto simp: peer_lines.simps [of p s] dest: keeps_trans)
    qed
  qed (use 1 in \<open>simp_all add: peer_lines.simps [of p s]\<close>)
qed

lemma store_session_keeps: "pmc_inv pm \<Longrightarrow> session_inv s \<Longrightarrow> keeps X pm (store_session p s pm)"
  by (auto simp: store_session_def keeps_write split: option.split)

lemma close_keeps: "pmc_inv pm \<Longrightarrow> keeps {p} pm (fst (pmc_close_connection p c pm po))"
  by (simp add: pmc_close_connection_def keeps_remove)

lemma peer_event_keeps:
  assumes "conn_at p pm \<noteq> None" and "pmc_inv pm"
  shows "\<exists>pm' po'. handle_connected_peer p rs pm po = Inr (pm', po') \<and> keeps {p} pm pm'"
  using assms
proof (induction p rs pm po rule: handle_connected_peer.induct)
  case (2 p r rs pm po)
  from 2(2) obtain c where c: "conn_at p pm = Some c" by blast
  show ?case
  proof (cases r)
    case (RecvData bs)
    show ?thesis
    proof (cases "session_feed (pc_session c) bs")
      case None
      with c RecvData keeps_remove [OF 2(3), of p] show ?thesis by (simp add: pmc_close_connection_def)
    next
      case (Some s)
      note s = session_feed_Some(1) [OF inv_session [OF 2(3) c] Some]
      obtain s1 pm1 po1 where l: "peer_lines p s pm po = Inr (s1, pm1, po1)" "session_inv s1" "keeps {} pm pm1"
        using peer_lines_keeps [OF 2(2,3) s] by blast
      let ?pm2 = "store_session p s1 pm1"
      have "pmc_inv pm1" using l(3) by (simp add: keeps_def)
      note k = keeps_trans [OF l(3) store_session_keeps [OF this l(2)]]
      have "conn_at p ?pm2 \<noteq> None" "pmc_inv ?pm2" using k 2(2) by (auto simp: keeps_def)
      from 2(1) [OF c RecvData Some l(1) refl refl this] obtain pm' po' where
        "handle_connected_peer p rs ?pm2 po1 = Inr (pm', po')" "keeps {p} ?pm2 pm'" by blast
      with c RecvData Some l(1) keeps_trans [OF keeps_mono [OF k, of "{p}"]] show ?thesis by auto
    qed
  qed (use c 2(3) keeps_remove [OF 2(3), of p] in \<open>simp_all add: pmc_close_connection_def\<close>)
qed simp

text \<open>
  What the kernel and the allocator promise about a round: every connection is reported at most once
  and only while it exists, and \<^verbatim>\<open>malloc\<close> returns an address that is not in use.
\<close>

fun fresh_for :: "pmc_accept list \<Rightarrow> pmc \<Rightarrow> bool" where
  "fresh_for [] pm = True"
| "fresh_for (PmcAccepted fd nonblock (Some p) added # rs) pm =
     (if nonblock
      then conn_at p pm = None \<and> fresh_for rs (if added then pmc_conn_add p (new_connection fd) pm else pm)
      else fresh_for rs pm)"
| "fresh_for (_ # rs) pm = fresh_for rs pm"

fun fresh_batch :: "pmc_event list \<Rightarrow> pmc \<Rightarrow> port \<Rightarrow> bool" where
  "fresh_batch [] pm po = True"
| "fresh_batch (PmcAcceptEvent rs # es) pm po =
     (fresh_for rs pm \<and> fresh_batch es (fst (pmc_accept_loop rs pm po)) (snd (pmc_accept_loop rs pm po)))"
| "fresh_batch (PmcPeerEvent p rs # es) pm po =
     (case handle_connected_peer p rs pm po of Inl e \<Rightarrow> True | Inr (pm1, po1) \<Rightarrow> fresh_batch es pm1 po1)"

fun peers :: "pmc_event list \<Rightarrow> pmc_addr list" where
  "peers [] = []"
| "peers (PmcAcceptEvent rs # es) = peers es"
| "peers (PmcPeerEvent p rs # es) = p # peers es"

definition kernel_ok :: "pmc_poll \<Rightarrow> pmc \<Rightarrow> port \<Rightarrow> bool" where
  "kernel_ok r pm po =
     (case r of
        PmcReady evs \<Rightarrow> distinct (peers evs) \<and> (\<forall>p \<in> set (peers evs). conn_at p pm \<noteq> None) \<and> fresh_batch evs pm po
      | _ \<Rightarrow> True)"

lemma remove_added: "conn_at p pm = None \<Longrightarrow> pmc_conn_remove p (pmc_conn_add p c pm) = pm"
  by (simp add: pmc_conn_remove_def pmc_conn_add_def)

lemma accept_keeps: "pmc_inv pm \<Longrightarrow> fresh_for rs pm \<Longrightarrow> keeps {} pm (fst (pmc_accept_loop rs pm po))"
proof (induction rs pm po rule: pmc_accept_loop.induct)
  case (4 fd nonblock mem added rs pm po)
  consider "\<not> nonblock" | "nonblock" "mem = None" | p where "nonblock" "mem = Some p" "added"
    | p where "nonblock" "mem = Some p" "\<not> added" by blast
  then show ?case
  proof cases
    case 1
    then show ?thesis using 4(1) [OF refl] 4(5,6) by (cases mem) simp_all
  next
    case 2
    then show ?thesis using 4(2) [OF refl] 4(5,6) by simp
  next
    case (3 p)
    let ?pm1 = "pmc_conn_add p (new_connection fd) pm"
    have k: "keeps {} pm ?pm1" using keeps_add 3 4(5,6) by simp
    then have "keeps {} ?pm1 (fst (pmc_accept_loop rs ?pm1 (po\<lparr>po_world := os_log (EpollAdd fd) (po_world po)\<rparr>)))"
      using 4(4) [OF refl _ 3(2) refl] 3 4(6) by (simp add: keeps_def [of _ pm])
    with keeps_trans [OF k this] 3 show ?thesis by simp
  next
    case (4 p)
    then show ?thesis using "4.IH"(3) [OF refl _ 4(2) refl] "4.prems" by (simp add: remove_added)
  qed
qed simp_all

lemma dispatch_keeps:
  "pmc_inv pm \<Longrightarrow> distinct (peers evs) \<Longrightarrow> \<forall>p \<in> set (peers evs). conn_at p pm \<noteq> None \<Longrightarrow> fresh_batch evs pm po \<Longrightarrow>
     \<exists>pm' po'. pmc_dispatch evs pm po = Inr (pm', po') \<and> pmc_inv pm'"
proof (induction evs pm po rule: pmc_dispatch.induct)
  case (1 pm po)
  then show ?case by simp
next
  case (2 rs es pm po)
  obtain pm1 po1 where a: "pmc_accept_loop rs pm po = (pm1, po1)" by fastforce
  have k: "keeps {} pm pm1" using accept_keeps [of pm rs po] 2 by (simp add: a)
  with 2(4) have "\<forall>p \<in> set (peers es). conn_at p pm1 \<noteq> None" by (auto simp: keeps_def)
  with "2.IH" [OF a [symmetric]] "2.prems" k show ?case by (simp add: a keeps_def)
next
  case (3 p rs es pm po)
  from peer_event_keeps [of p pm rs po] "3.prems"(1,3) obtain pm1 po1 where
    h: "handle_connected_peer p rs pm po = Inr (pm1, po1)" and k: "keeps {p} pm pm1" by auto
  have "\<forall>q \<in> set (peers es). conn_at q pm1 \<noteq> None" using k "3.prems"(2,3) by (auto simp: keeps_def)
  with "3.IH" [OF h refl] "3.prems" k h show ?case by (simp add: keeps_def)
qed

section \<open>Every reachable state\<close>

inductive pmc_reach :: "pmc \<Rightarrow> port \<Rightarrow> bool" where
  boot: "pmc_boot getenv sock nonblock mem added po = (0, pm, po') \<Longrightarrow> pmc_reach pm po'"
| round: "pmc_reach pm po \<Longrightarrow> kernel_ok r pm po \<Longrightarrow> pmc_iteration r pm po = Inr (True, pm', po') \<Longrightarrow> pmc_reach pm' po'"

lemma connect_inv: "connect_to_eqd sock nonblock mem added pm po = (rc, pm', po') \<Longrightarrow> pm_conns pm = [] \<Longrightarrow> pmc_inv pm'"
  by (auto simp: connect_to_eqd_def pmc_inv_def conn_at_def write_conn_def pmc_conn_add_def pmc_conn_remove_def
      new_connection_def Let_def split: option.splits if_splits)

lemma boot_inv: "pmc_boot getenv sock nonblock mem added po = (rc, pm, po') \<Longrightarrow> pmc_inv pm"
  by (auto simp: pmc_boot_def pmc_alarm_init_def pmc_zero_def Let_def dest!: connect_inv split: prod.splits)

lemma iteration_inv:
  assumes "pmc_inv pm" and "kernel_ok r pm po"
  shows "\<exists>pm' po'. pmc_iteration r pm po = Inr (r \<noteq> PmcPollError, pm', po') \<and> pmc_inv pm'"
proof (cases r)
  case (PmcReady evs)
  with assms have "distinct (peers evs)" "\<forall>p \<in> set (peers evs). conn_at p pm \<noteq> None" "fresh_batch evs pm po"
    by (simp_all add: kernel_ok_def)
  from dispatch_keeps [OF assms(1) this] PmcReady show ?thesis by (auto simp: pmc_iteration_def)
next
  case PmcPollError
  have "pmc_inv (pm\<lparr>pm_aux := cfg\<rparr>)" for cfg
    using inv_same_conns [OF _ assms(1), of "pm\<lparr>pm_aux := cfg\<rparr>" "{}"] by (simp add: keeps_def)
  with PmcPollError show ?thesis by (auto simp: pmc_iteration_def split: prod.split)
qed (use assms in \<open>simp add: pmc_iteration_def\<close>)

lemma reach_inv: "pmc_reach pm po \<Longrightarrow> pmc_inv pm"
proof (induction rule: pmc_reach.induct)
  case (round pm po r pm' po')
  from iteration_inv [OF round(4,2)] round(3) show ?case by auto
qed (rule boot_inv)

text \<open>
  C15: The process module controller never touches a released connection: in every state it can
  reach, whatever connects, is sent, fails or is closed, every connection object is in the list
  exactly once with a sound session, and the next round of the loop ends without a fault; only a
  failed wait ends the process.
\<close>

theorem peer_event_memory_safe:
  assumes "pmc_reach pm po" and "kernel_ok r pm po"
  shows "distinct (map fst (pm_conns pm)) \<and> (\<forall>p c. conn_at p pm = Some c \<longrightarrow> session_inv (pc_session c))
    \<and> (\<exists>pm' po'. pmc_iteration r pm po = Inr (r \<noteq> PmcPollError, pm', po'))"
  using iteration_inv [OF reach_inv [OF assms(1)] assms(2)] reach_inv [OF assms(1)] by (auto simp: pmc_inv_def)

text \<open>A controller without a board, linked to the control server on descriptor 5 at address 1.\<close>

lemma boot_sample: "\<exists>pm po. pmc_boot (\<lambda>_. None) (Some 5) True (Some 1) True quiet_port = (0, pm, po) \<and> conn_at 1 pm \<noteq> None"
  by (simp add: pmc_boot_def aux_from_env_def env_var_def pmc_io_uart_aux_clear_def connect_to_eqd_def pmc_alarm_init_def
      pmc_zero_def aux_zero_def Let_def split: option.split)

theorem peer_event_memory_safe_witness:
  "\<exists>pm po pm' po'. pmc_boot (\<lambda>_. None) (Some 5) True (Some 1) True quiet_port = (0, pm, po)
     \<and> pmc_iteration (PmcReady [PmcPeerEvent 1 [RecvData ''junk'', RecvClosed]]) pm po = Inr (True, pm', po')"
proof -
  obtain pm po where b: "pmc_boot (\<lambda>_. None) (Some 5) True (Some 1) True quiet_port = (0, pm, po)" "conn_at 1 pm \<noteq> None"
    using boot_sample by blast
  have "kernel_ok (PmcReady [PmcPeerEvent 1 [RecvData ''junk'', RecvClosed]]) pm po"
    using b(2) by (auto simp: kernel_ok_def split: sum.split)
  from peer_event_memory_safe [OF pmc_reach.boot [OF b(1)] this] b(1) show ?thesis by auto
qed

section \<open>Unregistered peers\<close>

lemma update_same: "map_of xs p = Some c \<Longrightarrow> AList.update p c xs = xs"
  by (induction xs) (auto split: if_splits)

lemma write_same: "conn_at p pm = Some c \<Longrightarrow> write_conn p c pm = pm"
  by (simp add: conn_at_def write_conn_def update_same)

lemma register_refused: "fst (pmc_handle_register c m) \<noteq> 1 \<Longrightarrow> snd (pmc_handle_register c m) = c"
  by (auto simp: pmc_handle_register_def split: if_splits)

lemma unregistered_lines:
  "conn_at p pm = Some c \<Longrightarrow> \<not> pc_registered c \<Longrightarrow>
   \<forall>l \<in> set (fst (session_drain s PMC_BUF)). \<forall>m. line_parse l = Some m \<longrightarrow> fst (pmc_handle_register c m) \<noteq> 1 \<Longrightarrow>
   peer_lines p s pm po = Inr (snd (session_drain s PMC_BUF), pm, po)"
proof (induction p s pm po rule: peer_lines.induct)
  case (1 p s pm po)
  show ?case
  proof (cases "session_pop_line s PMC_BUF")
    case (PopLine line s1)
    note d = session_drain_line [OF PopLine]
    have rest: "\<forall>l \<in> set (fst (session_drain s1 PMC_BUF)). \<forall>m. line_parse l = Some m \<longrightarrow> fst (pmc_handle_register c m) \<noteq> 1"
      using "1.prems"(3) by (simp add: d)
    show ?thesis
    proof (cases "line_parse line")
      case None
      with "1.IH"(1) [OF PopLine None "1.prems"(1,2) rest] PopLine d show ?thesis
        by (simp add: peer_lines.simps [of p s])
    next
      case (Some msg)
      have "fst (pmc_handle_register c msg) \<noteq> 1" using "1.prems"(3) Some by (simp add: d)
      then have m: "peer_message p msg pm po = Inr (pm, po)"
        using "1.prems"(1,2) by (simp add: peer_message_def register_refused write_same)
      from "1.IH"(2) [OF PopLine Some m refl "1.prems"(1,2) rest] PopLine Some m d show ?thesis
        by (simp add: peer_lines.simps [of p s])
    qed
  qed (use 1 session_drain_stop [of s PMC_BUF] in \<open>simp_all add: peer_lines.simps [of p s]\<close>)
qed

text \<open>
  C16: Nobody is served before registering: whatever lines an unregistered peer sends, as long as none
  is a valid registration, nothing is written to anyone, no alarm is raised, no heater command is
  given and no connection changes, except that the peer's own receive buffer is drained.
\<close>

theorem unregistered_peer_is_inert:
  assumes "conn_at p pm = Some c" and "\<not> pc_registered c" and "session_feed (pc_session c) bs = Some s"
    and "\<forall>l \<in> set (fst (session_drain s PMC_BUF)). \<forall>m. line_parse l = Some m \<longrightarrow>
           \<not> (m_type m = TYPE_REGISTER \<and> (m_role m = ROLE_REQ \<or> m_role m = ROLE_EVT \<and> m_has_dev m))"
  shows "handle_connected_peer p [RecvData bs] pm po = Inr (store_session p (snd (session_drain s PMC_BUF)) pm, po)"
proof -
  have "\<forall>l \<in> set (fst (session_drain s PMC_BUF)). \<forall>m. line_parse l = Some m \<longrightarrow> fst (pmc_handle_register c m) \<noteq> 1"
    using assms(4) by (auto simp: pmc_handle_register_def split: if_splits)
  from unregistered_lines [OF assms(1,2) this] assms(1,3) show ?thesis by simp
qed

theorem unregistered_peer_is_inert_witness:
  "\<exists>s'. handle_connected_peer 4 [RecvData (wire (command TYPE_START))]
       ((sample_pmc ''IDLE'' aux_zero)\<lparr>pm_conns := [(4, new_connection 9)]\<rparr>) quiet_port
     = Inr (store_session 4 s' ((sample_pmc ''IDLE'' aux_zero)\<lparr>pm_conns := [(4, new_connection 9)]\<rparr>), quiet_port)"
proof -
  let ?pm = "(sample_pmc ''IDLE'' aux_zero)\<lparr>pm_conns := [(4, new_connection 9)]\<rparr>" and ?m = "command TYPE_START"
  have c: "conn_at 4 ?pm = Some (new_connection 9)" "\<not> pc_registered (new_connection 9)"
    "pc_session (new_connection 9) = session_zero" by (simp_all add: conn_at_def new_connection_def)
  have ca: "carriable ?m" by (simp add: carriable_def command_def message_inv_def message_zero_def)
  have sh: "LF \<notin> set (line_body ?m)" "length (line_body ?m) \<le> 246"
    using line_body_clean [OF ca, of LF] length_line_body [OF command_fits] by auto
  have "session_feed session_zero (wire ?m) \<noteq> None"
    using session_feed_ok_iff [of session_zero "wire ?m"] sh(2) by (simp add: wire_def)
  then obtain s where s: "session_feed session_zero (wire ?m) = Some s" by blast
  from session_feed_Some [OF session_inv_zero s] have sp: "session_inv s" "pending s = line_body ?m @ LF # []"
    by (simp_all add: wire_def)
  have "fst (session_drain s PMC_BUF) = [wire ?m]"
    using cap1024.drain_lines [OF sp(1)] split_lines_line [OF sh(1), of "[]"] sh(2) sp(2) by (simp add: wire_def)
  moreover have "line_parse (wire ?m) = Some (transferred ?m)"
    using line_parse_body [OF ca] sh(2) by (simp add: wire_def)
  ultimately have "\<forall>l \<in> set (fst (session_drain s PMC_BUF)). \<forall>m. line_parse l = Some m \<longrightarrow>
      \<not> (m_type m = TYPE_REGISTER \<and> (m_role m = ROLE_REQ \<or> m_role m = ROLE_EVT \<and> m_has_dev m))"
    by (simp add: transferred_def)
  from unregistered_peer_is_inert [OF c(1,2) _ this] s c(3) show ?thesis by auto
qed

end
