(* ===== verification/Spec2Isabelle.thy ===== *)
theory Spec2Isabelle
  imports Sim_Node Tmc Eqd_Main Pmc_Main
begin

text \<open>
  A model of the equipment control system: four cooperating C programs that exchange lines of
  text over TCP.

  \<^bold>\<open>The programs.\<close>  Clients connect to the control server \<^verbatim>\<open>services/equipmentd\<close>.  Requests for
  devices 1 (preclean) and 2 (deposition) go from there to the process module controller
  \<^verbatim>\<open>nodes/pmc\<close>, requests for device 100 to the transfer module controller \<^verbatim>\<open>nodes/tmc\<close>.  The
  process module controller passes them on to one device simulator \<^verbatim>\<open>nodes/deviced/sim\<close> per device,
  and drives a heater board over a serial line before a command of device 1.  Answers and events
  come back on the same way.  The code in \<^verbatim>\<open>common\<close> gives all of them the message object, its text
  form, the framing of the byte stream into lines and the clock.

  \<^bold>\<open>Shared theories.\<close>
  \<^item> \<^verbatim>\<open>Prelude\<close>: machine integers, generic lemmas, theorem collections.
  \<^item> \<^verbatim>\<open>CLib\<close>, \<^verbatim>\<open>CDouble\<close>: the C library as the sources use it (\<^verbatim>\<open>strtok_r\<close>, \<^verbatim>\<open>strtoul\<close>, \<^verbatim>\<open>strncpy\<close>,
    bounded \<^verbatim>\<open>snprintf\<close>; \<^verbatim>\<open>double\<close> arithmetic, \<^verbatim>\<open>strtod\<close> and \<^verbatim>\<open>%.2f\<close> with their rounding).
  \<^item> \<^verbatim>\<open>Os\<close>: the clock, the outcomes of writes, and the log of what a process does to the outside.
  \<^item> \<^verbatim>\<open>Message\<close>, \<^verbatim>\<open>Line_Codec\<close>, \<^verbatim>\<open>Session\<close>: \<^verbatim>\<open>common/include/protocol/message.h\<close>,
    \<^verbatim>\<open>common/src/protocol/line_codec.c\<close> and \<^verbatim>\<open>session.c\<close>.

  \<^bold>\<open>The programs' theories.\<close>
  \<^item> \<^verbatim>\<open>Sim_Fsm\<close> (\<^verbatim>\<open>fsm.c\<close>), \<^verbatim>\<open>Sim_Process\<close> (\<^verbatim>\<open>process_model.c\<close>), \<^verbatim>\<open>Sim_Node\<close> (\<^verbatim>\<open>telemetry.c\<close>, \<^verbatim>\<open>main.c\<close>): the
    simulated device; one turn of its loop is \<open>sim_iteration\<close>.
  \<^item> \<^verbatim>\<open>Tmc\<close>: the transfer module controller; one turn of its loop is \<open>tmc_iteration\<close>.
  \<^item> \<^verbatim>\<open>Eqd_Devices\<close>, \<^verbatim>\<open>Eqd_Registry\<close>, \<^verbatim>\<open>Eqd_Router\<close>, \<^verbatim>\<open>Eqd_Scheduler\<close>, \<^verbatim>\<open>Eqd_Tracker\<close>, \<^verbatim>\<open>Eqd_Conns\<close>: one
    theory per source file of the control server.  \<^verbatim>\<open>Eqd_Core\<close> and \<^verbatim>\<open>Eqd_Main\<close> are its \<^verbatim>\<open>main.c\<close>: what a
    line does (\<open>handle_one_line\<close>), a scheduler round (\<open>run_scheduler\<close>), the socket events, and one
    turn of the poll loop (\<open>eqd_iteration\<close>).
  \<^item> \<^verbatim>\<open>Pmc_Serial\<close> (\<^verbatim>\<open>serial_transport.c\<close>, \<^verbatim>\<open>pico_device.c\<close>), \<^verbatim>\<open>Pmc_Aux\<close> (the heater part of
    \<^verbatim>\<open>io_manager.c\<close>), \<^verbatim>\<open>Pmc_Core\<close> (\<^verbatim>\<open>pmc_connection.c\<close>, \<^verbatim>\<open>alarm_manager.c\<close>, \<^verbatim>\<open>interlock.c\<close>,
    \<^verbatim>\<open>sequence_manager.c\<close>, \<^verbatim>\<open>pmc_router.c\<close> and the sending part of \<^verbatim>\<open>io_manager.c\<close>), \<^verbatim>\<open>Pmc_Main\<close>
    (\<^verbatim>\<open>main.c\<close>): the process module controller; one turn of its poll loop is \<open>pmc_iteration\<close>.

  \<^bold>\<open>How the state is modelled.\<close>  A C struct is a record with the same fields, an enumeration a
  datatype, a fixed-width integer a word.  Functions that change a struct return it.  The answers
  of the operating system (what a read returns, which descriptor \<^verbatim>\<open>accept\<close> gives, whether \<^verbatim>\<open>malloc\<close>
  succeeds, what the serial line delivers) are arguments or streams, so a theorem about all of
  them is a theorem about every environment.  Everything a process writes is in the log of its
  \<open>world\<close>.  Heap objects have addresses, and reading a freed one is the error value
  \<open>UseAfterFree\<close> of the control server or \<open>PmcUseAfterFree\<close> of the process module controller.

  \<^bold>\<open>What the lemmas show.\<close>
  \<^item> Codec: the guarded appends of \<open>line_format\<close> are one bounded write; formatting and parsing are
    inverse; a parsed message satisfies its representation invariant.
  \<^item> Framing: the 4096-byte array refines a byte queue, and the sequence of lines does not depend
    on how the stream was cut into reads (locale \<open>line_buffer\<close>, interpreted for both line sizes).
  \<^item> Device: its state machine, the reply contract of the node, the ranges of the simulated
    quantities as doubles, and the agreement of announced state, actuators and machine per turn.
  \<^item> Transfer controller: its transition table, the exact lines sent for each request; over any
    rounds of its loop (\<open>tmc_rounds\<close>), a transfer from its START line to its end after two seconds
    (invariant \<open>transfer_since\<close>) and the status heartbeat (frame \<open>tmc_step\<close> of every operation).
  \<^item> Control server: contracts of the request tracker (locale \<open>request_table\<close>), registry,
    connection table and device table; the path of a request and its response; the scheduler; the
    invariant of the reachable states; the three paths on which the daemon reads freed memory,
    keeps a dead link, or never starts a job.
  \<^item> Process module controller: the contract of an exchange with the heater board (locale
    \<open>board_exchange\<close>, interpreted for the four exchanges); the heater before START, STOP, RESET
    and FAULT; the line that every message of the control server causes, as text (\<open>eqd_line\<close>), and
    the cached state in it; memory safety of a peer event.
  \<^item> This theory: the interlock against the device's state machine, a command from the client to
    the device and back, and what a status event of a device changes in the control server.

  \<^bold>\<open>Bounds.\<close>  The arrays have the sizes of the sources: 4096 bytes of session, 512 bytes in the
  parser, lines of 512 or 1024 bytes, 16 devices, 16 pending requests.  Loops over input are
  recursive on the input or have a measure, so every operation is total; no fuel is used.
  Polling the heater board keeps the counted loops of the sources.  The millisecond clock is an
  unbounded integer where the source has 64 bits, which do not overflow in practice.

  \<^bold>\<open>Not modelled.\<close>  Creating sockets and epoll instances, terminal settings of the serial line, the
  sleeps, the functions that only print, the argument parsing of the simulator and the
  \<^verbatim>\<open>hostsim\<close> stub.  A write that transfers fewer bytes than asked counts as a success, as in the
  sources, and the log then holds all bytes handed over.  \<^verbatim>\<open>SIGPIPE\<close>, which no program ignores, is
  not modelled: a write to a socket the peer has reset would end the process instead of failing.
  The two poll loops store either a descriptor or a pointer in the union \<^verbatim>\<open>epoll_data\<close> and tell
  them apart by comparing the descriptor; the events of the models are already told apart.
\<close>

section \<open>The interlock and the device\<close>

text \<open>What the interlock decides when the state it has cached is the state of the device.\<close>

definition cache_current :: "pmc_connection \<Rightarrow> fsm \<Rightarrow> bool" where
  "cache_current c f \<longleftrightarrow> pc_has_state c \<and> pc_state c = fsm_state_to_string (f_state f)"

lemma state_string_cases:
  "fsm_state_to_string s = ''IDLE'' \<longleftrightarrow> s = SIM_STATE_IDLE" "fsm_state_to_string s = ''PROCESSING'' \<longleftrightarrow> s = SIM_STATE_PROCESSING"
  "fsm_state_to_string s = ''FAULT'' \<longleftrightarrow> s = SIM_STATE_FAULT" "fsm_state_to_string s = ''DONE'' \<longleftrightarrow> s = SIM_STATE_DONE"
  by (cases s; simp)+

lemma interlock_device:
  assumes "cache_current c f" and "sim_cmd_from_message m \<noteq> SIM_CMD_NONE"
  shows "(pmc_interlock_check (Some c) m = 0 \<longrightarrow> fst (fsm_handle_command f (sim_cmd_from_message m)) = 0)
    \<and> (pmc_interlock_check (Some c) m \<noteq> 0 \<and> fst (fsm_handle_command f (sim_cmd_from_message m)) = 0
        \<longleftrightarrow> m_type m = TYPE_START \<and> f_state f = SIM_STATE_READY)"
  using assms by (cases "m_type m")
    (auto simp: cache_current_def sim_cmd_from_message_def pmc_interlock_check_def state_string_cases)

text \<open>
  C9: The interlock is sound for the device: while the cached state is the device's state, a command
  that passes the interlock is one the device accepts; and the only command the interlock holds
  back although the device would accept it is a second START in READY.
\<close>

theorem interlock_agrees_with_device:
  assumes "cache_current c f" and "sim_cmd_from_message m \<noteq> SIM_CMD_NONE"
  shows "(pmc_interlock_check (Some c) m = 0 \<longrightarrow> fst (fsm_handle_command f (sim_cmd_from_message m)) = 0)
    \<and> (pmc_interlock_check (Some c) m \<noteq> 0 \<and> fst (fsm_handle_command f (sim_cmd_from_message m)) = 0
        \<longleftrightarrow> m_type m = TYPE_START \<and> f_state f = SIM_STATE_READY)"
  by (rule interlock_device [OF assms])

theorem interlock_agrees_with_device_witness:
  "fst (fsm_handle_command \<lparr>f_state = SIM_STATE_IDLE, f_ticks = 0\<rparr> SIM_CMD_START) = 0"
  using interlock_agrees_with_device [of "peer PEER_SIM 6 1 ''IDLE''" "\<lparr>f_state = SIM_STATE_IDLE, f_ticks = 0\<rparr>" "command TYPE_START"]
  by (simp add: cache_current_def sim_cmd_from_message_def pmc_interlock_check_def)

section \<open>A command from end to end\<close>

lemma sim_reply_wire:
  assumes "m_has_seq i" and "m_role i = ROLE_REQ" and "carriable i"
  shows "line_parse (wire (sim_reply s i 0)) = Some (sim_reply s i 0)" and "no_measurements (sim_reply s i 0)"
    and "message_inv (sim_reply s i 0)"
proof -
  have t: "m_type i \<noteq> TYPE_UNKNOWN" using assms(3) by (simp add: carriable_def)
  show n: "no_measurements (sim_reply s i 0)"
    by (simp add: sim_reply_def no_measurements_def message_zero_def Let_def)
  have c: "carriable (sim_reply s i 0)" using t
    by (simp add: sim_reply_def carriable_def message_inv_def message_zero_def Let_def)
  then show "message_inv (sim_reply s i 0)" by (simp add: carriable_def)
  have "parsed_ok (sim_reply s i 0)"
    using assms(1) by (simp add: sim_reply_def parsed_ok_def message_inv_def message_zero_def Let_def)
  with c n show "line_parse (wire (sim_reply s i 0)) = Some (sim_reply s i 0)" by (simp add: line_parse_wire)
qed

text \<open>
  C1: A command from end to end: a client's command for a connected process module, in a state in
  which the interlock lets it pass, is written by the control server to the process controller, by
  that one to the device, is performed by the device, and the device's \<^verbatim>\<open>ok=1\<close> answer comes back
  on the same way, unchanged, to the client that asked; nothing of it stays pending.
\<close>

theorem command_end_to_end:
  assumes i: "carriable i" "parsed_ok i" "no_measurements i" "device_request i" "m_type i \<noteq> TYPE_STATUS"
      "m_dev i = 1 \<or> m_dev i = 2"
    and eqd: "tracker_inv (ax_tracker ctx)" "card (dom (live (ax_tracker ctx))) < REQUEST_TRACKER_MAX"
      "\<And>j q. live (ax_tracker ctx) j = Some q \<Longrightarrow> \<not> (pr_seq q = m_seq i \<and> pr_dev q = m_dev i)"
      "0 \<le> ax_pmc_fd ctx" "0 \<le> fd" "all_writes_ok w"
    and pmc: "pc_type eqdc = PEER_EQD" "pc_registered eqdc" "\<not> au_enabled (pm_aux pm)" "all_writes_ok (po_world po)"
      "distinct (map fst (pm_conns pm))" "pmc_find_eqd pm = Some (q, eqdc)" "pmc_find_sim (m_dev i) pm = Some (p, c)"
    and sim: "n_dev_id s = m_dev i" "cache_current c (n_fsm s)" "pmc_interlock_check (Some c) i = 0"
  shows "\<exists>ctx1 w1 pm1 po1 s1 r pm2 po2 ctx2 w2.
      handle_one_line fd ctx (wire i) w = (0, ctx1, w1) \<and> logged w [Wrote (ax_pmc_fd ctx) (wire i)] w1
    \<and> pmc_route_message q eqdc i pm po = (0, pm1, po1) \<and> delivers po (pc_fd c) i po1
    \<and> sim_handle_message s i = (1, s1, Some r) \<and> m_ok r = 1
    \<and> n_fsm s1 = snd (fsm_handle_command (n_fsm s) (sim_cmd_from_message i))
    \<and> pmc_route_message p c r pm1 po1 = (0, pm2, po2) \<and> delivers po1 (pc_fd eqdc) r po2
    \<and> handle_one_line (ax_pmc_fd ctx) ctx1 (wire r) w1 = (1, ctx2, w2) \<and> logged w1 [Wrote fd (wire r)] w2
    \<and> live (ax_tracker ctx2) = live (ax_tracker ctx)"
proof -
  let ?r = "sim_reply s i 0"
  have i': "m_role i = ROLE_REQ" "m_has_seq i" "m_has_dev i" "m_type i \<noteq> TYPE_REGISTER" "message_inv i"
    using i by (auto simp: device_request_def carriable_def)
  have cmd: "sim_cmd_from_message i \<noteq> SIM_CMD_NONE"
    using i(4,5) by (auto simp: device_request_def device_type_def sim_cmd_from_message_def)
  note r = sim_reply_wire [OF i'(2,1) i(1), of s]
  have rf: "m_role ?r = ROLE_RESP" "m_has_seq ?r \<and> m_seq ?r = m_seq i" "m_has_dev ?r \<and> m_dev ?r = m_dev i"
    "m_type ?r = m_type i" "m_ok ?r = 1"
    using i'(2) sim(1) by (simp_all add: sim_reply_fields)
  have "serving_fd (ax_pmc_fd ctx) (ax_tmc_fd ctx) (m_dev i) = Some (ax_pmc_fd ctx)"
    using i(6) eqd(4) by (auto simp: serving_fd_def)
  then have "\<exists>ctx1 w1 ctx2 w2.
      handle_one_line fd ctx (wire i) w = (0, ctx1, w1) \<and> logged w [Wrote (ax_pmc_fd ctx) (wire i)] w1
    \<and> handle_one_line (ax_pmc_fd ctx) ctx1 (wire ?r) w1 = (1, ctx2, w2) \<and> logged w1 [Wrote fd (wire ?r)] w2
    \<and> live (ax_tracker ctx2) = live (ax_tracker ctx)"
    by (intro relay_round_trip [OF eqd(1,2) _ line_parse_wire [OF i(1-3)] i(4,3) _ eqd(5,6) r(1) rf(1-3) r(2)])
      (rule eqd(3))
  then obtain ctx1 w1 ctx2 w2 where e:
    "handle_one_line fd ctx (wire i) w = (0, ctx1, w1)" "logged w [Wrote (ax_pmc_fd ctx) (wire i)] w1"
    "handle_one_line (ax_pmc_fd ctx) ctx1 (wire ?r) w1 = (1, ctx2, w2)" "logged w1 [Wrote fd (wire ?r)] w2"
    "live (ax_tracker ctx2) = live (ax_tracker ctx)" by blast
  have "find (\<lambda>(q, c). pc_registered c \<and> pc_type c = PEER_SIM \<and> pc_dev_id c = m_dev i) (pm_conns pm) = Some (p, c)"
    using pmc(7) by (simp add: pmc_find_sim_def first_conn_find)
  moreover have "length (line_body i) \<le> 246" by (rule length_line_body [OF i'(5) i(3)])
  ultimately have "eqd_line eqdc i pm = (pc_fd c, wire i)"
    using i'(3) i(5) sim(3) interlock_admits [of c i] by (simp add: eqd_line_def)
  with route_eqd_line [OF pmc(1,2) i'(4) pmc(3,4), of q] obtain pm1 po1 where p1:
    "pmc_route_message q eqdc i pm po = (0, pm1, po1)" "delivers po (pc_fd c) i po1" "pm_conns pm1 = pm_conns pm"
    by (auto simp: delivers_def)
  have w1: "all_writes_ok (po_world po1)" using p1(2) pmc(4) logged_writes_ok by (auto simp: delivers_def)
  have "fst (fsm_handle_command (n_fsm s) (sim_cmd_from_message i)) = 0"
    using interlock_device [OF sim(2) cmd] sim(3) by blast
  then have sm: "sim_handle_message s i = (1, s\<lparr>n_fsm := snd (fsm_handle_command (n_fsm s) (sim_cmd_from_message i))\<rparr>, Some ?r)"
    using i'(1) by (simp add: sim_handle_message_def case_prod_beta)
  from pmc_send_ok [OF r(3,2) w1, of eqdc] obtain po2 where
    s2: "pmc_io_send_message eqdc ?r po1 = (0, po2)" "delivers po1 (pc_fd eqdc) ?r po2" by blast
  have "pmc_find_eqd pm1 = Some (q, eqdc)" using pmc(6) p1(3) by (simp add: pmc_find_eqd_def)
  then have p2: "pmc_route_message p c ?r pm1 po1 = (0, pm1, po2)"
    using find_sim_fields [OF pmc(7,5)] rf(4) i(5) i'(4) s2(1)
    by (simp add: pmc_route_message_def route_from_sim_def)
  show ?thesis
    by (intro exI conjI) (rule e p1 p2 sm s2 rf(5) | simp)+
qed

definition idle_device :: sim_ctx where
  "idle_device = (fst (sim_boot 1 4 (quiet_world 0)))"

lemma idle_device_fields [simp]: "n_dev_id idle_device = 1" "f_state (n_fsm idle_device) = SIM_STATE_IDLE"
  by (simp_all add: idle_device_def sim_boot_def fsm_init_def fsm_tick_def Let_def)

theorem command_end_to_end_witness:
  "\<exists>s1 r ctx1 w1 ctx2 w2.
      handle_one_line 9 sample_ctx (wire sample_start) (quiet_world 3) = (0, ctx1, w1)
    \<and> sim_handle_message idle_device sample_start = (1, s1, Some r) \<and> m_ok r = 1
    \<and> handle_one_line 5 ctx1 (wire r) w1 = (1, ctx2, w2) \<and> logged w1 [Wrote 9 (wire r)] w2"
proof -
  let ?e = "peer PEER_EQD 5 (- 1) []" and ?c = "peer PEER_SIM 6 1 ''IDLE''" and ?pm = "sample_pmc ''IDLE'' aux_zero"
  have c: "cache_current ?c (n_fsm idle_device)" "pmc_interlock_check (Some ?c) sample_start = 0"
    "\<not> au_enabled (pm_aux ?pm)" "pmc_find_sim (m_dev sample_start) ?pm = Some (2, ?c)"
    by (simp_all add: cache_current_def pmc_interlock_check_def aux_zero_def)
  have t: "card (dom (live (ax_tracker sample_ctx))) < REQUEST_TRACKER_MAX" "0 \<le> ax_pmc_fd sample_ctx"
    "distinct (map fst (pm_conns ?pm))" "n_dev_id idle_device = m_dev sample_start" by simp_all
  have "\<exists>ctx1 w1 pm1 po1 s1 r pm2 po2 ctx2 w2.
      handle_one_line 9 sample_ctx (wire sample_start) (quiet_world 3) = (0, ctx1, w1)
    \<and> logged (quiet_world 3) [Wrote (ax_pmc_fd sample_ctx) (wire sample_start)] w1
    \<and> pmc_route_message 1 ?e sample_start ?pm quiet_port = (0, pm1, po1) \<and> delivers quiet_port (pc_fd ?c) sample_start po1
    \<and> sim_handle_message idle_device sample_start = (1, s1, Some r) \<and> m_ok r = 1
    \<and> n_fsm s1 = snd (fsm_handle_command (n_fsm idle_device) (sim_cmd_from_message sample_start))
    \<and> pmc_route_message 2 ?c r pm1 po1 = (0, pm2, po2) \<and> delivers po1 (pc_fd ?e) r po2
    \<and> handle_one_line (ax_pmc_fd sample_ctx) ctx1 (wire r) w1 = (1, ctx2, w2) \<and> logged w1 [Wrote 9 (wire r)] w2
    \<and> live (ax_tracker ctx2) = live (ax_tracker sample_ctx)"
    by (rule command_end_to_end [OF sample_start_ok _ _ _ t(1) _ t(2) _ quiet_world_ok _ _ c(3) quiet_port_ok t(3)
          sample_pmc_finds(2) c(4) t(4) c(1,2)]) simp_all
  then show ?thesis unfolding sample_ctx_fields(1) by blast
qed

section \<open>A device's state in the control server\<close>

lemma status_evt_line:
  "line_parse (wire (telemetry_build_status_evt dev st)) = Some ((telemetry_build_status_evt dev st)\<lparr>m_ok := - 1\<rparr>)"
proof -
  let ?e = "telemetry_build_status_evt dev st"
  have f: "strncpy_field STATE_CAP (fsm_state_to_string st) = fsm_state_to_string st"
    by (cases st) (simp_all add: strncpy_field_id)
  have nz: "NUL \<notin> set (fsm_state_to_string st)" by (cases st) simp_all
  have c: "carriable ?e" and n: "no_measurements ?e"
    using nz by (simp_all add: carriable_def telemetry_build_status_evt_def f message_inv_def message_zero_def no_measurements_def)
  have "length (line_body ?e) \<le> 246" using length_line_body c n by (simp add: carriable_def)
  then have "line_parse (wire ?e) = Some (transferred ?e)" using line_parse_body [OF c] by (simp add: wire_def)
  moreover have "transferred ?e = ?e\<lparr>m_ok := - 1\<rparr>"
    by (simp add: transferred_def telemetry_build_status_evt_def message_zero_def)
  ultimately show ?thesis by simp
qed

text \<open>
  C20: What the control server keeps of a device's state: the status event of a device, received over
  the process controller's link, answers nobody, makes the module registered and healthy, sets
  its busy flag exactly for READY and PROCESSING and latches a FAULT; the state itself is not
  recorded, so the module still counts as one without a state.
\<close>

theorem status_event_in_registry:
  assumes "module_of_dev dev = Some k"
  shows "\<exists>ctx' w'. handle_one_line fd ctx (wire (telemetry_build_status_evt dev st)) w = (0, ctx', w')
     \<and> logged w [] w'
     \<and> mi_registered (get_module k (ax_registry ctx')) \<and> mi_healthy (get_module k (ax_registry ctx'))
     \<and> mi_busy (get_module k (ax_registry ctx')) = (st = SIM_STATE_READY \<or> st = SIM_STATE_PROCESSING)
     \<and> mi_fault_latched (get_module k (ax_registry ctx'))
         = (mi_fault_latched (get_module k (ax_registry ctx)) \<or> st = SIM_STATE_FAULT)
     \<and> mi_has_state (get_module k (ax_registry ctx')) = mi_has_state (get_module k (ax_registry ctx))"
proof -
  define i where "i = (telemetry_build_status_evt dev st)\<lparr>m_ok := - 1\<rparr>"
  have st: "strncpy_field STATE_CAP (fsm_state_to_string st) = fsm_state_to_string st"
    by (cases st) (simp_all add: strncpy_field_id)
  have f: "m_role i = ROLE_EVT" "m_type i = TYPE_STATUS" "m_has_dev i" "m_dev i = dev" "m_has_state i"
    "m_state i = fsm_state_to_string st"
    by (simp_all add: i_def telemetry_build_status_evt_def st)
  have l: "line_parse (wire (telemetry_build_status_evt dev st)) = Some i" by (simp add: i_def status_evt_line)
  have b: "(fsm_state_to_string st = ''PROCESSING'' \<or> fsm_state_to_string st = ''READY'' \<or> fsm_state_to_string st = ''TRANSFERRING'')
      = (st = SIM_STATE_READY \<or> st = SIM_STATE_PROCESSING)"
    "(fsm_state_to_string st = ''FAULT'') = (st = SIM_STATE_FAULT)" by (cases st; simp)+
  let ?reg = "update_module k (status_update (fsm_state_to_string st) (fst (now_ms w))) (update_module k (identify k dev) (ax_registry ctx))"
  have "router_evt (ax_registry ctx) i w = (?reg, snd (now_ms w))"
    using f assms by (simp add: router_evt_def case_prod_beta Let_def)
  then have "router_handle (ax_registry ctx) p t i w = (0, None, ?reg, snd (now_ms w))" for p t
    by (simp add: router_handle_def f)
  then have h: "handle_one_line fd ctx (wire (telemetry_build_status_evt dev st)) w
      = (0, ctx\<lparr>ax_registry := ?reg\<rparr>, snd (now_ms w))"
    by (simp add: handle_one_line_def l f pending_for_def route_line_def Let_def)
  have m: "get_module k ?reg = status_update (fsm_state_to_string st) (fst (now_ms w)) (identify k dev (get_module k (ax_registry ctx)))"
    by simp
  show ?thesis
    by (rule exI [of _ "ctx\<lparr>ax_registry := ?reg\<rparr>"], rule exI [of _ "snd (now_ms w)"])
      (simp add: h m logged_now status_update_def b identify_def module_registry_touch_status_def Let_def)
qed

theorem status_event_in_registry_witness:
  "\<exists>ctx' w'. handle_one_line 5 sample_ctx (wire (telemetry_build_status_evt 1 SIM_STATE_PROCESSING)) (quiet_world 3) = (0, ctx', w')
     \<and> mi_busy (get_module KPreclean (ax_registry ctx'))"
proof -
  have "module_of_dev 1 = Some KPreclean" by (simp add: module_of_dev_def)
  from status_event_in_registry [OF this, of 5 sample_ctx SIM_STATE_PROCESSING "quiet_world 3"] show ?thesis by auto
qed

end
